(* ===== verification/Prelude.thy ===== *)
theory Prelude
  imports Main "HOL-Library.Word"
begin

text \<open>
  Shared vocabulary of the development: the machine integer types of the Rust code, the two
  build profiles (overflow checks on or off), panics as values of a sum type, checked
  arithmetic, array and slice access, and the generic lemmas the component theories share.

  Rust's integer \<open>+\<close>, \<open>-\<close>, \<open>*\<close>, unary \<open>-\<close> and \<open>abs\<close> panic on overflow when overflow checks
  are enabled (the dev and test profiles) and wrap around when they are not (the release
  profile). Every operation of the model takes the profile as an argument, so each theorem
  says for which of the two builds it holds.
\<close>

section \<open>Types\<close>

type_synonym byte = "8 word"
type_synonym u16 = "16 word"
type_synonym u32 = "32 word"
type_synonym u64 = "64 word"
type_synonym i16 = "16 word"
type_synonym i32 = "32 word"
type_synonym i64 = "64 word"

datatype build = Debug | Release

datatype panic =
    Arith_Overflow        \<comment> \<open>overflow check of a dev or test build\<close>
  | Index_Out_Of_Bounds   \<comment> \<open>\<open>xs[i]\<close> or \<open>xs[i..j]\<close> outside the slice\<close>
  | Unwrap_None           \<comment> \<open>\<open>unwrap\<close> or \<open>expect\<close> of an absent value\<close>
  | Explicit_Panic        \<comment> \<open>a \<open>panic!\<close> of the source\<close>
  | Wild_Pointer          \<comment> \<open>raw pointer access outside its mapping: undefined behaviour\<close>

type_synonym 'a res = "panic + 'a"

named_theorems res_simps "unfolding the result monad and the checked operations"
named_theorems inv_intros "introduction rules for the components' invariants"

section \<open>The result monad\<close>

fun r_bind :: "'a res \<Rightarrow> ('a \<Rightarrow> 'b res) \<Rightarrow> 'b res" where
  "r_bind (Inl p) f = Inl p"
| "r_bind (Inr x) f = f x"

lemma r_bind_cong [fundef_cong]:
  "m = m' \<Longrightarrow> (\<And>x. m' = Inr x \<Longrightarrow> f x = f' x) \<Longrightarrow> r_bind m f = r_bind m' f'"
  by (cases m') auto

lemma r_bind_Inr_iff [simp]: "r_bind m f = Inr y \<longleftrightarrow> (\<exists>x. m = Inr x \<and> f x = Inr y)"
  by (cases m) auto

lemma r_bind_Inl_iff: "r_bind m f = Inl p \<longleftrightarrow> m = Inl p \<or> (\<exists>x. m = Inr x \<and> f x = Inl p)"
  by (cases m) auto

lemma r_bind_assoc: "r_bind (r_bind m f) g = r_bind m (\<lambda>x. r_bind (f x) g)"
  by (cases m) auto

lemma r_bind_split:
  "P (r_bind m f) \<longleftrightarrow> (\<forall>p. m = Inl p \<longrightarrow> P (Inl p)) \<and> (\<forall>x. m = Inr x \<longrightarrow> P (f x))"
  by (cases m) auto

definition is_ok :: "'a res \<Rightarrow> bool" where
  "is_ok m \<longleftrightarrow> (\<exists>x. m = Inr x)"

lemma is_ok_simps [simp]: "is_ok (Inr x)" "\<not> is_ok (Inl p)"
  by (simp_all add: is_ok_def)

lemma is_ok_bind: "is_ok (r_bind m f) \<longleftrightarrow> (\<exists>x. m = Inr x \<and> is_ok (f x))"
  by (cases m) auto

section \<open>Checked arithmetic\<close>

text \<open>Unsigned: the exact result must fit in the type.\<close>

definition add_u :: "build \<Rightarrow> 'a::len word \<Rightarrow> 'a word \<Rightarrow> 'a word res" where
  "add_u b x y =
     (if b = Debug \<and> 2 ^ LENGTH('a) \<le> unat x + unat y then Inl Arith_Overflow else Inr (x + y))"

definition sub_u :: "build \<Rightarrow> 'a::len word \<Rightarrow> 'a word \<Rightarrow> 'a word res" where
  "sub_u b x y = (if b = Debug \<and> unat x < unat y then Inl Arith_Overflow else Inr (x - y))"

definition mul_u :: "build \<Rightarrow> 'a::len word \<Rightarrow> 'a word \<Rightarrow> 'a word res" where
  "mul_u b x y =
     (if b = Debug \<and> 2 ^ LENGTH('a) \<le> unat x * unat y then Inl Arith_Overflow else Inr (x * y))"

text \<open>Signed: \<open>fits_s\<close> says that an exact result is in the range of the type.\<close>

definition fits_s :: "'a::len word \<Rightarrow> int \<Rightarrow> bool" where
  "fits_s _ k \<longleftrightarrow> - (2 ^ (LENGTH('a) - 1)) \<le> k \<and> k < 2 ^ (LENGTH('a) - 1)"

definition add_s :: "build \<Rightarrow> 'a::len word \<Rightarrow> 'a word \<Rightarrow> 'a word res" where
  "add_s b x y =
     (if b = Debug \<and> \<not> fits_s x (sint x + sint y) then Inl Arith_Overflow else Inr (x + y))"

definition sub_s :: "build \<Rightarrow> 'a::len word \<Rightarrow> 'a word \<Rightarrow> 'a word res" where
  "sub_s b x y =
     (if b = Debug \<and> \<not> fits_s x (sint x - sint y) then Inl Arith_Overflow else Inr (x - y))"

definition mul_s :: "build \<Rightarrow> 'a::len word \<Rightarrow> 'a word \<Rightarrow> 'a word res" where
  "mul_s b x y =
     (if b = Debug \<and> \<not> fits_s x (sint x * sint y) then Inl Arith_Overflow else Inr (x * y))"

definition neg_s :: "build \<Rightarrow> 'a::len word \<Rightarrow> 'a word res" where
  "neg_s b x = (if b = Debug \<and> \<not> fits_s x (- sint x) then Inl Arith_Overflow else Inr (- x))"

definition abs_s :: "build \<Rightarrow> 'a::len word \<Rightarrow> 'a word res" where
  "abs_s b x = (if sint x < 0 then neg_s b x else Inr x)"

definition saturating_sub :: "'a::len word \<Rightarrow> 'a word \<Rightarrow> 'a word" where
  "saturating_sub x y = (if x < y then 0 else x - y)"

lemmas arith_defs = add_u_def sub_u_def mul_u_def add_s_def sub_s_def mul_s_def neg_s_def abs_s_def

lemma add_u_Release [simp]: "add_u Release x y = Inr (x + y)"
  and sub_u_Release [simp]: "sub_u Release x y = Inr (x - y)"
  and mul_u_Release [simp]: "mul_u Release x y = Inr (x * y)"
  and add_s_Release [simp]: "add_s Release x y = Inr (x + y)"
  and sub_s_Release [simp]: "sub_s Release x y = Inr (x - y)"
  and mul_s_Release [simp]: "mul_s Release x y = Inr (x * y)"
  and neg_s_Release [simp]: "neg_s Release x = Inr (- x)"
  by (simp_all add: arith_defs)

lemma add_u_InrD: "add_u b x y = Inr z \<Longrightarrow> z = x + y"
  and sub_u_InrD: "sub_u b x y = Inr z \<Longrightarrow> z = x - y"
  and add_s_InrD: "add_s b x y = Inr z \<Longrightarrow> z = x + y"
  and sub_s_InrD: "sub_s b x y = Inr z \<Longrightarrow> z = x - y"
  by (auto simp: arith_defs split: if_splits)

lemma add_u_Inr_iff:
  fixes x y z :: "'a::len word"
  shows "add_u b x y = Inr z \<longleftrightarrow> z = x + y \<and> (b = Debug \<longrightarrow> unat x + unat y < 2 ^ LENGTH('a))"
  by (auto simp: add_u_def)

lemma sub_u_Inr_iff:
  "sub_u b x y = Inr z \<longleftrightarrow> z = x - y \<and> (b = Debug \<longrightarrow> unat y \<le> unat x)"
  by (auto simp: sub_u_def)

lemma add_u_exact:
  fixes x y :: "'a::len word"
  assumes "unat x + unat y < 2 ^ LENGTH('a)"
  shows "add_u b x y = Inr (x + y)" "unat (x + y) = unat x + unat y"
  using assms by (auto simp: add_u_def unat_word_ariths)

lemma add_u_Debug:
  fixes x y z :: "'a::len word"
  assumes "add_u Debug x y = Inr z"
  shows "z = x + y \<and> unat z = unat x + unat y"
  using assms add_u_exact(2) [of x y] by (auto simp: add_u_def split: if_splits)

lemma sub_u_exact:
  assumes "unat y \<le> unat x"
  shows "sub_u b x y = Inr (x - y)" "unat (x - y) = unat x - unat y"
  using assms by (auto simp: sub_u_def unat_sub word_le_nat_alt)

lemma sub_u_Debug:
  assumes "sub_u Debug x y = Inr z"
  shows "z = x - y \<and> unat y \<le> unat x \<and> unat z = unat x - unat y"
  using assms sub_u_exact(2) [of y x] by (auto simp: sub_u_def split: if_splits)

lemma sint_in_range: "fits_s x (sint (x :: 'a::len word))"
  using sint_greater_eq [of x] sint_less [of x] by (simp add: fits_s_def)

lemma sint_of_fits:
  fixes x :: "'a::len word"
  assumes "fits_s x k"
  shows "sint (word_of_int k :: 'a word) = k"
proof -
  obtain n where n: "LENGTH('a) = Suc n"
    using len_gt_0 [where 'a = 'a] by (cases "LENGTH('a)") auto
  have "signed_take_bit n k = k"
    using assms n by (intro signed_take_bit_int_eq_self) (auto simp: fits_s_def)
  then show ?thesis by (simp add: sint_sbintrunc' n)
qed

lemma sint_add_exact:
  assumes "fits_s x (sint x + sint y)" shows "sint (x + y) = sint x + sint y"
proof -
  have "word_of_int (sint x + sint y) = x + y" by simp
  then show ?thesis using sint_of_fits [OF assms] by metis
qed

lemma sint_diff_exact:
  assumes "fits_s x (sint x - sint y)" shows "sint (x - y) = sint x - sint y"
proof -
  have "word_of_int (sint x - sint y) = x - y" by simp
  then show ?thesis using sint_of_fits [OF assms] by metis
qed

lemma sint_mult_exact:
  assumes "fits_s x (sint x * sint y)" shows "sint (x * y) = sint x * sint y"
proof -
  have "word_of_int (sint x * sint y) = x * y" by simp
  then show ?thesis using sint_of_fits [OF assms] by metis
qed

lemma sint_neg_exact:
  assumes "fits_s x (- sint x)" shows "sint (- x) = - sint x"
proof -
  have "word_of_int (- sint x) = - x" by simp
  then show ?thesis using sint_of_fits [OF assms] by metis
qed

lemma add_s_exact:
  "fits_s x (sint x + sint y) \<Longrightarrow> add_s b x y = Inr (x + y)"
  and sub_s_exact: "fits_s x (sint x - sint y) \<Longrightarrow> sub_s b x y = Inr (x - y)"
  and mul_s_exact: "fits_s x (sint x * sint y) \<Longrightarrow> mul_s b x y = Inr (x * y)"
  and neg_s_exact: "fits_s x (- sint x) \<Longrightarrow> neg_s b x = Inr (- x)"
  by (simp_all add: arith_defs)

lemma sint_eq_uint:
  fixes x :: "'a::len word"
  assumes "uint x < 2 ^ (LENGTH('a) - 1)"
  shows "sint x = uint x"
proof -
  have "- (2 ^ (LENGTH('a) - 1)) \<le> (0 :: int)" by simp
  also have "0 \<le> uint x" by simp
  finally have "fits_s x (uint x)" using assms by (simp add: fits_s_def)
  then have "sint (word_of_int (uint x) :: 'a word) = uint x" by (rule sint_of_fits)
  then show ?thesis by simp
qed

lemma unat_u32_bound: "unat (w :: u32) < 2 ^ 32"
  by (rule less_le_trans [OF unsigned_less]) simp

lemma unat_u64_bound: "unat (w :: u64) < 2 ^ 64"
  by (rule less_le_trans [OF unsigned_less]) simp

section \<open>Arrays and slices\<close>

definition index :: "'a list \<Rightarrow> nat \<Rightarrow> 'a res" where
  "index xs i = (if i < length xs then Inr (xs ! i) else Inl Index_Out_Of_Bounds)"

definition sub_slice :: "'a list \<Rightarrow> nat \<Rightarrow> nat \<Rightarrow> 'a list res" where
  "sub_slice xs i j =
     (if i \<le> j \<and> j \<le> length xs then Inr (take (j - i) (drop i xs)) else Inl Index_Out_Of_Bounds)"

lemma index_ok [simp]: "i < length xs \<Longrightarrow> index xs i = Inr (xs ! i)"
  by (simp add: index_def)

lemma index_Inr_iff: "index xs i = Inr x \<longleftrightarrow> i < length xs \<and> x = xs ! i"
  by (auto simp: index_def)

lemma sub_slice_ok: "i \<le> j \<Longrightarrow> j \<le> length xs \<Longrightarrow> sub_slice xs i j = Inr (take (j - i) (drop i xs))"
  by (simp add: sub_slice_def)

lemma sub_slice_Inr_iff:
  "sub_slice xs i j = Inr ys \<longleftrightarrow> i \<le> j \<and> j \<le> length xs \<and> ys = take (j - i) (drop i xs)"
  by (auto simp: sub_slice_def)

lemma sub_slice_length: "sub_slice xs i j = Inr ys \<Longrightarrow> length ys = j - i"
  by (auto simp: sub_slice_Inr_iff)

lemma list_update_same_conv_nth: "i < length xs \<Longrightarrow> xs[i := y] ! j = (if j = i then y else xs ! j)"
  by (simp add: nth_list_update)

lemma sum_list_update_int:
  fixes xs :: "int list"
  shows "i < length xs \<Longrightarrow> sum_list (xs[i := y]) = sum_list xs + y - xs ! i"
  by (induction xs arbitrary: i) (auto split: nat.splits)

lemma map_update_same: "i < length xs \<Longrightarrow> f y = f (xs ! i) \<Longrightarrow> map f (xs[i := y]) = map f xs"
  by (simp add: map_update list_update_same_conv)

lemma ball_update: "\<forall>x\<in>set xs. P x \<Longrightarrow> P y \<Longrightarrow> \<forall>x\<in>set (xs[i := y]). P x"
  using set_update_subset_insert [of xs i y] by blast

end
