(* ===== verification/Rust_Bytes.thy ===== *)
theory Rust_Bytes
  imports Prelude
begin

text \<open>
  Byte-level codecs of the Rust standard library used by the code: \<open>to_be_bytes\<close>,
  \<open>from_be_bytes\<close> and their little-endian counterparts, \<open>copy_from_slice\<close> into a range of a
  buffer, and reading a fixed-width field out of a packet. The lemmas are the round trips and
  the read-after-write laws of the buffer.
\<close>

section \<open>Big-endian and little-endian integers\<close>

fun be_nat :: "byte list \<Rightarrow> nat" where
  "be_nat [] = 0"
| "be_nat (x # xs) = unat x * 256 ^ length xs + be_nat xs"

fun be_bytes :: "nat \<Rightarrow> nat \<Rightarrow> byte list" where
  "be_bytes 0 n = []"
| "be_bytes (Suc k) n = word_of_nat (n div 256 ^ k) # be_bytes k n"

definition from_be_bytes :: "byte list \<Rightarrow> 'a::len word" where
  "from_be_bytes bs = word_of_nat (be_nat bs)"

definition to_be_bytes :: "'a::len word \<Rightarrow> byte list" where
  "to_be_bytes w = be_bytes (LENGTH('a) div 8) (unat w)"

definition from_le_bytes :: "byte list \<Rightarrow> 'a::len word" where
  "from_le_bytes bs = word_of_nat (be_nat (rev bs))"

definition to_le_bytes :: "'a::len word \<Rightarrow> byte list" where
  "to_le_bytes w = rev (be_bytes (LENGTH('a) div 8) (unat w))"

lemma be_nat_replicate [simp]: "be_nat (replicate n 0) = 0"
  by (induction n) auto

lemma be_bytes_numeral [simp]:
  "be_bytes (numeral k) n = word_of_nat (n div 256 ^ pred_numeral k) # be_bytes (pred_numeral k) n"
  by (simp add: numeral_eq_Suc)

lemma length_be_bytes [simp]: "length (be_bytes k n) = k"
  by (induction k) auto

lemma length_to_be_bytes [simp]: "length (to_be_bytes (w :: 'a::len word)) = LENGTH('a) div 8"
  by (simp add: to_be_bytes_def)

lemma length_to_le_bytes [simp]: "length (to_le_bytes (w :: 'a::len word)) = LENGTH('a) div 8"
  by (simp add: to_le_bytes_def)

lemma be_nat_bound: "be_nat bs < 256 ^ length bs"
proof (induction bs)
  case (Cons x xs)
  have "unat x < 2 ^ 8" using unsigned_less [of x] by simp
  then have "unat x < 256" by simp
  then have "(unat x + 1) * 256 ^ length xs \<le> 256 * 256 ^ length xs"
    by (intro mult_le_mono1) simp
  moreover have "be_nat (x # xs) < (unat x + 1) * 256 ^ length xs"
    using Cons.IH by simp
  ultimately have "be_nat (x # xs) < 256 * 256 ^ length xs" by (rule order_less_le_trans [rotated])
  then show ?case by simp
qed simp

lemma be_nat_be_bytes: "be_nat (be_bytes k n) = n mod 256 ^ k"
proof (induction k)
  case (Suc k)
  have "unat (word_of_nat (n div 256 ^ k) :: byte) = n div 256 ^ k mod 256"
    by (simp add: unat_of_nat)
  with Suc show ?case
    using mod_mult2_eq [of n "256 ^ k" 256] by (simp add: mult.commute)
qed simp

lemma be_bytes_mod: "be_bytes k n = be_bytes k (n mod 256 ^ k)" if "k \<le> j" for k j n
proof -
  have "be_bytes i n = be_bytes i (n mod 256 ^ k)" if "i \<le> k" for i
    using that
  proof (induction i)
    case (Suc i)
    have "n mod 256 ^ k div 256 ^ i mod 256 = n div 256 ^ i mod 256"
    proof -
      obtain d where "k = Suc i + d" using Suc.prems by (metis le_Suc_ex)
      then have k: "(256::nat) ^ k = 256 ^ i * (256 * 256 ^ d)" by (simp add: power_add)
      show ?thesis
        unfolding k by (simp add: mod_mult2_eq [of n] div_mult2_eq)
          (metis mod_mult_right_eq mod_mod_cancel dvd_triv_left mod_mult2_eq mod_mult_self4)
    qed
    then have "(word_of_nat (n div 256 ^ i) :: byte) = word_of_nat (n mod 256 ^ k div 256 ^ i)"
      by (simp add: word_unat_eq_iff unat_of_nat)
    with Suc show ?case by simp
  qed simp
  then show ?thesis by blast
qed

lemma be_bytes_be_nat: "be_bytes (length bs) (be_nat bs) = bs"
proof (induction bs)
  case (Cons x xs)
  have d: "be_nat (x # xs) div 256 ^ length xs = unat x"
    using be_nat_bound [of xs] by simp
  have m: "be_nat (x # xs) mod 256 ^ length xs = be_nat xs"
    using be_nat_bound [of xs] by simp
  have "be_bytes (length xs) (be_nat (x # xs)) = xs"
    using be_bytes_mod [of "length xs" "length xs" "be_nat (x # xs)"] m Cons.IH by simp
  then show ?case using d by simp
qed simp

lemma pow_256_width: "8 dvd LENGTH('a::len) \<Longrightarrow> (256::nat) ^ (LENGTH('a) div 8) = 2 ^ LENGTH('a)"
proof -
  assume "8 dvd LENGTH('a)"
  then have "(2::nat) ^ LENGTH('a) = (2 ^ 8) ^ (LENGTH('a) div 8)"
    by (metis dvd_mult_div_cancel power_mult)
  then show ?thesis by simp
qed

lemma from_to_be_bytes: "8 dvd LENGTH('a) \<Longrightarrow> from_be_bytes (to_be_bytes w) = (w :: 'a::len word)"
  by (simp add: from_be_bytes_def to_be_bytes_def be_nat_be_bytes pow_256_width)

lemma from_to_le_bytes: "8 dvd LENGTH('a) \<Longrightarrow> from_le_bytes (to_le_bytes w) = (w :: 'a::len word)"
  by (simp add: from_le_bytes_def to_le_bytes_def be_nat_be_bytes pow_256_width)

lemma to_from_be_bytes:
  assumes "8 dvd LENGTH('a)" "length bs = LENGTH('a) div 8"
  shows "to_be_bytes (from_be_bytes bs :: 'a::len word) = bs"
proof -
  have "be_nat bs < 2 ^ LENGTH('a)"
    using be_nat_bound [of bs] assms pow_256_width [where 'a = 'a] by simp
  then have "unat (word_of_nat (be_nat bs) :: 'a word) = be_nat bs"
    by (simp add: unat_of_nat)
  then show ?thesis
    using be_bytes_be_nat [of bs] assms by (simp add: to_be_bytes_def from_be_bytes_def)
qed

lemma unat_from_be_bytes_bound:
  "unat (from_be_bytes bs :: 'a::len word) < 256 ^ length bs"
proof -
  have "unat (word_of_nat (be_nat bs) :: 'a word) \<le> be_nat bs"
    by (simp add: unat_of_nat)
  then show ?thesis
    using be_nat_bound [of bs] by (simp add: from_be_bytes_def)
qed

section \<open>Buffers\<close>

text \<open>\<open>buf[i..i+len].copy_from_slice(bs)\<close>, on a range inside the buffer.\<close>

definition put :: "byte list \<Rightarrow> nat \<Rightarrow> byte list \<Rightarrow> byte list" where
  "put buf i bs = take i buf @ bs @ drop (i + length bs) buf"

lemma length_put [simp]: "i + length bs \<le> length buf \<Longrightarrow> length (put buf i bs) = length buf"
  by (simp add: put_def)

lemma nth_put:
  "i + length bs \<le> length buf \<Longrightarrow> k < length buf \<Longrightarrow>
   put buf i bs ! k = (if i \<le> k \<and> k < i + length bs then bs ! (k - i) else buf ! k)"
  by (auto simp: put_def nth_append not_less min_def)

lemma sub_slice_put_same:
  assumes "i + length bs \<le> length buf" "j = i + length bs"
  shows "sub_slice (put buf i bs) i j = Inr bs"
  using assms by (cases "bs = []") (auto simp: sub_slice_def put_def min_def)

lemma sub_slice_put_other:
  assumes "i + length bs \<le> length buf" "b \<le> i \<or> i + length bs \<le> a"
  shows "sub_slice (put buf i bs) a b = sub_slice buf a b"
  using assms by (auto simp: sub_slice_def nth_put intro!: nth_equalityI)

lemma sub_slice_take: "b \<le> n \<Longrightarrow> n \<le> length buf \<Longrightarrow> sub_slice (take n buf) a b = sub_slice buf a b"
  by (auto simp: sub_slice_def min_def drop_take intro!: nth_equalityI)

lemma index_put_other:
  "i + length bs \<le> length buf \<Longrightarrow> k < i \<or> i + length bs \<le> k \<Longrightarrow> index (put buf i bs) k = index buf k"
  by (auto simp: index_def nth_put)

lemma index_put_singleton: "k < length buf \<Longrightarrow> index (put buf k [x]) k = Inr x"
  by (simp add: index_def nth_put)

lemma index_take: "k < n \<Longrightarrow> n \<le> length buf \<Longrightarrow> index (take n buf) k = index buf k"
  by (auto simp: index_def)

text \<open>The bytes a pointer cast looks at.\<close>

definition window :: "byte list \<Rightarrow> nat \<Rightarrow> nat \<Rightarrow> byte list" where
  "window buf i n = take n (drop i buf)"

lemma length_window [simp]: "i + n \<le> length buf \<Longrightarrow> length (window buf i n) = n"
  by (simp add: window_def)

lemma window_put_same:
  "i + length bs \<le> length buf \<Longrightarrow> n = length bs \<Longrightarrow> window (put buf i bs) i n = bs"
  by (simp add: window_def put_def)

lemma window_put_other:
  assumes "i + length bs \<le> length buf" "j + n \<le> i \<or> i + length bs \<le> j"
  shows "window (put buf i bs) j n = window buf j n"
  using assms by (auto simp: window_def nth_put intro!: nth_equalityI)

lemma window_window: "i + n \<le> m \<Longrightarrow> window (window buf j m) i n = window buf (j + i) n"
  by (simp add: window_def drop_take add.commute)

section \<open>Fields of a packet\<close>

text \<open>\<open>uN::from_be_bytes(data[i..j].try_into().unwrap())\<close>: the slice has the width of the
  integer, so the conversion to an array cannot fail; the slicing itself can.\<close>

definition be_field :: "byte list \<Rightarrow> nat \<Rightarrow> nat \<Rightarrow> 'a::len word res" where
  "be_field data i j = r_bind (sub_slice data i j) (\<lambda>bs. Inr (from_be_bytes bs))"

lemma be_field_Inl_iff [simp]:
  "be_field data i j = Inl p \<longleftrightarrow> p = Index_Out_Of_Bounds \<and> \<not> (i \<le> j \<and> j \<le> length data)"
  by (auto simp: be_field_def sub_slice_def)

lemma be_field_ok:
  "i \<le> j \<Longrightarrow> j \<le> length data \<Longrightarrow>
   be_field data i j = Inr (from_be_bytes (take (j - i) (drop i data)))"
  by (simp add: be_field_def sub_slice_def)

lemma be_field_bound:
  assumes "be_field data i j = Inr (w :: 'a::len word)"
  shows "unat w < 256 ^ (j - i)"
proof -
  from assms obtain bs where "sub_slice data i j = Inr bs" "w = from_be_bytes bs"
    by (auto simp: be_field_def)
  then show ?thesis using unat_from_be_bytes_bound [of bs] sub_slice_length by metis
qed

end
