(* ===== verification/Common.thy ===== *)
theory Common
  imports Rust_Bytes
begin

text \<open>
  \<open>crates/common/src/lib.rs\<close>: the enums and the wire structs shared by every component, with the
  memory layouts of the \<open>repr(C)\<close> and \<open>repr(C, packed)\<close> structs on a little-endian machine (the
  execution engine is x86 code), and the trait of the telemetry writers.
\<close>

type_synonym Price = u32
type_synonym Quantity = u32
type_synonym OrderId = u64

datatype side = Buy | Sell

datatype aggressor_side = Buyer | Seller

datatype order_side = OrderBuy | OrderSell

record execution_report =
  er_order_id :: u64
  er_last_qty :: u32
  er_last_price :: u32
  er_exec_type :: byte
  er_stock_locate :: u16

record order_command =
  oc_symbol_locate :: u16
  oc_order_id :: u64
  oc_price :: u32
  oc_quantity :: u32
  oc_side :: order_side

record telemetry_payload =
  tp_timestamp_ns :: u64
  tp_realised_pnl :: i64
  tp_midpoint_px :: u32
  tp_position :: i32
  tp_latency_ns :: u32
  tp_locate_id :: u16

text \<open>\<open>trait MessageAnalyticsWriter\<close>: \<open>write\<close> updates the writer; it may panic.\<close>

record 'w writer_ops =
  wr_write :: "'w \<Rightarrow> byte list \<Rightarrow> 'w res"

section \<open>Layouts\<close>

text \<open>\<open>OrderSide\<close> is a \<open>repr(C)\<close> enum without data: a C \<open>int\<close> of four bytes holding the
  discriminant.\<close>

fun order_side_disc :: "order_side \<Rightarrow> u32" where
  "order_side_disc OrderBuy = 0"
| "order_side_disc OrderSell = 1"

definition order_command_as_bytes :: "order_command \<Rightarrow> byte list" where
  "order_command_as_bytes c =
     to_le_bytes (oc_symbol_locate c) @ to_le_bytes (oc_order_id c) @ to_le_bytes (oc_price c) @
     to_le_bytes (oc_quantity c) @ to_le_bytes (order_side_disc (oc_side c))"

text \<open>\<open>ExecutionReport\<close> is packed: its fields follow each other without padding.\<close>

definition execution_report_bytes :: "execution_report \<Rightarrow> byte list" where
  "execution_report_bytes r =
     to_le_bytes (er_order_id r) @ to_le_bytes (er_last_qty r) @ to_le_bytes (er_last_price r) @
     [er_exec_type r] @ to_le_bytes (er_stock_locate r)"

definition execution_report_of_bytes :: "byte list \<Rightarrow> execution_report" where
  "execution_report_of_bytes bs =
     \<lparr>er_order_id = from_le_bytes (take 8 bs),
      er_last_qty = from_le_bytes (take 4 (drop 8 bs)),
      er_last_price = from_le_bytes (take 4 (drop 12 bs)),
      er_exec_type = bs ! 16,
      er_stock_locate = from_le_bytes (take 2 (drop 17 bs))\<rparr>"

text \<open>\<open>TelemetryPayload\<close> is \<open>repr(C)\<close>: the fields fall on offsets 0, 8, 16, 20, 24 and 28, and two
  bytes of padding round the size up to a multiple of the alignment 8. The padding is
  uninitialised memory in the source; the model writes zeros there and no definition reads it.\<close>

definition telemetry_bytes :: "telemetry_payload \<Rightarrow> byte list" where
  "telemetry_bytes t =
     to_le_bytes (tp_timestamp_ns t) @ to_le_bytes (tp_realised_pnl t) @
     to_le_bytes (tp_midpoint_px t) @ to_le_bytes (tp_position t) @
     to_le_bytes (tp_latency_ns t) @ to_le_bytes (tp_locate_id t) @ [0, 0]"

lemma length_order_command_as_bytes [simp]: "length (order_command_as_bytes c) = 22"
  by (simp add: order_command_as_bytes_def)

lemma length_execution_report_bytes [simp]: "length (execution_report_bytes r) = 19"
  by (simp add: execution_report_bytes_def)

lemma length_telemetry_bytes [simp]: "length (telemetry_bytes t) = 32"
  by (simp add: telemetry_bytes_def)

section \<open>The C++ view of an order\<close>

text \<open>\<open>apps/execution-engine/contracts.hpp\<close> declares \<open>side\<close> as one byte in a packed struct of 19
  bytes and reads the first 19 bytes of the slot.\<close>

record cpp_order_command =
  cpp_symbol_locate :: u16
  cpp_order_id :: u64
  cpp_price :: u32
  cpp_quantity :: u32
  cpp_side :: byte

definition cpp_order_command_of_bytes :: "byte list \<Rightarrow> cpp_order_command" where
  "cpp_order_command_of_bytes bs =
     \<lparr>cpp_symbol_locate = from_le_bytes (take 2 bs),
      cpp_order_id = from_le_bytes (take 8 (drop 2 bs)),
      cpp_price = from_le_bytes (take 4 (drop 10 bs)),
      cpp_quantity = from_le_bytes (take 4 (drop 14 bs)),
      cpp_side = bs ! 18\<rparr>"

lemma order_side_byte:
  "to_le_bytes (order_side_disc s) ! 0 = (case s of OrderBuy \<Rightarrow> 0 | OrderSell \<Rightarrow> 1)"
  by (cases s) (simp_all add: to_le_bytes_def)

text \<open>An order written by the Rust side (22 bytes, a four-byte \<open>side\<close>) is read back by the C++
  side, which looks at the first 19 bytes and a one-byte \<open>side\<close>, with every field equal.\<close>

lemma cpp_reads_rust_order:
  "cpp_order_command_of_bytes (take 19 (order_command_as_bytes c)) =
     \<lparr>cpp_symbol_locate = oc_symbol_locate c, cpp_order_id = oc_order_id c,
      cpp_price = oc_price c, cpp_quantity = oc_quantity c,
      cpp_side = (case oc_side c of OrderBuy \<Rightarrow> 0 | OrderSell \<Rightarrow> 1)\<rparr>"
  using order_side_byte [of "oc_side c"]
  by (simp add: cpp_order_command_of_bytes_def order_command_as_bytes_def from_to_le_bytes
      nth_append)

text \<open>A fill report survives the trip through its 19 packed bytes: decoding what was encoded,
  also when other bytes follow it in the slot, gives the report back.\<close>

lemma execution_report_roundtrip:
  "execution_report_of_bytes (execution_report_bytes r @ rest) = r"
  by (simp add: execution_report_of_bytes_def execution_report_bytes_def from_to_le_bytes
      nth_append)

end
