(* ===== verification/Rust_String.thy ===== *)
theory Rust_String
  imports Prelude
begin

text \<open>
  The Rust strings the code handles, as lists of Unicode scalar values: the lossy UTF-8
  decoding of \<open>String::from_utf8_lossy\<close> (every maximal invalid prefix becomes one U+FFFD),
  the White_Space property, \<open>trim\<close> and \<open>trim_matches\<close>, and the decimal formatting of integers.
\<close>

type_synonym rchar = nat
type_synonym rstring = "rchar list"

definition code_of :: "char \<Rightarrow> rchar" where
  "code_of c = of_char c"

definition rstr :: "string \<Rightarrow> rstring" where
  "rstr s = map code_of s"

section \<open>Lossy UTF-8 decoding\<close>

definition replacement_char :: rchar where
  "replacement_char = 65533"

definition is_cont :: "byte \<Rightarrow> bool" where
  "is_cont b \<longleftrightarrow> 128 \<le> unat b \<and> unat b \<le> 191"

text \<open>The second byte that may follow a lead byte of a three or four byte sequence.\<close>

definition second_ok :: "nat \<Rightarrow> byte \<Rightarrow> bool" where
  "second_ok x b \<longleftrightarrow>
     (if x = 224 then 160 \<le> unat b \<and> unat b \<le> 191
      else if x = 237 then 128 \<le> unat b \<and> unat b \<le> 159
      else if x = 240 then 144 \<le> unat b \<and> unat b \<le> 191
      else if x = 244 then 128 \<le> unat b \<and> unat b \<le> 143
      else is_cont b)"

text \<open>\<open>decode_one x bs\<close>: the scalar value that starts with lead byte \<open>x\<close>, and how many of the
  following bytes it uses up.\<close>

fun decode_one :: "nat \<Rightarrow> byte list \<Rightarrow> rchar \<times> nat" where
  "decode_one x bs =
     (if x < 128 then (x, 0)
      else if 194 \<le> x \<and> x \<le> 223 then
        (case bs of
           b1 # _ \<Rightarrow> if is_cont b1 then ((x - 192) * 64 + (unat b1 - 128), 1)
                     else (replacement_char, 0)
         | [] \<Rightarrow> (replacement_char, 0))
      else if 224 \<le> x \<and> x \<le> 239 then
        (case bs of
           b1 # b2 # _ \<Rightarrow>
             if \<not> second_ok x b1 then (replacement_char, 0)
             else if \<not> is_cont b2 then (replacement_char, 1)
             else ((x - 224) * 4096 + (unat b1 - 128) * 64 + (unat b2 - 128), 2)
         | [b1] \<Rightarrow> (replacement_char, if second_ok x b1 then 1 else 0)
         | [] \<Rightarrow> (replacement_char, 0))
      else if 240 \<le> x \<and> x \<le> 244 then
        (case bs of
           b1 # b2 # b3 # _ \<Rightarrow>
             if \<not> second_ok x b1 then (replacement_char, 0)
             else if \<not> is_cont b2 then (replacement_char, 1)
             else if \<not> is_cont b3 then (replacement_char, 2)
             else ((x - 240) * 262144 + (unat b1 - 128) * 4096 + (unat b2 - 128) * 64
                     + (unat b3 - 128), 3)
         | [b1, b2] \<Rightarrow>
             (replacement_char,
              if \<not> second_ok x b1 then 0 else if \<not> is_cont b2 then 1 else 2)
         | [b1] \<Rightarrow> (replacement_char, if second_ok x b1 then 1 else 0)
         | [] \<Rightarrow> (replacement_char, 0))
      else (replacement_char, 0))"

declare decode_one.simps [simp del]

function from_utf8_lossy :: "byte list \<Rightarrow> rstring" where
  "from_utf8_lossy [] = []"
| "from_utf8_lossy (b # bs) =
     (case decode_one (unat b) bs of (c, n) \<Rightarrow> c # from_utf8_lossy (drop n bs))"
  by pat_completeness auto
termination by (relation "measure length") auto

lemma from_utf8_lossy_ascii:
  "\<forall>b \<in> set bs. unat b < 128 \<Longrightarrow> from_utf8_lossy bs = map unat bs"
  by (induction bs) (auto simp: decode_one.simps)

lemma length_from_utf8_lossy: "length (from_utf8_lossy bs) \<le> length bs"
proof (induction bs rule: from_utf8_lossy.induct)
  case (2 b bs)
  obtain c n where cn: "decode_one (unat b) bs = (c, n)" by force
  have "length (from_utf8_lossy (drop n bs)) \<le> length (drop n bs)"
    by (rule 2) (use cn in auto)
  then show ?case using cn by simp
qed simp

section \<open>Trimming\<close>

definition is_whitespace :: "rchar \<Rightarrow> bool" where
  "is_whitespace c \<longleftrightarrow>
     9 \<le> c \<and> c \<le> 13 \<or> c = 32 \<or> c = 133 \<or> c = 160 \<or> c = 5760 \<or> 8192 \<le> c \<and> c \<le> 8202
     \<or> c = 8232 \<or> c = 8233 \<or> c = 8239 \<or> c = 8287 \<or> c = 12288"

definition trim_by :: "(rchar \<Rightarrow> bool) \<Rightarrow> rstring \<Rightarrow> rstring" where
  "trim_by p s = rev (dropWhile p (rev (dropWhile p s)))"

definition trim :: "rstring \<Rightarrow> rstring" where
  "trim s = trim_by is_whitespace s"

definition trim_matches :: "rchar \<Rightarrow> rstring \<Rightarrow> rstring" where
  "trim_matches c s = trim_by (\<lambda>x. x = c) s"

lemma dropWhile_append_all: "\<forall>x \<in> set xs. p x \<Longrightarrow> dropWhile p (xs @ ys) = dropWhile p ys"
  by (induction xs) auto

lemma trim_by_ends:
  assumes "s \<noteq> []" "\<not> p (hd s)" "\<not> p (last s)"
  shows "trim_by p s = s"
proof -
  have "dropWhile p s = s" using assms by (cases s) auto
  moreover have "dropWhile p (rev s) = rev s" using assms by (cases s rule: rev_cases) auto
  ultimately show ?thesis by (simp add: trim_by_def)
qed

lemma trim_by_padding:
  assumes "\<forall>x \<in> set pad. p x" "s = [] \<or> \<not> p (hd s) \<and> \<not> p (last s)"
  shows "trim_by p (s @ pad) = s"
proof (cases "s = []")
  case True
  moreover have "dropWhile p pad = []" using dropWhile_append_all [OF assms(1), of "[]"] by simp
  ultimately show ?thesis 
    by (simp only: True trim_by_def append_Nil rev.simps dropWhile.simps)
next
  case False
  then have "dropWhile p (s @ pad) = s @ pad" using assms(2) by (cases s) auto
  moreover have "dropWhile p (rev pad @ rev s) = rev s"
    using assms False by (simp add: dropWhile_append_all) (cases s rule: rev_cases; auto)
  ultimately show ?thesis by (simp add: trim_by_def)
qed

lemma trim_by_result:
  "trim_by p s = [] \<or> \<not> p (hd (trim_by p s)) \<and> \<not> p (last (trim_by p s))"
proof (cases "trim_by p s = []")
  case False
  let ?d = "dropWhile p s" and ?r = "dropWhile p (rev (dropWhile p s))"
  have r: "?r \<noteq> []" using False by (simp add: trim_by_def)
  have "\<not> p (hd ?r)" using r by (rule hd_dropWhile)
  then have "\<not> p (last (trim_by p s))" by (simp add: trim_by_def last_rev)
  moreover have "\<not> p (hd (trim_by p s))"
  proof -
    obtain pre where pre: "rev ?d = pre @ ?r"
      by (metis takeWhile_dropWhile_id)
    then have "?d = rev ?r @ rev pre" by (metis rev_append rev_rev_ident)
    moreover have "rev ?r \<noteq> []" using r by simp
    ultimately have "hd ?d = hd (rev ?r)" and "?d \<noteq> []" by (metis hd_append2, metis append_is_Nil_conv)
    then show ?thesis using hd_dropWhile [of p s] by (simp add: trim_by_def)
  qed
  ultimately show ?thesis by blast
qed simp

lemma trim_by_idem: "trim_by p (trim_by p s) = trim_by p s"
  using trim_by_result [of p s] by (cases "trim_by p s = []") (auto simp: trim_by_ends, simp add: trim_by_def)

section \<open>Formatting integers\<close>

text \<open>\<open>{}\<close> of an unsigned and of a signed integer.\<close>

fun fmt_nat :: "nat \<Rightarrow> rstring" where
  "fmt_nat n = (if n < 10 then [48 + n] else fmt_nat (n div 10) @ [48 + n mod 10])"

declare fmt_nat.simps [simp del]

definition fmt_int :: "int \<Rightarrow> rstring" where
  "fmt_int k = (if k < 0 then 45 # fmt_nat (nat (- k)) else fmt_nat (nat k))"

text \<open>Reading a decimal number back.\<close>

definition dec_value :: "rstring \<Rightarrow> nat" where
  "dec_value s = foldl (\<lambda>acc c. acc * 10 + (c - 48)) 0 s"

lemma dec_value_snoc [simp]: "dec_value (s @ [c]) = dec_value s * 10 + (c - 48)"
  by (simp add: dec_value_def)

lemma dec_value_fmt_nat: "dec_value (fmt_nat n) = n"
proof (induction n rule: fmt_nat.induct)
  case (1 n)
  then show ?case by (cases "n < 10") (simp_all add: fmt_nat.simps [of n], simp add: dec_value_def)
qed

lemma fmt_nat_inject [simp]: "fmt_nat m = fmt_nat n \<longleftrightarrow> m = n"
  by (metis dec_value_fmt_nat)

lemma fmt_nat_digits: "\<forall>c \<in> set (fmt_nat n). 48 \<le> c \<and> c \<le> 57"
proof (induction n rule: fmt_nat.induct)
  case (1 n)
  then show ?case by (cases "n < 10") (auto simp: fmt_nat.simps [of n])
qed

end
