(* ===== verification/Itch_Parser.thy ===== *)
theory Itch_Parser
  imports Common Rust_String
begin

text \<open>
  \<open>crates/itch-parser/src/lib.rs\<close>: the ITCH message type and the parser of one raw packet, and
  the packet builder of the market handler's tests (\<open>create_itch_packet\<close>), which is the
  encoder the parser is proved inverse to.

  A slice outside the packet panics (\<open>Index_Out_Of_Bounds\<close>); an unknown message type or a side
  other than 'B' and 'S' is \<open>None\<close>.
\<close>

datatype itch_message =
    AddOrder u16 u64 side u32 u64                  \<comment> \<open>stock_locate order_id side quantity price\<close>
  | ModifyOrder u16 u64 u32                        \<comment> \<open>stock_locate order_id quantity_to_remove\<close>
  | Trade u16 u64 u32 u64 side                     \<comment> \<open>stock_locate price quantity match_number bid\<close>
  | DeleteOrder u16 u64                            \<comment> \<open>stock_locate order_id\<close>
  | OrderExecuted u16 u64 u32 u64                  \<comment> \<open>stock_locate order_id quantity match_number\<close>
  | OrderExecutedWithPrice u16 u64 u32 u64 u64     \<comment> \<open>stock_locate order_id quantity price match_number\<close>
  | StockDirectory u16 rstring                     \<comment> \<open>stock_locate symbol\<close>

section \<open>The parser\<close>

text \<open>\<open>data[k] as char\<close>\<close>

definition char_at :: "byte list \<Rightarrow> nat \<Rightarrow> rchar res" where
  "char_at data k = r_bind (index data k) (\<lambda>x. Inr (unat x))"

definition side_of_char :: "rchar \<Rightarrow> side option" where
  "side_of_char c =
     (if c = code_of CHR ''B'' then Some Buy else if c = code_of CHR ''S'' then Some Sell else None)"

definition parse_stock_directory :: "u16 \<Rightarrow> byte list \<Rightarrow> itch_message option res" where
  "parse_stock_directory stock_locate data =
     r_bind (sub_slice data 11 19) (\<lambda>bs.
     Inr (Some (StockDirectory stock_locate (trim (from_utf8_lossy bs)))))"

definition parse_add_order :: "u16 \<Rightarrow> byte list \<Rightarrow> itch_message option res" where
  "parse_add_order stock_locate data =
     r_bind (be_field data 11 19) (\<lambda>order_id.
     r_bind (char_at data 19) (\<lambda>c.
     case side_of_char c of
       None \<Rightarrow> Inr None
     | Some s \<Rightarrow>
         r_bind (be_field data 20 24) (\<lambda>quantity.
         r_bind (be_field data 32 36 :: u32 res) (\<lambda>price.
         Inr (Some (AddOrder stock_locate order_id s quantity (ucast price)))))))"

definition parse_modify_order :: "u16 \<Rightarrow> byte list \<Rightarrow> itch_message option res" where
  "parse_modify_order stock_locate data =
     r_bind (be_field data 11 19) (\<lambda>order_id.
     r_bind (be_field data 19 23) (\<lambda>quantity_to_remove.
     Inr (Some (ModifyOrder stock_locate order_id quantity_to_remove))))"

definition parse_delete_order :: "u16 \<Rightarrow> byte list \<Rightarrow> itch_message option res" where
  "parse_delete_order stock_locate data =
     r_bind (be_field data 11 19) (\<lambda>order_id.
     Inr (Some (DeleteOrder stock_locate order_id)))"

definition parse_trade :: "u16 \<Rightarrow> byte list \<Rightarrow> itch_message option res" where
  "parse_trade stock_locate data =
     r_bind (be_field data 20 24) (\<lambda>quantity.
     r_bind (be_field data 32 36 :: u32 res) (\<lambda>price.
     r_bind (be_field data 36 44) (\<lambda>match_number.
     r_bind (char_at data 19) (\<lambda>c.
     case side_of_char c of
       None \<Rightarrow> Inr None
     | Some bid \<Rightarrow> Inr (Some (Trade stock_locate (ucast price) quantity match_number bid))))))"

definition parse_order_executed :: "u16 \<Rightarrow> byte list \<Rightarrow> itch_message option res" where
  "parse_order_executed stock_locate data =
     r_bind (be_field data 11 19) (\<lambda>order_id.
     r_bind (be_field data 19 23) (\<lambda>quantity.
     r_bind (be_field data 23 31) (\<lambda>match_number.
     Inr (Some (OrderExecuted stock_locate order_id quantity match_number)))))"

definition parse_order_executed_price :: "u16 \<Rightarrow> byte list \<Rightarrow> itch_message option res" where
  "parse_order_executed_price stock_locate data =
     r_bind (be_field data 11 19) (\<lambda>order_id.
     r_bind (be_field data 19 23) (\<lambda>quantity.
     r_bind (be_field data 23 31) (\<lambda>match_number.
     r_bind (be_field data 32 36 :: u32 res) (\<lambda>price.
     Inr (Some (OrderExecutedWithPrice stock_locate order_id quantity (ucast price) match_number))))))"

definition parse_itch_message :: "byte list \<Rightarrow> itch_message option res" where
  "parse_itch_message data =
     r_bind (char_at data 0) (\<lambda>message_type.
     r_bind (be_field data 1 3) (\<lambda>stock_locate.
     if message_type = code_of CHR ''R'' then parse_stock_directory stock_locate data
     else if message_type = code_of CHR ''A'' then parse_add_order stock_locate data
     else if message_type = code_of CHR ''X'' then parse_modify_order stock_locate data
     else if message_type = code_of CHR ''D'' then parse_delete_order stock_locate data
     else if message_type = code_of CHR ''P'' then parse_trade stock_locate data
     else if message_type = code_of CHR ''E'' then parse_order_executed stock_locate data
     else if message_type = code_of CHR ''C'' then parse_order_executed_price stock_locate data
     else Inr None))"

lemmas parse_defs = parse_stock_directory_def parse_add_order_def parse_modify_order_def
  parse_delete_order_def parse_trade_def parse_order_executed_def parse_order_executed_price_def

lemma code_of_values:
  "code_of CHR ''R'' = 82" "code_of CHR ''A'' = 65" "code_of CHR ''X'' = 88" "code_of CHR ''D'' = 68"
  "code_of CHR ''P'' = 80" "code_of CHR ''E'' = 69" "code_of CHR ''C'' = 67" "code_of CHR ''B'' = 66"
  "code_of CHR ''S'' = 83"
  by (simp_all add: code_of_def)

section \<open>The packet builder of the tests\<close>

text \<open>\<open>create_itch_packet\<close>, with the symbol given by its bytes (\<open>symbol.as_bytes()\<close>).\<close>

definition create_itch_packet ::
    "rchar \<Rightarrow> u16 \<Rightarrow> u64 \<Rightarrow> u32 \<Rightarrow> u32 \<Rightarrow> u64 \<Rightarrow> rchar \<Rightarrow> byte list \<Rightarrow> byte list res" where
  "create_itch_packet msg_type locate oid qty price match_number side symbol =
     (let buf = put (put (replicate 50 0) 0 [word_of_nat msg_type]) 1 (to_be_bytes locate)
      in if msg_type = code_of CHR ''R'' then
           Inr (take 39 (put buf 11
             (take (min (length symbol) 8) symbol
              @ replicate (8 - min (length symbol) 8) (word_of_nat (code_of CHR '' '')))))
         else if msg_type = code_of CHR ''A'' then
           Inr (take 36 (put (put (put (put buf 11 (to_be_bytes oid)) 19 [word_of_nat side])
                                  20 (to_be_bytes qty)) 32 (to_be_bytes price)))
         else if msg_type = code_of CHR ''E'' then
           Inr (take 31 (put (put (put buf 11 (to_be_bytes oid)) 19 (to_be_bytes qty))
                             23 (to_be_bytes match_number)))
         else if msg_type = code_of CHR ''C'' then
           Inr (take 36 (put (put (put (put buf 11 (to_be_bytes oid)) 19 (to_be_bytes qty))
                                  23 (to_be_bytes match_number)) 32 (to_be_bytes price)))
         else if msg_type = code_of CHR ''X'' then
           Inr (take 23 (put (put buf 11 (to_be_bytes oid)) 19 (to_be_bytes qty)))
         else if msg_type = code_of CHR ''D'' then
           Inr (take 19 (put buf 11 (to_be_bytes oid)))
         else if msg_type = code_of CHR ''P'' then
           Inr (take 44 (put (put (put (put buf 19 [word_of_nat side]) 20 (to_be_bytes qty))
                                  32 (to_be_bytes price)) 36 (to_be_bytes match_number)))
         else Inl Explicit_Panic)"

text \<open>Reading a field back out of a buffer built by \<open>put\<close>: one simplification set.\<close>

lemma be_field_put_same:
  "8 dvd LENGTH('a) \<Longrightarrow> i + LENGTH('a) div 8 \<le> length buf \<Longrightarrow> j = i + LENGTH('a) div 8 \<Longrightarrow>
   be_field (put buf i (to_be_bytes (w :: 'a::len word))) i j = Inr w"
  by (simp add: be_field_def sub_slice_put_same from_to_be_bytes)

lemma be_field_put_other:
  "i + length bs \<le> length buf \<Longrightarrow> b \<le> i \<or> i + length bs \<le> a \<Longrightarrow>
   be_field (put buf i bs) a b = be_field buf a b"
  by (simp add: be_field_def sub_slice_put_other)

lemma be_field_take:
  "b \<le> n \<Longrightarrow> n \<le> length buf \<Longrightarrow> be_field (take n buf) a b = be_field buf a b"
  by (simp add: be_field_def sub_slice_take)

lemmas packet_simps = be_field_put_same be_field_put_other be_field_take
  sub_slice_put_same sub_slice_put_other sub_slice_take
  index_put_other index_put_singleton index_take nth_put

section \<open>Properties\<close>

definition side_char :: "side \<Rightarrow> rchar" where
  "side_char s = (case s of Buy \<Rightarrow> code_of CHR ''B'' | Sell \<Rightarrow> code_of CHR ''S'')"

lemma side_of_side_char: "side_of_char (unat (word_of_nat (side_char s) :: byte)) = Some s"
  by (cases s) (simp_all add: side_of_char_def side_char_def code_of_values)

lemma parse_built_add:
  "r_bind (create_itch_packet (code_of CHR ''A'') loc oid qty price mn (side_char s) sb) parse_itch_message
   = Inr (Some (AddOrder loc oid s qty (ucast price)))"
  using side_of_side_char [of s]
  by (simp add: create_itch_packet_def parse_itch_message_def parse_add_order_def char_at_def
      packet_simps code_of_values Let_def)

lemma parse_built_trade:
  "r_bind (create_itch_packet (code_of CHR ''P'') loc oid qty price mn (side_char s) sb) parse_itch_message
   = Inr (Some (Trade loc (ucast price) qty mn s))"
  using side_of_side_char [of s]
  by (simp add: create_itch_packet_def parse_itch_message_def parse_trade_def char_at_def
      packet_simps code_of_values Let_def)

lemma parse_built_executed:
  "r_bind (create_itch_packet (code_of CHR ''E'') loc oid qty price mn c sb) parse_itch_message
   = Inr (Some (OrderExecuted loc oid qty mn))"
  "r_bind (create_itch_packet (code_of CHR ''C'') loc oid qty price mn c sb) parse_itch_message
   = Inr (Some (OrderExecutedWithPrice loc oid qty (ucast price) mn))"
  by (simp_all add: create_itch_packet_def parse_itch_message_def parse_order_executed_def
      parse_order_executed_price_def char_at_def packet_simps code_of_values Let_def)

lemma parse_built_cancel:
  "r_bind (create_itch_packet (code_of CHR ''X'') loc oid qty price mn c sb) parse_itch_message
   = Inr (Some (ModifyOrder loc oid qty))"
  "r_bind (create_itch_packet (code_of CHR ''D'') loc oid qty price mn c sb) parse_itch_message
   = Inr (Some (DeleteOrder loc oid))"
  by (simp_all add: create_itch_packet_def parse_itch_message_def parse_modify_order_def
      parse_delete_order_def char_at_def packet_simps code_of_values Let_def)

text \<open>C20: Every order-flow packet built field by field parses to the message with exactly those
  fields: add, cancel, delete, execute, execute with price and off-book trade.\<close>

theorem parse_create_roundtrip:
  "r_bind (create_itch_packet (code_of CHR ''A'') loc oid qty price mn (side_char s) sb)
     parse_itch_message = Inr (Some (AddOrder loc oid s qty (ucast price)))
   \<and> r_bind (create_itch_packet (code_of CHR ''X'') loc oid qty price mn c sb)
     parse_itch_message = Inr (Some (ModifyOrder loc oid qty))
   \<and> r_bind (create_itch_packet (code_of CHR ''D'') loc oid qty price mn c sb)
     parse_itch_message = Inr (Some (DeleteOrder loc oid))
   \<and> r_bind (create_itch_packet (code_of CHR ''E'') loc oid qty price mn c sb)
     parse_itch_message = Inr (Some (OrderExecuted loc oid qty mn))
   \<and> r_bind (create_itch_packet (code_of CHR ''C'') loc oid qty price mn c sb)
     parse_itch_message = Inr (Some (OrderExecutedWithPrice loc oid qty (ucast price) mn))
   \<and> r_bind (create_itch_packet (code_of CHR ''P'') loc oid qty price mn (side_char s) sb)
     parse_itch_message = Inr (Some (Trade loc (ucast price) qty mn s))"
  by (intro conjI parse_built_add parse_built_trade parse_built_executed parse_built_cancel)

text \<open>The shortest packet that does not make the parser panic, by the type in its first byte; an
  'A' packet with a bad side is rejected before its quantity and price are read.\<close>

definition required_len :: "byte list \<Rightarrow> nat" where
  "required_len data =
     (if length data < 3 then 3
      else let t = unat (data ! 0) in
        if t = code_of CHR ''R'' \<or> t = code_of CHR ''D'' then 19
        else if t = code_of CHR ''A'' then
          (if 19 < length data \<and> side_of_char (unat (data ! 19)) = None then 20 else 36)
        else if t = code_of CHR ''X'' then 23
        else if t = code_of CHR ''P'' then 44
        else if t = code_of CHR ''E'' then 31
        else if t = code_of CHR ''C'' then 36
        else 3)"

lemma char_at_Inl_iff [simp]: "char_at data k = Inl p \<longleftrightarrow> p = Index_Out_Of_Bounds \<and> length data \<le> k"
  and char_at_Inr_iff: "char_at data k = Inr c \<longleftrightarrow> k < length data \<and> c = unat (data ! k)"
  by (auto simp: char_at_def index_def)

lemma sub_slice_Inl_iff [simp]:
  "sub_slice xs i j = Inl p \<longleftrightarrow> p = Index_Out_Of_Bounds \<and> \<not> (i \<le> j \<and> j \<le> length xs)"
  by (auto simp: sub_slice_def)

lemma be_field_Inr_iff:
  "be_field data i j = Inr w \<longleftrightarrow>
     i \<le> j \<and> j \<le> length data \<and> w = from_be_bytes (take (j - i) (drop i data))"
  by (auto simp: be_field_def sub_slice_Inr_iff)

lemma parse_directory_panic_iff:
  "parse_stock_directory loc data = Inl p \<longleftrightarrow> p = Index_Out_Of_Bounds \<and> length data < 19"
  by (auto simp: parse_stock_directory_def r_bind_Inl_iff)

lemma parse_add_panic_iff:
  "parse_add_order loc data = Inl p \<longleftrightarrow> p = Index_Out_Of_Bounds \<and>
     length data < (if 19 < length data \<and> side_of_char (unat (data ! 19)) = None then 20 else 36)"
  by (auto simp: parse_add_order_def r_bind_Inl_iff char_at_Inr_iff be_field_Inr_iff
      split: option.splits)

lemma parse_cancel_panic_iff:
  "parse_modify_order loc data = Inl p \<longleftrightarrow> p = Index_Out_Of_Bounds \<and> length data < 23"
  "parse_delete_order loc data = Inl p \<longleftrightarrow> p = Index_Out_Of_Bounds \<and> length data < 19"
  by (auto simp: parse_modify_order_def parse_delete_order_def r_bind_Inl_iff be_field_Inr_iff)

lemma parse_trade_panic_iff:
  "parse_trade loc data = Inl p \<longleftrightarrow> p = Index_Out_Of_Bounds \<and> length data < 44"
  by (auto simp: parse_trade_def r_bind_Inl_iff char_at_Inr_iff be_field_Inr_iff
      split: option.splits)

lemma parse_executed_panic_iff:
  "parse_order_executed loc data = Inl p \<longleftrightarrow> p = Index_Out_Of_Bounds \<and> length data < 31"
  "parse_order_executed_price loc data = Inl p \<longleftrightarrow> p = Index_Out_Of_Bounds \<and> length data < 36"
  by (auto simp: parse_order_executed_def parse_order_executed_price_def r_bind_Inl_iff
      be_field_Inr_iff)

lemmas parse_panic_iffs = parse_directory_panic_iff parse_add_panic_iff parse_cancel_panic_iff
  parse_trade_panic_iff parse_executed_panic_iff

text \<open>C21: The parser panics exactly when the packet is shorter than its message type needs, and
  always with an out-of-bounds slice; on every longer packet it returns.\<close>

theorem parse_itch_message_panics_iff:
  "parse_itch_message data = Inl p \<longleftrightarrow> p = Index_Out_Of_Bounds \<and> length data < required_len data"
  by (cases "length data < 3")
    (auto simp: parse_itch_message_def required_len_def parse_panic_iffs r_bind_Inl_iff Let_def
      code_of_values char_at_Inr_iff be_field_Inr_iff)

text \<open>The price a message carries, if any.\<close>

fun message_price :: "itch_message \<Rightarrow> u64 option" where
  "message_price (AddOrder _ _ _ _ p) = Some p"
| "message_price (Trade _ p _ _ _) = Some p"
| "message_price (OrderExecutedWithPrice _ _ _ p _) = Some p"
| "message_price _ = None"

lemma unat_ucast_u32_u64: "unat (ucast (w :: u32) :: u64) = unat w"
  using unat_u32_bound [of w] by (simp add: unsigned_ucast_eq take_bit_nat_eq_self_iff)

text \<open>Prices of parsed messages fit in 32 bits, although the book stores them in 64: sums of
  two of them cannot overflow a \<open>u64\<close>, and the later casts back to \<open>u32\<close> lose nothing.\<close>

lemma parsed_price_bound:
  assumes "parse_itch_message data = Inr (Some m)" and "message_price m = Some p"
  shows "unat p < 2 ^ 32"
  using assms unat_u32_bound
  by (auto simp: parse_itch_message_def parse_defs unat_ucast_u32_u64
      split: if_splits option.splits)

definition sample_add :: "byte list" where
  "sample_add =
     [65, 0, 7, 0, 0, 0, 0, 0, 0, 1, 0, 0, 0, 0, 0, 0, 0, 0, 1, 66, 0, 0, 0, 90,
      0, 0, 0, 0, 0, 0, 0, 0, 0, 0, 0, 100]"

lemma parse_sample_add: "parse_itch_message sample_add = Inr (Some (AddOrder 7 1 Buy 90 100))"
  by (simp add: sample_add_def parse_itch_message_def parse_add_order_def char_at_def code_of_values
      be_field_def sub_slice_def from_be_bytes_def side_of_char_def)

end
