(* ===== verification/Btree_Map.thy ===== *)
theory Btree_Map
  imports Prelude
begin

text \<open>
  \<open>std::collections::BTreeMap\<close> as the order book uses it: a map kept in key order. The interface
  is the locale \<open>ordered_map\<close>, whose laws are the documented behaviour of the container (lookup
  after insertion and removal, the least and the greatest entry of the iteration order); the model
  is a list of entries in strictly increasing key order, which interprets it.
\<close>

section \<open>The interface\<close>

locale ordered_map =
  fixes empty :: "'m"
    and get :: "'m \<Rightarrow> 'k::linorder \<Rightarrow> 'v option"
    and insert :: "'k \<Rightarrow> 'v \<Rightarrow> 'm \<Rightarrow> 'm"
    and remove :: "'k \<Rightarrow> 'm \<Rightarrow> 'm"
    and first :: "'m \<Rightarrow> ('k \<times> 'v) option"
    and last :: "'m \<Rightarrow> ('k \<times> 'v) option"
    and invar :: "'m \<Rightarrow> bool"
  assumes get_empty: "get empty k = None"
    and get_insert: "invar m \<Longrightarrow> get (insert k v m) = (get m)(k \<mapsto> v)"
    and get_remove: "invar m \<Longrightarrow> get (remove k m) = (get m)(k := None)"
    and invar_empty: "invar empty"
    and invar_insert: "invar m \<Longrightarrow> invar (insert k v m)"
    and invar_remove: "invar m \<Longrightarrow> invar (remove k m)"
    and first_None: "invar m \<Longrightarrow> first m = None \<longleftrightarrow> (\<forall>k. get m k = None)"
    and last_None: "invar m \<Longrightarrow> last m = None \<longleftrightarrow> (\<forall>k. get m k = None)"
    and first_Some: "invar m \<Longrightarrow> first m = Some (k, v) \<Longrightarrow>
      get m k = Some v \<and> (\<forall>k'. get m k' \<noteq> None \<longrightarrow> k \<le> k')"
    and last_Some: "invar m \<Longrightarrow> last m = Some (k, v) \<Longrightarrow>
      get m k = Some v \<and> (\<forall>k'. get m k' \<noteq> None \<longrightarrow> k' \<le> k)"
begin

lemmas map_laws = get_empty get_insert get_remove invar_empty invar_insert invar_remove

lemma first_eq_iff:
  assumes "invar m"
  shows "first m = Some (k, v) \<longleftrightarrow> get m k = Some v \<and> (\<forall>k'. get m k' \<noteq> None \<longrightarrow> k \<le> k')"
proof (intro iffI)
  assume R: "get m k = Some v \<and> (\<forall>k'. get m k' \<noteq> None \<longrightarrow> k \<le> k')"
  then obtain k1 v1 where f: "first m = Some (k1, v1)"
    using first_None [OF assms] by (metis option.distinct(1) option.exhaust surj_pair)
  with first_Some [OF assms f] R have "k1 = k" by (metis antisym option.distinct(1))
  with f first_Some [OF assms f] R show "first m = Some (k, v)" by simp
qed (rule first_Some [OF assms])

lemma last_eq_iff:
  assumes "invar m"
  shows "last m = Some (k, v) \<longleftrightarrow> get m k = Some v \<and> (\<forall>k'. get m k' \<noteq> None \<longrightarrow> k' \<le> k)"
proof (intro iffI)
  assume R: "get m k = Some v \<and> (\<forall>k'. get m k' \<noteq> None \<longrightarrow> k' \<le> k)"
  then obtain k1 v1 where f: "last m = Some (k1, v1)"
    using last_None [OF assms] by (metis option.distinct(1) option.exhaust surj_pair)
  with last_Some [OF assms f] R have "k1 = k" by (metis antisym option.distinct(1))
  with f last_Some [OF assms f] R show "last m = Some (k, v)" by simp
qed (rule last_Some [OF assms])

lemma first_le_last:
  "invar m \<Longrightarrow> first m = Some (k, v) \<Longrightarrow> last m = Some (k', v') \<Longrightarrow> k \<le> k'"
  using first_Some last_Some by (metis option.distinct(1))

text \<open>A new entry below every key becomes the first one, above every key the last one.\<close>

lemma first_insert_lower:
  assumes "invar m" "\<forall>k'. get m k' \<noteq> None \<longrightarrow> k \<le> k'"
  shows "first (insert k v m) = Some (k, v)"
  using assms by (simp add: first_eq_iff map_laws)

lemma last_insert_upper:
  assumes "invar m" "\<forall>k'. get m k' \<noteq> None \<longrightarrow> k' \<le> k"
  shows "last (insert k v m) = Some (k, v)"
  using assms by (simp add: last_eq_iff map_laws)

lemma remove_absent:
  "invar m \<Longrightarrow> get m k = None \<Longrightarrow> get (remove k m) = get m"
  by (simp add: map_laws fun_upd_idem)

end

section \<open>The model: entries in key order\<close>

type_synonym ('k, 'v) btree = "('k \<times> 'v) list"

fun bt_get :: "('k::linorder, 'v) btree \<Rightarrow> 'k \<Rightarrow> 'v option" where
  "bt_get [] k = None"
| "bt_get ((k', v) # m) k = (if k = k' then Some v else bt_get m k)"

fun bt_insert :: "'k::linorder \<Rightarrow> 'v \<Rightarrow> ('k, 'v) btree \<Rightarrow> ('k, 'v) btree" where
  "bt_insert k v [] = [(k, v)]"
| "bt_insert k v ((k', v') # m) =
     (if k < k' then (k, v) # (k', v') # m
      else if k = k' then (k, v) # m
      else (k', v') # bt_insert k v m)"

fun bt_remove :: "'k::linorder \<Rightarrow> ('k, 'v) btree \<Rightarrow> ('k, 'v) btree" where
  "bt_remove k [] = []"
| "bt_remove k ((k', v') # m) = (if k = k' then m else (k', v') # bt_remove k m)"

text \<open>\<open>iter().next()\<close> and \<open>iter().next_back()\<close>\<close>

fun bt_first :: "('k, 'v) btree \<Rightarrow> ('k \<times> 'v) option" where
  "bt_first [] = None"
| "bt_first (e # m) = Some e"

fun bt_last :: "('k, 'v) btree \<Rightarrow> ('k \<times> 'v) option" where
  "bt_last [] = None"
| "bt_last (e # m) = (case bt_last m of None \<Rightarrow> Some e | Some e' \<Rightarrow> Some e')"

definition bt_sorted :: "('k::linorder, 'v) btree \<Rightarrow> bool" where
  "bt_sorted m \<longleftrightarrow> sorted_wrt (<) (map fst m)"

lemma bt_sorted_Nil [simp]: "bt_sorted []"
  and bt_sorted_Cons: "bt_sorted ((k, v) # m) \<longleftrightarrow> (\<forall>k' \<in> fst ` set m. k < k') \<and> bt_sorted m"
  by (auto simp: bt_sorted_def)

lemma bt_get_None: "bt_get m k = None \<longleftrightarrow> k \<notin> fst ` set m"
  by (induction m k rule: bt_get.induct) auto

lemma keys_bt_insert: "fst ` set (bt_insert k v m) = Set.insert k (fst ` set m)"
  by (induction k v m rule: bt_insert.induct) auto

lemma set_bt_remove: "set (bt_remove k m) \<subseteq> set m"
  by (induction k m rule: bt_remove.induct) auto

lemma bt_sorted_insert: "bt_sorted m \<Longrightarrow> bt_sorted (bt_insert k v m)"
proof (induction k v m rule: bt_insert.induct)
  case (2 k v k' v' m)
  then show ?case
    using keys_bt_insert [of k v m] by (auto simp: bt_sorted_Cons dest: less_trans)
qed (simp add: bt_sorted_Cons)

lemma bt_sorted_remove: "bt_sorted m \<Longrightarrow> bt_sorted (bt_remove k m)"
proof (induction k m rule: bt_remove.induct)
  case (2 k k' v' m)
  then show ?case using set_bt_remove [of k m] by (auto simp: bt_sorted_Cons)
qed simp

lemma bt_get_insert: "bt_get (bt_insert k v m) j = (if j = k then Some v else bt_get m j)"
  by (induction k v m rule: bt_insert.induct) auto

lemma bt_get_remove:
  "bt_sorted m \<Longrightarrow> bt_get (bt_remove k m) j = (if j = k then None else bt_get m j)"
proof (induction k m rule: bt_remove.induct)
  case (2 k k' v' m)
  then have "bt_get m k' = None" by (auto simp: bt_sorted_Cons bt_get_None)
  with 2 show ?case by (auto simp: bt_sorted_Cons)
qed simp

lemma bt_first_Some:
  "bt_sorted m \<Longrightarrow> bt_first m = Some (k, v) \<Longrightarrow>
   bt_get m k = Some v \<and> (\<forall>k' \<in> fst ` set m. k \<le> k')"
  by (cases m) (auto simp: bt_sorted_Cons less_imp_le)

lemma bt_last_Some:
  "bt_sorted m \<Longrightarrow> bt_last m = Some (k, v) \<Longrightarrow>
   bt_get m k = Some v \<and> (\<forall>k' \<in> fst ` set m. k' \<le> k)"
proof (induction m)
  case (Cons e m)
  obtain k0 v0 where e: "e = (k0, v0)" by force
  show ?case
  proof (cases "bt_last m")
    case None
    then have "m = []" by (cases m) (auto split: option.splits)
    then show ?thesis using Cons.prems e by auto
  next
    case (Some e')
    then have l: "bt_last m = Some (k, v)" using Cons.prems(2) by simp
    have s: "bt_sorted m" "\<forall>k' \<in> fst ` set m. k0 < k'"
      using Cons.prems(1) e by (auto simp: bt_sorted_Cons)
    from Cons.IH [OF s(1) l] have g: "bt_get m k = Some v" "\<forall>k' \<in> fst ` set m. k' \<le> k"
      by auto
    then have "k \<in> fst ` set m" using bt_get_None [of m k] by simp
    with s(2) have "k0 < k" by blast
    then show ?thesis using g e by auto
  qed
qed simp

interpretation bt: ordered_map "[]" bt_get bt_insert bt_remove bt_first bt_last bt_sorted
proof unfold_locales
  fix m :: "('a::linorder, 'b) btree" and k k' :: 'a and v :: 'b
  show "bt_get [] k = None" by simp
  show "bt_sorted []" by simp
  show "bt_get (bt_insert k v m) = (bt_get m)(k \<mapsto> v)"
    by (auto simp: bt_get_insert fun_eq_iff)
  assume m: "bt_sorted m"
  show "bt_get (bt_remove k m) = (bt_get m)(k := None)"
    using m by (auto simp: bt_get_remove fun_eq_iff)
  show "bt_sorted (bt_insert k v m)" using m by (rule bt_sorted_insert)
  show "bt_sorted (bt_remove k m)" using m by (rule bt_sorted_remove)
  show "(bt_first m = None) = (\<forall>k. bt_get m k = None)" by (cases m) (auto split: if_splits)
  show "(bt_last m = None) = (\<forall>k. bt_get m k = None)" by (cases m) (auto split: option.splits)
  show "bt_first m = Some (k, v) \<Longrightarrow>
    bt_get m k = Some v \<and> (\<forall>k'. bt_get m k' \<noteq> None \<longrightarrow> k \<le> k')"
    using bt_first_Some [OF m] by (auto simp: bt_get_None)
  show "bt_last m = Some (k, v) \<Longrightarrow>
    bt_get m k = Some v \<and> (\<forall>k'. bt_get m k' \<noteq> None \<longrightarrow> k' \<le> k)"
    using bt_last_Some [OF m] by (auto simp: bt_get_None)
qed

text \<open>Two maps in key order with the same lookups are the same list of entries.\<close>

lemma bt_sorted_ext:
  "bt_sorted m \<Longrightarrow> bt_sorted m' \<Longrightarrow> bt_get m = bt_get m' \<Longrightarrow> m = m'"
proof (induction m arbitrary: m')
  case Nil
  then have "bt_first m' = None" using bt.first_None [of m'] by (metis bt_get.simps(1))
  then show ?case by (cases m') auto
next
  case (Cons e m)
  obtain k v where e: "e = (k, v)" by force
  then have "bt_first m' = Some (k, v)"
    using Cons.prems bt.first_eq_iff [of "e # m" k v] bt.first_eq_iff [of m' k v]
    by (metis bt_first.simps(2))
  then obtain n where m': "m' = (k, v) # n" by (cases m') auto
  have "bt_get m = bt_get n"
  proof
    fix j
    have "bt_get m k = None" "bt_get n k = None"
      using Cons.prems(1,2) e m' by (auto simp: bt_sorted_Cons bt_get_None)
    then show "bt_get m j = bt_get n j"
      using Cons.prems(3) e m' by (cases "j = k") (auto simp: fun_eq_iff split: if_splits)
  qed
  then show ?case using Cons e m' by (auto simp: bt_sorted_Cons)
qed

end
