(* ===== verification/Orderbook.thy ===== *)
theory Orderbook
  imports Common Btree_Map
begin

text \<open>
  \<open>crates/orderbook/src/lib.rs\<close>: the L3 book (a hash map from order ids to orders) together with
  its L2 view (per side, a map from prices to the total quantity at that price).

  The first part translates the operations. The second part relates the two views: the total kept
  at each price level is the sum of the quantities of the orders resting there.
\<close>

section \<open>State and operations\<close>

record order =
  or_price :: u64
  or_quantity :: u32
  or_side :: side

record l3_order_book =
  ob_orders :: "u64 \<rightharpoonup> order"
  ob_bids :: "(u64, u32) btree"
  ob_asks :: "(u64, u32) btree"

definition new_book :: l3_order_book where
  "new_book = \<lparr>ob_orders = Map.empty, ob_bids = [], ob_asks = []\<rparr>"

text \<open>The match on the side that selects \<open>self.bids\<close> or \<open>self.asks\<close>, for reading and writing.\<close>

fun book_side :: "side \<Rightarrow> l3_order_book \<Rightarrow> (u64, u32) btree" where
  "book_side Buy bk = ob_bids bk"
| "book_side Sell bk = ob_asks bk"

fun set_book_side :: "side \<Rightarrow> (u64, u32) btree \<Rightarrow> l3_order_book \<Rightarrow> l3_order_book" where
  "set_book_side Buy m bk = bk\<lparr>ob_bids := m\<rparr>"
| "set_book_side Sell m bk = bk\<lparr>ob_asks := m\<rparr>"

definition add_order ::
    "build \<Rightarrow> l3_order_book \<Rightarrow> u64 \<Rightarrow> side \<Rightarrow> u64 \<Rightarrow> u32 \<Rightarrow> l3_order_book res" where
  "add_order b bk oid s price quantity =
     (let new_order = \<lparr>or_price = price, or_quantity = quantity, or_side = s\<rparr>;
          bk1 = bk\<lparr>ob_orders := (ob_orders bk)(oid \<mapsto> new_order)\<rparr>;
          entry = (case bt_get (book_side s bk1) price of None \<Rightarrow> 0 | Some t \<Rightarrow> t)
      in r_bind (add_u b entry quantity) (\<lambda>total.
         Inr (set_book_side s (bt_insert price total (book_side s bk1)) bk1)))"

text \<open>The update of the price level in \<open>cancel_order\<close>; a missing level is left alone.\<close>

definition cancel_level :: "build \<Rightarrow> (u64, u32) btree \<Rightarrow> u64 \<Rightarrow> u32 \<Rightarrow> (u64, u32) btree res" where
  "cancel_level b m price quantity_to_cancel =
     (case bt_get m price of
        None \<Rightarrow> Inr m
      | Some total_quantity \<Rightarrow>
          r_bind (sub_u b total_quantity quantity_to_cancel) (\<lambda>t.
          Inr (if t = 0 then bt_remove price m else bt_insert price t m)))"

definition cancel_order :: "build \<Rightarrow> l3_order_book \<Rightarrow> u64 \<Rightarrow> u32 \<Rightarrow> l3_order_book res" where
  "cancel_order b bk oid quantity_to_cancel =
     (case ob_orders bk oid of
        None \<Rightarrow> Inr bk
      | Some ord \<Rightarrow>
          r_bind (sub_u b (or_quantity ord) quantity_to_cancel) (\<lambda>new_order_quantity.
          r_bind (cancel_level b (book_side (or_side ord) bk) (or_price ord) quantity_to_cancel) (\<lambda>m.
          Inr (set_book_side (or_side ord) m
            (bk\<lparr>ob_orders :=
               (if new_order_quantity = 0 then (ob_orders bk)(oid := None)
                else (ob_orders bk)(oid \<mapsto> ord\<lparr>or_quantity := new_order_quantity\<rparr>))\<rparr>)))))"

definition get_best_bid :: "l3_order_book \<Rightarrow> (u64 \<times> u32) option" where
  "get_best_bid bk = bt_last (ob_bids bk)"

definition get_best_ask :: "l3_order_book \<Rightarrow> (u64 \<times> u32) option" where
  "get_best_ask bk = bt_first (ob_asks bk)"

definition spread :: "l3_order_book \<Rightarrow> u64 option" where
  "spread bk =
     (case (get_best_bid bk, get_best_ask bk) of
        (Some (bid, _), Some (ask, _)) \<Rightarrow> Some (saturating_sub ask bid)
      | _ \<Rightarrow> None)"

lemma book_side_set [simp]:
  "book_side s (set_book_side s' m bk) = (if s = s' then m else book_side s bk)"
  by (cases s; cases s') auto

lemma book_side_orders [simp]: "book_side s (bk\<lparr>ob_orders := m\<rparr>) = book_side s bk"
  by (cases s) auto

lemma ob_orders_set [simp]: "ob_orders (set_book_side s m bk) = ob_orders bk"
  by (cases s) auto

lemma set_book_side_same: "m = book_side s bk \<Longrightarrow> set_book_side s m bk = bk"
  by (cases s) auto

lemma set_set_book_side [simp]: "set_book_side s m (set_book_side s m' bk) = set_book_side s m bk"
  by (cases s) auto

lemma set_side_orders:
  "(set_book_side s m bk)\<lparr>ob_orders := f\<rparr> = set_book_side s m (bk\<lparr>ob_orders := f\<rparr>)"
  by (cases s) auto

section \<open>The two views\<close>

text \<open>\<open>level\<close> is the total the L2 view shows at a price (an absent level shows 0);
  \<open>resting_qty\<close> is what one order contributes to a level.\<close>

definition level :: "l3_order_book \<Rightarrow> side \<Rightarrow> u64 \<Rightarrow> u32" where
  "level bk s p = (case bt_get (book_side s bk) p of None \<Rightarrow> 0 | Some t \<Rightarrow> t)"

definition resting_qty :: "l3_order_book \<Rightarrow> side \<Rightarrow> u64 \<Rightarrow> u64 \<Rightarrow> u32" where
  "resting_qty bk s p oid =
     (case ob_orders bk oid of
        None \<Rightarrow> 0
      | Some ord \<Rightarrow> if or_side ord = s \<and> or_price ord = p then or_quantity ord else 0)"

definition resting_total :: "l3_order_book \<Rightarrow> side \<Rightarrow> u64 \<Rightarrow> nat" where
  "resting_total bk s p = (\<Sum>oid\<in>UNIV. unat (resting_qty bk s p oid))"

definition levels_sorted :: "l3_order_book \<Rightarrow> bool" where
  "levels_sorted bk \<longleftrightarrow> (\<forall>s. bt_sorted (book_side s bk))"

text \<open>The invariant: the levels are in price order, every total is the true sum of the quantities
  resting at its price, and there is no empty order and no empty level.\<close>

definition book_exact :: "l3_order_book \<Rightarrow> bool" where
  "book_exact bk \<longleftrightarrow>
     levels_sorted bk \<and>
     (\<forall>s p. unat (level bk s p) = resting_total bk s p) \<and>
     (\<forall>oid ord. ob_orders bk oid = Some ord \<longrightarrow> or_quantity ord \<noteq> 0) \<and>
     (\<forall>s p. bt_get (book_side s bk) p \<noteq> Some 0)"

lemma resting_total_update:
  assumes "\<And>j. j \<noteq> oid \<Longrightarrow> resting_qty bk' s p j = resting_qty bk s p j"
  shows "resting_total bk' s p + unat (resting_qty bk s p oid) =
         resting_total bk s p + unat (resting_qty bk' s p oid)"
proof -
  have split: "resting_total k s p =
      unat (resting_qty k s p oid) + (\<Sum>j\<in>UNIV - {oid}. unat (resting_qty k s p j))" for k
    unfolding resting_total_def by (rule sum.remove) auto
  have "(\<Sum>j\<in>UNIV - {oid}. unat (resting_qty bk' s p j)) =
        (\<Sum>j\<in>UNIV - {oid}. unat (resting_qty bk s p j))"
    using assms by (intro sum.cong) auto
  then show ?thesis by (simp add: split)
qed

lemma resting_qty_le_total: "unat (resting_qty bk s p oid) \<le> resting_total bk s p"
  unfolding resting_total_def by (rule member_le_sum) auto

lemma resting_total_0_iff: "resting_total bk s p = 0 \<longleftrightarrow> (\<forall>oid. resting_qty bk s p oid = 0)"
  by (simp add: resting_total_def unat_eq_zero)

text \<open>What the operations do to the levels and to the contributions, on every branch.\<close>

lemma add_order_effect:
  assumes "add_order b bk oid s p q = Inr bk'" "levels_sorted bk"
  shows "levels_sorted bk'"
    and "level bk' s' p' = (if s' = s \<and> p' = p then level bk s p + q else level bk s' p')"
    and "resting_qty bk' s' p' = (resting_qty bk s' p')(oid := (if s = s' \<and> p = p' then q else 0))"
    and "bt_get (book_side s' bk') p' =
           (if s' = s \<and> p' = p then Some (level bk s p + q) else bt_get (book_side s' bk) p')"
    and "ob_orders bk' = (ob_orders bk)(oid \<mapsto> \<lparr>or_price = p, or_quantity = q, or_side = s\<rparr>)"
  using assms
  by (auto simp: add_order_def Let_def levels_sorted_def level_def resting_qty_def bt.map_laws
      fun_eq_iff dest!: add_u_InrD split: if_splits)

lemma add_order_total:
  assumes "add_order Debug bk oid s p q = Inr bk'"
  shows "unat (level bk s p + q) = unat (level bk s p) + unat q"
  using assms by (auto simp: add_order_def Let_def level_def dest!: add_u_Debug)

lemma cancel_level_effect:
  assumes "cancel_level b m p q = Inr m'" "bt_sorted m"
  shows "bt_sorted m'"
    and "bt_get m' p' =
      (if p' = p then
         (case bt_get m p of None \<Rightarrow> None | Some t \<Rightarrow> if t = q then None else Some (t - q))
       else bt_get m p')"
  using assms
  by (auto simp: cancel_level_def bt.map_laws sub_u_Inr_iff split: option.splits)

lemma cancel_order_Some:
  assumes "cancel_order b bk oid q = Inr bk'" "ob_orders bk oid = Some ord"
  obtains m where
    "cancel_level b (book_side (or_side ord) bk) (or_price ord) q = Inr m"
    "sub_u b (or_quantity ord) q = Inr (or_quantity ord - q)"
    "bk' = set_book_side (or_side ord) m (bk\<lparr>ob_orders :=
       (if or_quantity ord = q then (ob_orders bk)(oid := None)
        else (ob_orders bk)(oid \<mapsto> ord\<lparr>or_quantity := or_quantity ord - q\<rparr>))\<rparr>)"
  using assms by (auto simp: cancel_order_def sub_u_Inr_iff)

lemma cancel_order_None [simp]: "ob_orders bk oid = None \<Longrightarrow> cancel_order b bk oid q = Inr bk"
  by (simp add: cancel_order_def)

lemma cancel_order_effect:
  assumes "cancel_order b bk oid q = Inr bk'" "levels_sorted bk" "ob_orders bk oid = Some ord"
  shows "levels_sorted bk'"
    and "bt_get (book_side s' bk') p' =
      (if s' = or_side ord \<and> p' = or_price ord then
         (case bt_get (book_side s' bk) p' of
            None \<Rightarrow> None | Some t \<Rightarrow> if t = q then None else Some (t - q))
       else bt_get (book_side s' bk) p')"
    and "resting_qty bk' s' p' = (resting_qty bk s' p')
      (oid := (if or_side ord = s' \<and> or_price ord = p' then or_quantity ord - q else 0))"
    and "ob_orders bk' =
      (if or_quantity ord = q then (ob_orders bk)(oid := None)
       else (ob_orders bk)(oid \<mapsto> ord\<lparr>or_quantity := or_quantity ord - q\<rparr>))"
proof -
  obtain m where m: "cancel_level b (book_side (or_side ord) bk) (or_price ord) q = Inr m"
    "bk' = set_book_side (or_side ord) m (bk\<lparr>ob_orders :=
       (if or_quantity ord = q then (ob_orders bk)(oid := None)
        else (ob_orders bk)(oid \<mapsto> ord\<lparr>or_quantity := or_quantity ord - q\<rparr>))\<rparr>)"
    using cancel_order_Some [OF assms(1,3)] by blast
  have srt: "bt_sorted (book_side (or_side ord) bk)"
    using assms(2) by (simp add: levels_sorted_def)
  note eff = cancel_level_effect [OF m(1) srt]
  show "levels_sorted bk'"
    using m(2) eff(1) assms(2) by (auto simp: levels_sorted_def)
  show "bt_get (book_side s' bk') p' =
      (if s' = or_side ord \<and> p' = or_price ord then
         (case bt_get (book_side s' bk) p' of
            None \<Rightarrow> None | Some t \<Rightarrow> if t = q then None else Some (t - q))
       else bt_get (book_side s' bk) p')"
    using m(2) eff(2) by auto
  show "resting_qty bk' s' p' = (resting_qty bk s' p')
      (oid := (if or_side ord = s' \<and> or_price ord = p' then or_quantity ord - q else 0))"
    using m(2) by (auto simp: resting_qty_def fun_eq_iff)
  show "ob_orders bk' =
      (if or_quantity ord = q then (ob_orders bk)(oid := None)
       else (ob_orders bk)(oid \<mapsto> ord\<lparr>or_quantity := or_quantity ord - q\<rparr>))"
    using m(2) by simp
qed

section \<open>The invariant\<close>

text \<open>What the feed promises of an operation: new order ids are fresh and not empty, a level does
  not overflow, and no more shares are cancelled than the order has left.\<close>

definition add_ok :: "l3_order_book \<Rightarrow> u64 \<Rightarrow> side \<Rightarrow> u64 \<Rightarrow> u32 \<Rightarrow> bool" where
  "add_ok bk oid s p q \<longleftrightarrow>
     ob_orders bk oid = None \<and> q \<noteq> 0 \<and> unat (level bk s p) + unat q < 2 ^ 32"

definition cancel_ok :: "l3_order_book \<Rightarrow> u64 \<Rightarrow> u32 \<Rightarrow> bool" where
  "cancel_ok bk oid q \<longleftrightarrow>
     (case ob_orders bk oid of None \<Rightarrow> True | Some ord \<Rightarrow> unat q \<le> unat (or_quantity ord))"

lemma book_exact_new: "book_exact new_book"
  unfolding book_exact_def levels_sorted_def
proof (intro conjI allI impI)
  fix s p
  show "bt_sorted (book_side s new_book)" by (cases s) (simp_all add: new_book_def)
  show "bt_get (book_side s new_book) p \<noteq> Some 0" by (cases s) (simp_all add: new_book_def)
  have "level new_book s p = 0" by (cases s) (simp_all add: level_def new_book_def)
  then show "unat (level new_book s p) = resting_total new_book s p"
    by (simp add: resting_total_def resting_qty_def new_book_def)
qed (simp add: new_book_def)

lemma level_Some: "bt_get (book_side s bk) p = Some t \<Longrightarrow> level bk s p = t"
  by (simp add: level_def)

lemma order_has_level:
  assumes "book_exact bk" "ob_orders bk oid = Some ord"
  obtains t where "bt_get (book_side (or_side ord) bk) (or_price ord) = Some t"
    and "unat (or_quantity ord) \<le> unat t"
proof -
  have le: "unat (or_quantity ord) \<le> unat (level bk (or_side ord) (or_price ord))"
    using resting_qty_le_total [of bk "or_side ord" "or_price ord" oid] assms
    by (simp add: resting_qty_def book_exact_def)
  have "or_quantity ord \<noteq> 0" using assms by (simp add: book_exact_def)
  then have "unat (or_quantity ord) \<noteq> 0" by (simp add: unat_eq_zero)
  with le have "level bk (or_side ord) (or_price ord) \<noteq> 0" by auto
  then obtain t where "bt_get (book_side (or_side ord) bk) (or_price ord) = Some t"
    by (auto simp: level_def split: option.splits)
  with le show ?thesis using that by (simp add: level_Some)
qed

lemma add_order_returns:
  assumes "unat (level bk s p) + unat q < 2 ^ 32"
  shows "\<exists>bk'. add_order b bk oid s p q = Inr bk'"
  using add_u_exact(1) [of "level bk s p" q b] assms
  by (auto simp: add_order_def Let_def level_def)

lemma add_order_keeps:
  assumes "book_exact bk" "add_ok bk oid s p q"
  shows "\<exists>bk'. add_order b bk oid s p q = Inr bk' \<and> book_exact bk'"
proof -
  from assms(2) have fresh: "ob_orders bk oid = None" "q \<noteq> 0"
    and sum: "unat (level bk s p) + unat q < 2 ^ 32" by (auto simp: add_ok_def)
  obtain bk' where bk': "add_order b bk oid s p q = Inr bk'"
    using add_order_returns [OF sum] by blast
  have srt: "levels_sorted bk" using assms(1) by (simp add: book_exact_def)
  note eff = add_order_effect [OF bk' srt]
  have tot: "unat (level bk s p + q) = unat (level bk s p) + unat q"
    using add_u_exact(2) [of "level bk s p" q] sum by simp
  have "unat (level bk' s' p') = resting_total bk' s' p'" for s' p'
    using resting_total_update [of oid bk' s' p' bk] eff(2,3) [of s' p'] fresh tot assms(1)
    by (auto simp: book_exact_def resting_qty_def [of bk s' p' oid])
  moreover have "bt_get (book_side s' bk') p' \<noteq> Some 0" for s' p'
  proof -
    have "level bk s p + q \<noteq> 0"
      using tot fresh(2) by (metis add_is_0 unat_0 unat_eq_zero)
    then show ?thesis using eff(4) [of s' p'] assms(1) by (auto simp: book_exact_def)
  qed
  ultimately have "book_exact bk'"
    using assms(1) fresh(2) eff(1,5) by (auto simp: book_exact_def)
  with bk' show ?thesis by blast
qed

text \<open>C18: Adding a fresh order to a consistent book succeeds in both builds and leaves the book
  consistent: the total shown at each price still equals the sum of the orders resting there.\<close>

theorem add_order_exact:
  assumes "book_exact bk" "add_ok bk oid s p q"
  shows "\<exists>bk'. add_order b bk oid s p q = Inr bk' \<and> book_exact bk'"
  using assms by (rule add_order_keeps)

lemma add_ok_new: "q \<noteq> 0 \<Longrightarrow> add_ok new_book oid s p q"
  using unsigned_less [of q] by (cases s) (simp_all add: add_ok_def new_book_def level_def)

theorem add_order_exact_witness:
  "\<exists>bk'. add_order Debug new_book 1 Buy 100 10 = Inr bk' \<and> book_exact bk'"
  using add_order_exact [OF book_exact_new add_ok_new [of 10 1 Buy 100], of Debug] by simp

text \<open>A book with one resting order, for the instances below.\<close>

definition sample_book :: l3_order_book where
  "sample_book =
     \<lparr>ob_orders = [1 \<mapsto> \<lparr>or_price = 100, or_quantity = 10, or_side = Buy\<rparr>],
      ob_bids = [(100, 10)], ob_asks = []\<rparr>"

lemma sample_book_added: "add_order b new_book 1 Buy 100 10 = Inr sample_book"
  by (simp add: add_order_def new_book_def sample_book_def add_u_def Let_def)

lemma sample_book_exact: "book_exact sample_book"
  using add_order_keeps [OF book_exact_new add_ok_new [of 10 1 Buy 100], of Debug]
  by (simp add: sample_book_added)

lemma cancel_order_returns:
  assumes "book_exact bk" "cancel_ok bk oid q"
  shows "\<exists>bk'. cancel_order b bk oid q = Inr bk'"
proof (cases "ob_orders bk oid")
  case (Some ord)
  then have q: "unat q \<le> unat (or_quantity ord)" using assms(2) by (simp add: cancel_ok_def)
  obtain t where t: "bt_get (book_side (or_side ord) bk) (or_price ord) = Some t"
    "unat (or_quantity ord) \<le> unat t"
    using order_has_level [OF assms(1) Some] by blast
  show ?thesis
    using Some q t sub_u_exact(1) [of q "or_quantity ord" b] sub_u_exact(1) [of q t b]
    by (simp add: cancel_order_def cancel_level_def)
qed simp

lemma cancel_order_keeps:
  assumes "book_exact bk" "cancel_ok bk oid q"
  shows "\<exists>bk'. cancel_order b bk oid q = Inr bk' \<and> book_exact bk'"
proof (cases "ob_orders bk oid")
  case None
  then show ?thesis using assms(1) by simp
next
  case (Some ord)
  then have q: "unat q \<le> unat (or_quantity ord)" using assms(2) by (simp add: cancel_ok_def)
  obtain bk' where bk': "cancel_order b bk oid q = Inr bk'"
    using cancel_order_returns [OF assms] by blast
  have srt: "levels_sorted bk" using assms(1) by (simp add: book_exact_def)
  note eff = cancel_order_effect [OF bk' srt Some]
  obtain t where t: "bt_get (book_side (or_side ord) bk) (or_price ord) = Some t"
    "unat (or_quantity ord) \<le> unat t"
    using order_has_level [OF assms(1) Some] by blast
  have left: "unat (or_quantity ord - q) + unat q = unat (or_quantity ord)"
    "unat (t - q) + unat q = unat t"
    using q t(2) sub_u_exact(2) [of q "or_quantity ord"] sub_u_exact(2) [of q t] by auto
  have "unat (level bk' s p) = resting_total bk' s p" for s p
  proof -
    have "resting_qty bk s p oid = (if or_side ord = s \<and> or_price ord = p then or_quantity ord else 0)"
      using Some by (simp add: resting_qty_def)
    moreover have "unat (level bk' s p) = (if or_side ord = s \<and> or_price ord = p then unat (t - q)
        else unat (level bk s p))"
      using t eff(2) [of s p] by (auto simp: level_def)
    moreover have "unat (level bk s p) = resting_total bk s p"
      using assms(1) by (simp add: book_exact_def)
    moreover have "level bk s p = t" if "or_side ord = s \<and> or_price ord = p"
      using that t level_Some by blast
    ultimately show ?thesis
      using resting_total_update [of oid bk' s p bk] eff(3) [of s p] left
      by (auto split: if_splits)
  qed
  moreover have "bt_get (book_side s bk') p \<noteq> Some 0" for s p
    using eff(2) [of s p] assms(1) by (auto simp: book_exact_def split: option.splits)
  moreover have "or_quantity o' \<noteq> 0" if "ob_orders bk' i = Some o'" for i o'
    using that eff(4) assms(1) by (auto simp: book_exact_def split: if_splits)
  ultimately have "book_exact bk'"
    using eff(1) by (auto simp: book_exact_def)
  with bk' show ?thesis by blast
qed

text \<open>C19: Cancelling shares an order still has succeeds in both builds and leaves the book
  consistent; an emptied order and an emptied level disappear.\<close>

theorem cancel_order_exact:
  assumes "book_exact bk" "cancel_ok bk oid q"
  shows "\<exists>bk'. cancel_order b bk oid q = Inr bk' \<and> book_exact bk'"
  using assms by (rule cancel_order_keeps)

theorem cancel_order_exact_witness:
  "\<exists>bk'. cancel_order Debug sample_book 1 4 = Inr bk' \<and> book_exact bk'"
  by (rule cancel_order_exact [OF sample_book_exact]) (simp add: cancel_ok_def sample_book_def)

text \<open>C35: On a consistent book, in a build with overflow checks, a cancel panics exactly when it
  takes more shares than the order has left (and nothing else makes it panic).\<close>

theorem cancel_order_panics_iff:
  assumes "book_exact bk"
  shows "cancel_order Debug bk oid q = Inl e \<longleftrightarrow>
    e = Arith_Overflow \<and> (\<exists>ord. ob_orders bk oid = Some ord \<and> unat (or_quantity ord) < unat q)"
proof (cases "cancel_ok bk oid q")
  case True
  then show ?thesis
    using cancel_order_returns [OF assms True, of Debug]
    by (auto simp: cancel_ok_def split: option.splits)
next
  case False
  then obtain ord where "ob_orders bk oid = Some ord" "unat (or_quantity ord) < unat q"
    by (auto simp: cancel_ok_def split: option.splits)
  then show ?thesis by (auto simp: cancel_order_def sub_u_def)
qed

theorem cancel_order_panics_iff_witness: "cancel_order Debug sample_book 1 11 = Inl Arith_Overflow"
  using cancel_order_panics_iff [OF sample_book_exact, of 1 11 Arith_Overflow]
  by (simp add: sample_book_def)

section \<open>Reachable books and their quotes\<close>

text \<open>The books a feed that keeps its promises can produce, in either build.\<close>

inductive reachable_book :: "build \<Rightarrow> l3_order_book \<Rightarrow> bool" for b where
  start: "reachable_book b new_book"
| add: "reachable_book b bk \<Longrightarrow> add_ok bk oid s p q \<Longrightarrow>
    add_order b bk oid s p q = Inr bk' \<Longrightarrow> reachable_book b bk'"
| cancel: "reachable_book b bk \<Longrightarrow> cancel_ok bk oid q \<Longrightarrow>
    cancel_order b bk oid q = Inr bk' \<Longrightarrow> reachable_book b bk'"

lemma reachable_book_exact: "reachable_book b bk \<Longrightarrow> book_exact bk"
proof (induction rule: reachable_book.induct)
  case start
  show ?case by (rule book_exact_new)
next
  case (add bk oid s p q bk')
  then show ?case using add_order_keeps [of bk oid s p q b] by auto
next
  case (cancel bk oid q bk')
  then show ?case using cancel_order_keeps [of bk oid q b] by auto
qed

definition rests_at :: "l3_order_book \<Rightarrow> side \<Rightarrow> u64 \<Rightarrow> bool" where
  "rests_at bk s p \<longleftrightarrow> (\<exists>oid ord. ob_orders bk oid = Some ord \<and> or_side ord = s \<and> or_price ord = p)"

lemma level_iff_rests:
  assumes "book_exact bk"
  shows "bt_get (book_side s bk) p \<noteq> None \<longleftrightarrow> rests_at bk s p"
proof
  assume "bt_get (book_side s bk) p \<noteq> None"
  then obtain t where t: "bt_get (book_side s bk) p = Some t" "t \<noteq> 0"
    using assms by (fastforce simp: book_exact_def)
  then have "resting_total bk s p \<noteq> 0"
    using assms by (metis book_exact_def level_Some unat_eq_zero)
  then obtain i where "resting_qty bk s p i \<noteq> 0" by (auto simp: resting_total_0_iff)
  then show "rests_at bk s p"
    by (auto simp: rests_at_def resting_qty_def split: option.splits if_splits)
next
  assume "rests_at bk s p"
  then show "bt_get (book_side s bk) p \<noteq> None"
    using order_has_level [OF assms] unfolding rests_at_def by force
qed

lemma level_eq_total:
  assumes "book_exact bk" "bt_get (book_side s bk) p = Some t"
  shows "unat t = resting_total bk s p"
  using assms level_Some [OF assms(2)] by (auto simp: book_exact_def)

lemma quote_iff:
  assumes "book_exact bk"
  shows "bt_get (book_side s bk) p = Some t \<longleftrightarrow> rests_at bk s p \<and> unat t = resting_total bk s p"
  using level_iff_rests [OF assms] level_eq_total [OF assms] by (metis not_None_eq word_unat_eq_iff)

text \<open>C6: The best bid of a reachable book is the highest price at which a buy order rests, with
  the total quantity of the buy orders resting there; there is none iff no buy order rests.\<close>

theorem best_bid_refines:
  assumes "reachable_book b bk"
  shows "get_best_bid bk = Some (p, t) \<longleftrightarrow>
    rests_at bk Buy p \<and> unat t = resting_total bk Buy p \<and> (\<forall>p'. rests_at bk Buy p' \<longrightarrow> p' \<le> p)"
proof -
  have ex: "book_exact bk" using assms by (rule reachable_book_exact)
  then have "bt_sorted (ob_bids bk)"
    by (metis book_exact_def book_side.simps(1) levels_sorted_def)
  then show ?thesis
    using bt.last_eq_iff [of "ob_bids bk" p t] quote_iff [OF ex, of Buy]
      level_iff_rests [OF ex, of Buy]
    by (auto simp: get_best_bid_def)
qed

lemma sample_book_reachable: "reachable_book b sample_book"
  by (rule reachable_book.add [OF reachable_book.start add_ok_new sample_book_added]) simp

theorem best_bid_refines_witness:
  "rests_at sample_book Buy 100 \<and> resting_total sample_book Buy 100 = 10"
proof -
  have "get_best_bid sample_book = Some (100, 10)" by (simp add: get_best_bid_def sample_book_def)
  then show ?thesis
    using best_bid_refines [OF sample_book_reachable [of Debug], of 100 10] by simp
qed

text \<open>C7: The best ask of a reachable book is the lowest price at which a sell order rests, with
  the total quantity of the sell orders resting there.\<close>

theorem best_ask_refines:
  assumes "reachable_book b bk"
  shows "get_best_ask bk = Some (p, t) \<longleftrightarrow>
    rests_at bk Sell p \<and> unat t = resting_total bk Sell p \<and> (\<forall>p'. rests_at bk Sell p' \<longrightarrow> p \<le> p')"
proof -
  have ex: "book_exact bk" using assms by (rule reachable_book_exact)
  then have "bt_sorted (ob_asks bk)"
    by (metis book_exact_def book_side.simps(2) levels_sorted_def)
  then show ?thesis
    using bt.first_eq_iff [of "ob_asks bk" p t] quote_iff [OF ex, of Sell]
      level_iff_rests [OF ex, of Sell]
    by (auto simp: get_best_ask_def)
qed

lemma sample_ask_added:
  "add_order b new_book 2 Sell 102 5 = Inr
     \<lparr>ob_orders = [2 \<mapsto> \<lparr>or_price = 102, or_quantity = 5, or_side = Sell\<rparr>], ob_bids = [],
      ob_asks = [(102, 5)]\<rparr>"
  by (simp add: add_order_def new_book_def add_u_def Let_def)

theorem best_ask_refines_witness:
  "\<exists>bk. get_best_ask bk = Some (102, 5) \<and> rests_at bk Sell 102 \<and> resting_total bk Sell 102 = 5"
proof -
  let ?bk = "\<lparr>ob_orders = [2 \<mapsto> \<lparr>or_price = 102, or_quantity = 5, or_side = Sell\<rparr>], ob_bids = [],
      ob_asks = [(102, 5)]\<rparr>"
  have "reachable_book Debug ?bk"
    by (rule reachable_book.add [OF reachable_book.start add_ok_new sample_ask_added]) simp
  moreover have "get_best_ask ?bk = Some (102, 5)" by (simp add: get_best_ask_def)
  ultimately show ?thesis using best_ask_refines [of Debug ?bk 102 5] by (intro exI [of _ ?bk]) simp
qed

text \<open>C36: Adding a fresh order and then cancelling all of it gives back the very same book, in
  both builds.\<close>

theorem add_cancel_roundtrip:
  assumes "book_exact bk" "add_ok bk oid s p q"
  shows "r_bind (add_order b bk oid s p q) (\<lambda>bk'. cancel_order b bk' oid q) = Inr bk"
proof -
  obtain bk' where bk': "add_order b bk oid s p q = Inr bk'" and ex': "book_exact bk'"
    using add_order_keeps [OF assms] by blast
  have srt: "levels_sorted bk" using assms(1) by (simp add: book_exact_def)
  note ae = add_order_effect [OF bk' srt]
  have ok: "cancel_ok bk' oid q" by (simp add: cancel_ok_def ae(5))
  obtain bk2 where bk2: "cancel_order b bk' oid q = Inr bk2"
    using cancel_order_returns [OF ex' ok] by blast
  have ord: "ob_orders bk' oid = Some \<lparr>or_price = p, or_quantity = q, or_side = s\<rparr>"
    by (simp add: ae(5))
  note ce = cancel_order_effect [OF bk2 ae(1) ord, simplified]
  have "ob_orders bk2 = ob_orders bk"
    using ce(4) ae(5) assms(2) by (auto simp: add_ok_def fun_upd_idem)
  moreover have "book_side s' bk2 = book_side s' bk" for s'
  proof (rule bt_sorted_ext)
    show "bt_sorted (book_side s' bk2)" "bt_sorted (book_side s' bk)"
      using ce(1) srt by (auto simp: levels_sorted_def)
    show "bt_get (book_side s' bk2) = bt_get (book_side s' bk)"
    proof
      fix p'
      have "bt_get (book_side s bk) p \<noteq> Some 0" using assms(1) by (simp add: book_exact_def)
      then show "bt_get (book_side s' bk2) p' = bt_get (book_side s' bk) p'"
        using ce(2) [of s' p'] ae(4) [of s' p'] by (auto simp: level_def split: option.splits)
    qed
  qed
  from this [of Buy] this [of Sell] have "ob_bids bk2 = ob_bids bk" "ob_asks bk2 = ob_asks bk"
    by simp_all
  ultimately have "bk2 = bk" by simp
  with bk' bk2 show ?thesis by simp
qed

theorem add_cancel_roundtrip_witness:
  "r_bind (add_order Debug sample_book 2 Sell 102 5) (\<lambda>bk'. cancel_order Debug bk' 2 5) = Inr sample_book"
  by (rule add_cancel_roundtrip [OF sample_book_exact])
    (simp add: add_ok_def sample_book_def level_def)

section \<open>A duplicate id\<close>

text \<open>Any later use of the book.\<close>

datatype book_op = Add u64 side u64 u32 | Cancel u64 u32

fun run_book :: "build \<Rightarrow> l3_order_book \<Rightarrow> book_op list \<Rightarrow> l3_order_book res" where
  "run_book b bk [] = Inr bk"
| "run_book b bk (Add oid s p q # ops) = r_bind (add_order b bk oid s p q) (\<lambda>bk'. run_book b bk' ops)"
| "run_book b bk (Cancel oid q # ops) = r_bind (cancel_order b bk oid q) (\<lambda>bk'. run_book b bk' ops)"

text \<open>\<open>excess\<close> shares more are shown at a price than rest there.\<close>

definition phantom :: "side \<Rightarrow> u64 \<Rightarrow> nat \<Rightarrow> l3_order_book \<Rightarrow> bool" where
  "phantom s p excess bk \<longleftrightarrow> levels_sorted bk \<and> resting_total bk s p + excess \<le> unat (level bk s p)"

lemma add_keeps_phantom:
  assumes "add_order Debug bk oid s' p' q = Inr bk'" "phantom s p excess bk"
  shows "phantom s p excess bk'"
proof -
  have srt: "levels_sorted bk" using assms(2) by (simp add: phantom_def)
  note eff = add_order_effect [OF assms(1) srt]
  show ?thesis
    using resting_total_update [of oid bk' s p bk] eff(1) eff(2,3) [of s p] add_order_total [OF assms(1)] assms(2)
    by (auto simp: phantom_def split: if_splits)
qed

lemma cancel_keeps_phantom:
  assumes "cancel_order Debug bk oid q = Inr bk'" "phantom s p excess bk"
  shows "phantom s p excess bk'"
proof (cases "ob_orders bk oid")
  case None
  then show ?thesis using assms by simp
next
  case (Some ord)
  have srt: "levels_sorted bk" using assms(2) by (simp add: phantom_def)
  note eff = cancel_order_effect [OF assms(1) srt Some]
  obtain m where m: "cancel_level Debug (book_side (or_side ord) bk) (or_price ord) q = Inr m"
    "sub_u Debug (or_quantity ord) q = Inr (or_quantity ord - q)"
    using cancel_order_Some [OF assms(1) Some] by blast
  have q: "q \<le> or_quantity ord" using m(2) by (simp add: sub_u_def word_le_nat_alt split: if_splits)
  show ?thesis
  proof (cases "or_side ord = s \<and> or_price ord = p")
    case False
    then have "level bk' s p = level bk s p" "resting_qty bk' s p oid = resting_qty bk s p oid"
      using eff(2,3) [of s p] Some by (auto simp: level_def resting_qty_def)
    then show ?thesis
      using resting_total_update [of oid bk' s p bk] eff(3) [of s p] eff(1) assms(2) by (simp add: phantom_def)
  next
    case True
    have rq: "resting_qty bk s p oid = or_quantity ord" "resting_qty bk' s p oid = or_quantity ord - q"
      using True Some eff(3) [of s p] by (simp_all add: resting_qty_def)
    then have total: "resting_total bk' s p + unat q = resting_total bk s p"
      using resting_total_update [of oid bk' s p bk] eff(3) [of s p] q
        resting_qty_le_total [of bk s p oid] by (simp add: unat_sub word_le_nat_alt)
    have "unat (level bk s p) = unat (level bk' s p) + unat q"
    proof (cases "bt_get (book_side s bk) p")
      case None
      then have "unat (level bk s p) = 0" by (simp add: level_def)
      then have "unat q = 0" using total assms(2) by (simp add: phantom_def)
      then show ?thesis using None eff(2) [of s p] True by (simp add: level_def)
    next
      case (Some t)
      then have "q \<le> t" using m(1) True by (auto simp: cancel_level_def sub_u_def word_le_nat_alt split: if_splits)
      then show ?thesis using Some eff(2) [of s p] True by (auto simp: level_def unat_sub word_le_nat_alt)
    qed
    then show ?thesis using total assms(2) eff(1) by (simp add: phantom_def)
  qed
qed

lemma run_book_keeps_phantom:
  "run_book Debug bk ops = Inr bk' \<Longrightarrow> phantom s p excess bk \<Longrightarrow> phantom s p excess bk'"
  by (induction Debug bk ops rule: run_book.induct) (auto intro: add_keeps_phantom cancel_keeps_phantom)

text \<open>C40: Re-using the id of a live order is not detected: the new order replaces the old one in
  the hash map, and the level of the old order keeps its shares. Right after it the L2 view shows
  exactly that many shares more than rest in the book, and no later sequence of additions and
  cancellations that succeed under overflow checks ever removes them.\<close>

theorem duplicate_id_phantom_quantity:
  assumes "book_exact bk" "ob_orders bk oid = Some old"
    and "add_order Debug bk oid s p q = Inr bk1" "run_book Debug bk1 ops = Inr bk'"
  shows "unat (level bk1 (or_side old) (or_price old)) =
      resting_total bk1 (or_side old) (or_price old) + unat (or_quantity old) \<and>
    resting_total bk' (or_side old) (or_price old) + unat (or_quantity old) \<le>
      unat (level bk' (or_side old) (or_price old))"
proof -
  have srt: "levels_sorted bk" using assms(1) by (simp add: book_exact_def)
  note eff = add_order_effect [OF assms(3) srt]
  let ?s = "or_side old" and ?p = "or_price old"
  have "resting_qty bk ?s ?p oid = or_quantity old" using assms(2) by (simp add: resting_qty_def)
  then have now: "unat (level bk1 ?s ?p) = resting_total bk1 ?s ?p + unat (or_quantity old)"
    using resting_total_update [of oid bk1 ?s ?p bk] eff(2,3) [of ?s ?p]
      add_order_total [OF assms(3)] assms(1)
    by (auto simp: book_exact_def split: if_splits)
  then have "phantom ?s ?p (unat (or_quantity old)) bk1" using eff(1) by (simp add: phantom_def)
  from run_book_keeps_phantom [OF assms(4) this] now show ?thesis by (simp add: phantom_def)
qed

theorem duplicate_id_phantom_quantity_witness:
  "\<exists>bk1 bk'. add_order Debug sample_book 1 Buy 101 5 = Inr bk1 \<and>
     run_book Debug bk1 [Cancel 1 5, Add 2 Sell 102 7] = Inr bk' \<and>
     unat (level bk1 Buy 100) = resting_total bk1 Buy 100 + 10 \<and>
     resting_total bk' Buy 100 + 10 \<le> unat (level bk' Buy 100)"
proof -
  obtain bk1 bk' where run: "add_order Debug sample_book 1 Buy 101 5 = Inr bk1"
    "run_book Debug bk1 [Cancel 1 5, Add 2 Sell 102 7] = Inr bk'"
    by (simp add: add_order_def cancel_order_def cancel_level_def sample_book_def add_u_def sub_u_def Let_def)
  have "ob_orders sample_book 1 = Some \<lparr>or_price = 100, or_quantity = 10, or_side = Buy\<rparr>"
    by (simp add: sample_book_def)
  from duplicate_id_phantom_quantity [OF sample_book_exact this run] run
  show ?thesis by (intro exI [of _ bk1] exI [of _ bk']) (simp del: run_book.simps)
qed

end
