(* ===== verification/Ticker.thy ===== *)
theory Ticker
  imports Common
begin

text \<open>
  \<open>crates/ticker/src/lib.rs\<close>: the tape of executed trades with the traded volume and the last
  price. The unused byte view \<open>add_trade\<close> takes of the trade has no effect and is not modelled.
\<close>

record trade =
  tr_price :: u64
  tr_quantity :: u32
  tr_match_number :: u64
  tr_side :: aggressor_side

record trade_ticker =
  tt_trades :: "trade list"
  tt_total_volume :: u64
  tt_last_sale :: u64

definition new_ticker :: trade_ticker where
  "new_ticker = \<lparr>tt_trades = [], tt_total_volume = 0, tt_last_sale = 0\<rparr>"

definition add_trade ::
    "build \<Rightarrow> trade_ticker \<Rightarrow> u64 \<Rightarrow> u32 \<Rightarrow> u64 \<Rightarrow> aggressor_side \<Rightarrow> trade_ticker res" where
  "add_trade b tt price quantity match_number s =
     (let t = \<lparr>tr_price = price, tr_quantity = quantity, tr_match_number = match_number, tr_side = s\<rparr>
      in r_bind (add_u b (tt_total_volume tt) (ucast quantity)) (\<lambda>volume.
         Inr \<lparr>tt_trades = tt_trades tt @ [t], tt_total_volume = volume, tt_last_sale = price\<rparr>))"

section \<open>The ticker summarises its tape\<close>

definition tape_volume :: "trade list \<Rightarrow> nat" where
  "tape_volume ts = (\<Sum>t\<leftarrow>ts. unat (tr_quantity t))"

definition ticker_inv :: "trade_ticker \<Rightarrow> bool" where
  "ticker_inv tt \<longleftrightarrow>
     unat (tt_total_volume tt) = tape_volume (tt_trades tt) \<and>
     tt_last_sale tt = (if tt_trades tt = [] then 0 else tr_price (last (tt_trades tt)))"

lemma ticker_inv_new [inv_intros]: "ticker_inv new_ticker"
  by (simp add: ticker_inv_def new_ticker_def tape_volume_def)

lemma add_trade_trades:
  "add_trade b tt p q mn s = Inr tt' \<Longrightarrow>
   tt_trades tt' = tt_trades tt @ [\<lparr>tr_price = p, tr_quantity = q, tr_match_number = mn, tr_side = s\<rparr>]"
  by (auto simp: add_trade_def Let_def)

lemma unat_ucast_quantity: "unat (ucast (q :: u32) :: u64) = unat q"
proof -
  have "unat q < 2 ^ 32" using unsigned_less [of q] by simp
  then show ?thesis by (simp add: unsigned_ucast_eq take_bit_nat_eq_self_iff)
qed

text \<open>With overflow checks, the ticker always holds the sum of the traded quantities and the
  price of the last trade, whatever is appended.\<close>

lemma add_trade_ticker_inv:
  assumes "ticker_inv tt" "add_trade Debug tt p q mn s = Inr tt'"
  shows "ticker_inv tt'"
  using assms
  by (auto simp: ticker_inv_def add_trade_def tape_volume_def Let_def unat_ucast_quantity
      dest!: add_u_Debug)

text \<open>An append panics only when the volume no longer fits in 64 bits.\<close>

lemma add_trade_panics_iff:
  assumes "ticker_inv tt"
  shows "add_trade Debug tt p q mn s = Inl e \<longleftrightarrow>
    e = Arith_Overflow \<and> 2 ^ 64 \<le> tape_volume (tt_trades tt) + unat q"
  using assms by (auto simp: add_trade_def ticker_inv_def add_u_def Let_def unat_ucast_quantity)

end
