(* ===== verification/Rust_Float.thy ===== *)
theory Rust_Float
  imports Complex_Main Prelude
begin

text \<open>
  The floating-point arithmetic of Rust's \<open>f32\<close> and \<open>f64\<close> (IEEE 754 binary32 and binary64,
  round to nearest, ties to even), executable on integers: a finite value is \<open>Fin m e\<close>, worth
  \<open>m * 2 ^ e\<close>. Subnormals, overflow to infinity and NaN are kept; the sign of a zero is not (no
  operation of the code can observe it: it never divides by a zero).

  The lemmas relate the integer computation to the reals: a result is a nearest representable
  value, so it never crosses a representable bound, and exact results are not rounded.
\<close>

section \<open>Formats and values\<close>

record float_format =
  ff_prec :: nat   \<comment> \<open>bits of the significand\<close>
  ff_emin :: int   \<comment> \<open>exponent of the smallest unit in the last place\<close>
  ff_emax :: int   \<comment> \<open>every finite value is below \<open>2 ^ ff_emax\<close>\<close>

definition f32 :: float_format where
  "f32 = \<lparr>ff_prec = 24, ff_emin = - 149, ff_emax = 128\<rparr>"

definition f64 :: float_format where
  "f64 = \<lparr>ff_prec = 53, ff_emin = - 1074, ff_emax = 1024\<rparr>"

datatype fl = Fin int int | Infinite bool | NaN   \<comment> \<open>\<open>Infinite True\<close> is minus infinity\<close>

abbreviation p2 :: "int \<Rightarrow> real" where
  "p2 e \<equiv> 2 powi e"

fun fval :: "fl \<Rightarrow> real" where
  "fval (Fin m e) = real_of_int m * p2 e"
| "fval _ = 0"

fun is_fin :: "fl \<Rightarrow> bool" where
  "is_fin (Fin _ _) = True"
| "is_fin _ = False"

section \<open>Rounding a fraction\<close>

fun bitlen :: "nat \<Rightarrow> nat" where
  "bitlen n = (if n = 0 then 0 else Suc (bitlen (n div 2)))"

declare bitlen.simps [simp del]

text \<open>\<open>n / d\<close> to the nearest integer, ties to the even one.\<close>

definition rne :: "nat \<Rightarrow> nat \<Rightarrow> nat" where
  "rne n d =
     (let q = n div d; r = n mod d
      in if 2 * r < d \<or> 2 * r = d \<and> even q then q else q + 1)"

definition pow2_le :: "int \<Rightarrow> nat \<Rightarrow> nat \<Rightarrow> bool" where
  "pow2_le k n d \<longleftrightarrow> (if 0 \<le> k then d * 2 ^ nat k \<le> n else d \<le> n * 2 ^ nat (- k))"

text \<open>The binary exponent of \<open>n / d\<close>: the greatest \<open>e\<close> with \<open>2 ^ e \<le> n / d\<close>.\<close>

definition expo :: "nat \<Rightarrow> nat \<Rightarrow> int" where
  "expo n d = (let k = int (bitlen n) - int (bitlen d) in if pow2_le k n d then k else k - 1)"

definition ulp_exp :: "float_format \<Rightarrow> nat \<Rightarrow> nat \<Rightarrow> int" where
  "ulp_exp f n d = max (expo n d - int (ff_prec f) + 1) (ff_emin f)"

definition scaled_rne :: "int \<Rightarrow> nat \<Rightarrow> nat \<Rightarrow> nat" where
  "scaled_rne q n d =
     (if 0 \<le> q then rne n (d * 2 ^ nat q) else rne (n * 2 ^ nat (- q)) d)"

definition round_frac :: "float_format \<Rightarrow> bool \<Rightarrow> nat \<Rightarrow> nat \<Rightarrow> fl" where
  "round_frac f neg n d =
     (if n = 0 then Fin 0 0
      else let q = ulp_exp f n d; m = scaled_rne q n d
        in if ff_emax f \<le> q \<or> 2 ^ nat (ff_emax f - q) \<le> m then Infinite neg
           else Fin (if neg then - int m else int m) q)"

text \<open>An exact result \<open>m * 2 ^ e\<close>.\<close>

definition round_dyadic :: "float_format \<Rightarrow> int \<Rightarrow> int \<Rightarrow> fl" where
  "round_dyadic f m e =
     (if 0 \<le> e then round_frac f (m < 0) (nat \<bar>m\<bar> * 2 ^ nat e) 1
      else round_frac f (m < 0) (nat \<bar>m\<bar>) (2 ^ nat (- e)))"

section \<open>Operations\<close>

text \<open>Casts from unsigned integers, and literals given as a decimal fraction.\<close>

definition fl_of_nat :: "float_format \<Rightarrow> nat \<Rightarrow> fl" where
  "fl_of_nat f n = round_frac f False n 1"

definition fl_lit :: "float_format \<Rightarrow> nat \<Rightarrow> nat \<Rightarrow> fl" where
  "fl_lit f n d = round_frac f False n d"

fun fl_add :: "float_format \<Rightarrow> fl \<Rightarrow> fl \<Rightarrow> fl" where
  "fl_add f (Fin m1 e1) (Fin m2 e2) =
     (let e = min e1 e2 in round_dyadic f (m1 * 2 ^ nat (e1 - e) + m2 * 2 ^ nat (e2 - e)) e)"
| "fl_add f (Infinite s) (Infinite t) = (if s = t then Infinite s else NaN)"
| "fl_add f (Infinite s) (Fin _ _) = Infinite s"
| "fl_add f (Fin _ _) (Infinite s) = Infinite s"
| "fl_add f _ _ = NaN"

fun fl_neg :: "fl \<Rightarrow> fl" where
  "fl_neg (Fin m e) = Fin (- m) e"
| "fl_neg (Infinite s) = Infinite (\<not> s)"
| "fl_neg NaN = NaN"

definition fl_sub :: "float_format \<Rightarrow> fl \<Rightarrow> fl \<Rightarrow> fl" where
  "fl_sub f x y = fl_add f x (fl_neg y)"

fun fl_mul :: "float_format \<Rightarrow> fl \<Rightarrow> fl \<Rightarrow> fl" where
  "fl_mul f (Fin m1 e1) (Fin m2 e2) = round_dyadic f (m1 * m2) (e1 + e2)"
| "fl_mul f (Infinite s) (Infinite t) = Infinite (s \<noteq> t)"
| "fl_mul f (Infinite s) (Fin m _) = (if m = 0 then NaN else Infinite (s \<noteq> (m < 0)))"
| "fl_mul f (Fin m _) (Infinite s) = (if m = 0 then NaN else Infinite (s \<noteq> (m < 0)))"
| "fl_mul f _ _ = NaN"

fun fl_div :: "float_format \<Rightarrow> fl \<Rightarrow> fl \<Rightarrow> fl" where
  "fl_div f (Fin m1 e1) (Fin m2 e2) =
     (if m2 = 0 then (if m1 = 0 then NaN else Infinite (m1 < 0))
      else round_frac f ((m1 < 0) \<noteq> (m2 < 0))
        (nat \<bar>m1\<bar> * 2 ^ nat (e1 - e2)) (nat \<bar>m2\<bar> * 2 ^ nat (e2 - e1)))"
| "fl_div f (Infinite s) (Fin m _) = Infinite (s \<noteq> (m < 0))"
| "fl_div f (Fin _ _) (Infinite _) = Fin 0 0"
| "fl_div f _ _ = NaN"

text \<open>\<open>x < y\<close>; every comparison with a NaN is false.\<close>

fun fl_less :: "fl \<Rightarrow> fl \<Rightarrow> bool" where
  "fl_less (Fin m1 e1) (Fin m2 e2) =
     (let e = min e1 e2 in m1 * 2 ^ nat (e1 - e) < m2 * 2 ^ nat (e2 - e))"
| "fl_less (Fin _ _) (Infinite s) = (\<not> s)"
| "fl_less (Infinite s) (Fin _ _) = s"
| "fl_less (Infinite s) (Infinite t) = (s \<and> \<not> t)"
| "fl_less _ _ = False"

fun fl_is_zero :: "fl \<Rightarrow> bool" where
  "fl_is_zero (Fin m _) = (m = 0)"
| "fl_is_zero _ = False"

section \<open>Correct rounding\<close>

lemma bitlen_upper: "n < 2 ^ bitlen n"
proof (induction n rule: bitlen.induct)
  case (1 n)
  then show ?case by (cases "n = 0") (auto simp: bitlen.simps [of n])
qed

lemma bitlen_lower: "0 < n \<Longrightarrow> 2 ^ bitlen n \<le> 2 * n"
proof (induction n rule: bitlen.induct)
  case (1 n)
  show ?case
  proof (cases "n div 2 = 0")
    case True
    then have "n = 1" using "1.prems" by auto
    then show ?thesis by (simp add: bitlen.simps [of "Suc 0"] bitlen.simps [of 0])
  next
    case False
    then have "2 ^ bitlen (n div 2) \<le> 2 * (n div 2)" using 1 by auto
    also have "\<dots> \<le> n" by simp
    finally show ?thesis using "1.prems" by (simp add: bitlen.simps [of n])
  qed
qed

lemma p2_pos [simp]: "0 < p2 e"
  by (simp add: zero_less_power_int)

lemma p2_add: "p2 (a + b) = p2 a * p2 b"
  by (simp add: power_int_add)

lemma p2_diff: "p2 (a - b) = p2 a / p2 b"
  by (simp add: power_int_diff)

lemma p2_nat: "0 \<le> k \<Longrightarrow> p2 k = 2 ^ nat k"
  by (simp add: power_int_nonneg_exp)

lemma p2_neg_nat: "k \<le> 0 \<Longrightarrow> p2 k = 1 / 2 ^ nat (- k)"
  by (metis minus_minus neg_0_le_iff_le p2_nat power_int_minus_divide)

lemma p2_mono: "a \<le> b \<Longrightarrow> p2 a \<le> p2 b"
  by (simp add: power_int_increasing)

lemma p2_less_cancel: "p2 a < p2 b \<Longrightarrow> a < b"
  by (meson not_less p2_mono)

lemma pow2_le_iff: "0 < d \<Longrightarrow> pow2_le k n d \<longleftrightarrow> p2 k \<le> real n / real d"
proof -
  assume d: "0 < d"
  show ?thesis
  proof (cases "0 \<le> k")
    case True
    have "d * 2 ^ nat k \<le> n \<longleftrightarrow> real (d * 2 ^ nat k) \<le> real n" by (rule of_nat_le_iff [symmetric])
    then show ?thesis using True d by (simp add: pow2_le_def p2_nat pos_le_divide_eq mult.commute)
  next
    case False
    have "d \<le> n * 2 ^ nat (- k) \<longleftrightarrow> real d \<le> real (n * 2 ^ nat (- k))"
      by (rule of_nat_le_iff [symmetric])
    then show ?thesis using False d by (simp add: pow2_le_def p2_neg_nat field_simps)
  qed
qed

lemma expo_bounds:
  assumes "0 < n" "0 < d"
  shows "p2 (expo n d) \<le> real n / real d" "real n / real d < p2 (expo n d + 1)"
proof -
  let ?k = "int (bitlen n) - int (bitlen d)"
  have n: "real n < 2 ^ bitlen n" "2 ^ bitlen n \<le> 2 * real n"
    using bitlen_upper [of n] bitlen_lower [OF assms(1)]
    by (metis of_nat_less_iff of_nat_numeral of_nat_power,
        metis of_nat_le_iff of_nat_mult of_nat_numeral of_nat_power)
  have d: "real d < 2 ^ bitlen d" "2 ^ bitlen d \<le> 2 * real d"
    using bitlen_upper [of d] bitlen_lower [OF assms(2)]
    by (metis of_nat_less_iff of_nat_numeral of_nat_power,
        metis of_nat_le_iff of_nat_mult of_nat_numeral of_nat_power)
  have k: "p2 ?k = 2 ^ bitlen n / 2 ^ bitlen d" by (simp add: p2_diff)
  have "real n / real d < p2 (?k + 1)"
  proof -
    have "real n * 2 ^ bitlen d < 2 ^ bitlen n * (2 * real d)"
      using n(1) d(2) assms by (intro mult_less_le_imp_less) auto
    then have "real n / real d < 2 * (2 ^ bitlen n / 2 ^ bitlen d)"
      using assms by (simp add: field_simps)
    then show ?thesis unfolding k [symmetric] by (simp only: p2_add) simp
  qed
  moreover have "p2 (?k - 1) \<le> real n / real d"
  proof -
    have "2 ^ bitlen n * real d \<le> (2 * real n) * 2 ^ bitlen d"
      using n(2) d(1) assms by (intro mult_mono) auto
    then have "2 ^ bitlen n / 2 ^ bitlen d / 2 \<le> real n / real d"
      using assms by (simp add: field_simps)
    then show ?thesis unfolding k [symmetric] by (simp only: p2_diff [of ?k 1]) simp
  qed
  ultimately show "p2 (expo n d) \<le> real n / real d" "real n / real d < p2 (expo n d + 1)"
    using pow2_le_iff [OF assms(2), of ?k n] by (auto simp: expo_def Let_def)
qed

lemma rne_half:
  assumes "0 < d" shows "\<bar>real (rne n d) - real n / real d\<bar> \<le> 1 / 2"
proof -
  let ?q = "n div d" and ?r = "n mod d"
  have "real n = real d * real ?q + real ?r"
    by (metis mult_div_mod_eq of_nat_add of_nat_mult)
  then have x: "real n / real d = real ?q + real ?r / real d"
    using assms by (simp add: add_divide_distrib)
  have r: "real ?r < real d" using assms by simp
  show ?thesis
  proof (cases "2 * ?r < d \<or> 2 * ?r = d \<and> even ?q")
    case True
    then have "2 * real ?r \<le> real d" by linarith
    then have "real ?r / real d \<le> 1 / 2" using assms by (simp add: field_simps)
    then show ?thesis using True x by (simp add: rne_def Let_def)
  next
    case False
    then have "real d \<le> 2 * real ?r" by linarith
    then have "1 / 2 \<le> real ?r / real d" "real ?r / real d \<le> 1"
      using assms r by (simp_all add: field_simps)
    then show ?thesis using False x assms by (auto simp: rne_def Let_def abs_le_iff)
  qed
qed

lemma scaled_rne_half:
  assumes "0 < d"
  shows "\<bar>real (scaled_rne q n d) - real n / real d / p2 q\<bar> \<le> 1 / 2"
proof (cases "0 \<le> q")
  case True
  have "0 < d * 2 ^ nat q" using assms by simp
  from rne_half [OF this, of n] show ?thesis
    using True by (simp add: scaled_rne_def p2_nat)
next
  case False
  from rne_half [OF assms, of "n * 2 ^ nat (- q)"] show ?thesis
    using False by (simp add: scaled_rne_def p2_neg_nat)
qed

text \<open>A multiple of the unit in the last place is never nearer than the result.\<close>

lemma scaled_rne_nearest:
  assumes "0 < d"
  shows "\<bar>real (scaled_rne q n d) * p2 q - real n / real d\<bar> \<le>
         \<bar>real_of_int j * p2 q - real n / real d\<bar>"
proof -
  let ?m = "scaled_rne q n d" and ?x = "real n / real d"
  have "\<bar>real ?m - ?x / p2 q\<bar> \<le> \<bar>real_of_int j - ?x / p2 q\<bar>"
  proof (cases "int ?m = j")
    case False
    then have "1 \<le> \<bar>int ?m - j\<bar>" by simp
    then have "1 \<le> \<bar>real_of_int (int ?m - j)\<bar>" by (metis of_int_1_le_iff of_int_abs)
    then have "1 \<le> \<bar>real ?m - real_of_int j\<bar>" by simp
    then show ?thesis using scaled_rne_half [OF assms, of q n] by linarith
  qed auto
  then have "\<bar>real ?m - ?x / p2 q\<bar> * p2 q \<le> \<bar>real_of_int j - ?x / p2 q\<bar> * p2 q"
    by (rule mult_right_mono) (simp add: less_imp_le)
  moreover have "\<bar>y - ?x / p2 q\<bar> * p2 q = \<bar>y * p2 q - ?x\<bar>" for y
  proof -
    have "\<bar>y - ?x / p2 q\<bar> * p2 q = \<bar>(y - ?x / p2 q) * p2 q\<bar>"
      by (simp add: abs_mult)
    also have "(y - ?x / p2 q) * p2 q = y * p2 q - ?x"
      by (simp add: left_diff_distrib)
    finally show ?thesis .
  qed
  ultimately show ?thesis by metis
qed

text \<open>The values of a format.\<close>

definition representable :: "float_format \<Rightarrow> real \<Rightarrow> bool" where
  "representable f y \<longleftrightarrow>
     (\<exists>m e. y = real_of_int m * p2 e \<and> \<bar>m\<bar> \<le> 2 ^ ff_prec f \<and> ff_emin f \<le> e) \<and> \<bar>y\<bar> < p2 (ff_emax f)"

definition format_ok :: "float_format \<Rightarrow> bool" where
  "format_ok f \<longleftrightarrow> 1 \<le> ff_prec f \<and> ff_emin f < ff_emax f"

lemma format_ok_f32 [simp]: "format_ok f32" and format_ok_f64 [simp]: "format_ok f64"
  by (simp_all add: format_ok_def f32_def f64_def)

lemma ulp_nearest:
  assumes f: "format_ok f" and pos: "0 < n" "0 < d" and y: "representable f y"
  defines "q \<equiv> ulp_exp f n d"
  shows "\<bar>real (scaled_rne q n d) * p2 q - real n / real d\<bar> \<le> \<bar>y - real n / real d\<bar>"
proof -
  let ?x = "real n / real d" and ?e = "expo n d" and ?p = "ff_prec f"
  obtain m e where m: "y = real_of_int m * p2 e" "\<bar>m\<bar> \<le> 2 ^ ?p" "ff_emin f \<le> e"
    using y by (auto simp: representable_def)
  show ?thesis
  proof (cases "q \<le> e")
    case True
    then have "p2 e = 2 ^ nat (e - q) * p2 q"
      using p2_add [of "e - q" q] by (simp add: p2_nat)
    then have "y = real_of_int (m * 2 ^ nat (e - q)) * p2 q" using m(1) by simp
    then show ?thesis using scaled_rne_nearest [OF pos(2)] by metis
  next
    case False
    then have q: "q = ?e - int ?p + 1" using m(3) by (auto simp: q_def ulp_exp_def)
    have "\<bar>y\<bar> \<le> p2 ?e"
    proof -
      have "\<bar>real_of_int m\<bar> \<le> 2 ^ ?p"
        using m(2) by (metis of_int_abs of_int_le_iff of_int_numeral of_int_power)
      then have "\<bar>y\<bar> \<le> 2 ^ ?p * p2 e"
        using m(1) by (simp add: abs_mult mult_right_mono)
      also have "\<dots> = p2 (int ?p + e)" by (simp add: p2_add)
      also have "\<dots> \<le> p2 ?e" using False q by (intro p2_mono) simp
      finally show ?thesis .
    qed
    moreover have "\<bar>real (scaled_rne q n d) * p2 q - ?x\<bar> \<le> \<bar>p2 ?e - ?x\<bar>"
    proof -
      have "0 \<le> ?e - q" using q f by (auto simp: format_ok_def)
      then have "p2 ?e = real_of_int (2 ^ nat (?e - q)) * p2 q"
        using p2_add [of "?e - q" q] by (simp add: p2_nat)
      then show ?thesis using scaled_rne_nearest [OF pos(2)] by metis
    qed
    ultimately show ?thesis using expo_bounds(1) [OF pos] by linarith
  qed
qed

text \<open>\<open>rounds f x v\<close>: the finite \<open>v\<close> is a nearest value of the format to \<open>x\<close>.\<close>

definition rounds :: "float_format \<Rightarrow> real \<Rightarrow> fl \<Rightarrow> bool" where
  "rounds f x v \<longleftrightarrow> is_fin v \<and> (\<forall>y. representable f y \<longrightarrow> \<bar>fval v - x\<bar> \<le> \<bar>y - x\<bar>)"

lemma rounds_fin: "rounds f x v \<Longrightarrow> is_fin v"
  by (simp add: rounds_def)

lemma rounds_ge: "rounds f x v \<Longrightarrow> representable f y \<Longrightarrow> y \<le> x \<Longrightarrow> y \<le> fval v"
  unfolding rounds_def by (smt (verit))

lemma rounds_le: "rounds f x v \<Longrightarrow> representable f y \<Longrightarrow> x \<le> y \<Longrightarrow> fval v \<le> y"
  unfolding rounds_def by (smt (verit))

lemma rounds_exact: "rounds f x v \<Longrightarrow> representable f x \<Longrightarrow> fval v = x"
  unfolding rounds_def by fastforce

lemma rounds_error: "rounds f x v \<Longrightarrow> representable f y \<Longrightarrow> \<bar>fval v - x\<bar> \<le> \<bar>y - x\<bar>"
  unfolding rounds_def by blast

lemma representable_0 [simp]: "representable f 0"
  by (auto simp: representable_def intro: exI [of _ 0])

lemma representable_p2: "ff_emin f \<le> e \<Longrightarrow> e < ff_emax f \<Longrightarrow> representable f (p2 e)"
  unfolding representable_def
  by (intro conjI exI [of _ 1] exI [of _ e]) (auto simp: power_int_strict_increasing less_imp_le)

lemma representable_nat:
  "n \<le> 2 ^ ff_prec f \<Longrightarrow> ff_emin f \<le> 0 \<Longrightarrow> real n < p2 (ff_emax f) \<Longrightarrow> representable f (real n)"
  unfolding representable_def
  by (intro conjI exI [of _ "int n"] exI [of _ 0]) auto

text \<open>Values up to \<open>2 ^ (emax - 1)\<close> do not overflow.\<close>

lemma rounds_round_frac:
  assumes f: "format_ok f" and d: "0 < d" and x: "real n / real d \<le> p2 (ff_emax f - 1)"
  shows "rounds f (real n / real d) (round_frac f False n d)"
proof (cases "n = 0")
  case True
  then show ?thesis by (simp add: rounds_def round_frac_def)
next
  case False
  then have n: "0 < n" by simp
  let ?q = "ulp_exp f n d" and ?x = "real n / real d" and ?E = "ff_emax f"
  let ?m = "scaled_rne ?q n d"
  have near: "\<bar>real ?m * p2 ?q - ?x\<bar> \<le> \<bar>y - ?x\<bar>" if "representable f y" for y
    using ulp_nearest [OF f n d that] .
  have "representable f (p2 (?E - 1))" using f by (intro representable_p2) (auto simp: format_ok_def)
  from near [OF this] have "real ?m * p2 ?q \<le> p2 (?E - 1)" using x by linarith
  also have "p2 (?E - 1) < p2 ?E" by (simp add: power_int_strict_increasing)
  finally have small: "real ?m * p2 ?q < p2 ?E" .
  have "\<not> ?E \<le> ?q"
  proof
    assume "?E \<le> ?q"
    then have "?E \<le> expo n d" using f by (auto simp: ulp_exp_def format_ok_def)
    then have "p2 ?E \<le> p2 (expo n d)" by (rule p2_mono)
    then have "p2 ?E \<le> p2 (?E - 1)" using expo_bounds(1) [OF n d] x by linarith
    then show False using power_int_strict_increasing [of "?E - 1" ?E "2 :: real"] by simp
  qed
  moreover have "\<not> 2 ^ nat (?E - ?q) \<le> ?m" if "\<not> ?E \<le> ?q"
  proof
    assume "2 ^ nat (?E - ?q) \<le> ?m"
    then have "real (2 ^ nat (?E - ?q)) \<le> real ?m" by (rule of_nat_mono)
    then have "real (2 ^ nat (?E - ?q)) * p2 ?q \<le> real ?m * p2 ?q"
      by (intro mult_right_mono) (simp_all add: less_imp_le)
    moreover have "p2 ?E = 2 ^ nat (?E - ?q) * p2 ?q"
      using that p2_add [of "?E - ?q" ?q] by (simp add: p2_nat)
    ultimately show False using small by simp
  qed
  ultimately have "round_frac f False n d = Fin (int ?m) ?q"
    using n by (simp add: round_frac_def Let_def)
  then show ?thesis using near by (simp add: rounds_def)
qed

lemma rounds_round_dyadic:
  assumes f: "format_ok f" and m: "0 \<le> m" and x: "real_of_int m * p2 e \<le> p2 (ff_emax f - 1)"
  shows "rounds f (real_of_int m * p2 e) (round_dyadic f m e)"
proof (cases "0 \<le> e")
  case True
  then have v: "real_of_int m * p2 e = real (nat \<bar>m\<bar> * 2 ^ nat e) / real 1"
    using m by (simp add: p2_nat)
  show ?thesis
    using rounds_round_frac [OF f, of 1 "nat \<bar>m\<bar> * 2 ^ nat e"] x m True
    unfolding v by (simp add: round_dyadic_def)
next
  case False
  then have v: "real_of_int m * p2 e = real (nat \<bar>m\<bar>) / real (2 ^ nat (- e))"
    using m by (simp add: p2_neg_nat)
  show ?thesis
    using rounds_round_frac [OF f, of "2 ^ nat (- e)" "nat \<bar>m\<bar>"] x m False
    unfolding v by (simp add: round_dyadic_def)
qed

section \<open>The operations round correctly\<close>

lemma is_finE:
  assumes "is_fin v" obtains m e where "v = Fin m e" "fval v = real_of_int m * p2 e"
  using assms by (cases v) auto

lemma align_fval:
  assumes "e \<le> e1" shows "real_of_int (m * 2 ^ nat (e1 - e)) * p2 e = real_of_int m * p2 e1"
  using assms p2_add [of "e1 - e" e] by (simp add: p2_nat)

lemma fl_less_iff: "is_fin a \<Longrightarrow> is_fin b \<Longrightarrow> fl_less a b \<longleftrightarrow> fval a < fval b"
proof -
  assume "is_fin a" "is_fin b"
  then obtain m1 e1 m2 e2 where ab: "a = Fin m1 e1" "b = Fin m2 e2"
    by (elim is_finE) blast
  let ?e = "min e1 e2"
  have "fl_less a b \<longleftrightarrow> m1 * 2 ^ nat (e1 - ?e) < m2 * 2 ^ nat (e2 - ?e)"
    by (simp add: ab Let_def)
  also have "\<dots> \<longleftrightarrow> real_of_int (m1 * 2 ^ nat (e1 - ?e)) < real_of_int (m2 * 2 ^ nat (e2 - ?e))"
    by (rule of_int_less_iff [symmetric])
  also have "\<dots> \<longleftrightarrow> real_of_int (m1 * 2 ^ nat (e1 - ?e)) * p2 ?e
      < real_of_int (m2 * 2 ^ nat (e2 - ?e)) * p2 ?e"
    by (rule mult_less_cancel_right_pos [symmetric]) simp
  also have "\<dots> \<longleftrightarrow> fval a < fval b"
    by (simp only: ab fval.simps align_fval min.cobounded1 min.cobounded2)
  finally show ?thesis .
qed

lemma fl_is_zero_iff: "is_fin a \<Longrightarrow> fl_is_zero a \<longleftrightarrow> fval a = 0"
  by (cases a) auto

lemma rounds_of_nat:
  assumes "format_ok f" "real n \<le> p2 (ff_emax f - 1)"
  shows "rounds f (real n) (fl_of_nat f n)"
  using rounds_round_frac [of f 1 n] assms by (simp add: fl_of_nat_def)

lemma rounds_lit:
  assumes "format_ok f" "0 < d" "real n / real d \<le> p2 (ff_emax f - 1)"
  shows "rounds f (real n / real d) (fl_lit f n d)"
  using rounds_round_frac [of f d n] assms by (simp add: fl_lit_def)

lemma rounds_add:
  assumes f: "format_ok f" and a: "is_fin a" "is_fin b"
    and x: "0 \<le> fval a + fval b" "fval a + fval b \<le> p2 (ff_emax f - 1)"
  shows "rounds f (fval a + fval b) (fl_add f a b)"
proof -
  from a obtain m1 e1 m2 e2 where ab: "a = Fin m1 e1" "b = Fin m2 e2"
    by (elim is_finE) blast
  let ?e = "min e1 e2"
  let ?m = "m1 * 2 ^ nat (e1 - ?e) + m2 * 2 ^ nat (e2 - ?e)"
  have v: "fval a + fval b = real_of_int ?m * p2 ?e"
    by (simp only: ab fval.simps of_int_add distrib_right align_fval min.cobounded1 min.cobounded2)
  then have "0 \<le> real_of_int ?m"
    using x(1) p2_pos [of ?e] by (metis mult_neg_pos not_less)
  then have "0 \<le> ?m" by (simp only: of_int_0_le_iff)
  from rounds_round_dyadic [OF f this, of ?e] x(2) v
  show ?thesis by (simp add: ab Let_def)
qed

lemma fval_neg [simp]: "fval (fl_neg a) = - fval a" and is_fin_neg [simp]: "is_fin (fl_neg a) = is_fin a"
  by (cases a; simp)+

lemma rounds_sub:
  assumes "format_ok f" "is_fin a" "is_fin b"
    and "0 \<le> fval a - fval b" "fval a - fval b \<le> p2 (ff_emax f - 1)"
  shows "rounds f (fval a - fval b) (fl_sub f a b)"
  using rounds_add [of f a "fl_neg b"] assms by (simp add: fl_sub_def)

lemma rounds_mul:
  assumes f: "format_ok f" and a: "is_fin a" "is_fin b"
    and x: "0 \<le> fval a * fval b" "fval a * fval b \<le> p2 (ff_emax f - 1)"
  shows "rounds f (fval a * fval b) (fl_mul f a b)"
proof -
  from a obtain m1 e1 m2 e2 where ab: "a = Fin m1 e1" "b = Fin m2 e2"
    by (elim is_finE) blast
  have v: "fval a * fval b = real_of_int (m1 * m2) * p2 (e1 + e2)"
    by (simp add: ab p2_add)
  then have "0 \<le> real_of_int (m1 * m2)"
    using x(1) p2_pos [of "e1 + e2"] by (metis mult_neg_pos not_less)
  then have "0 \<le> m1 * m2" by (simp only: of_int_0_le_iff)
  from rounds_round_dyadic [OF f this, of "e1 + e2"] x(2)
  show ?thesis unfolding v by (simp add: ab)
qed

lemma rounds_div:
  assumes f: "format_ok f" and a: "is_fin a" "is_fin b"
    and x: "0 \<le> fval a" "0 < fval b" "fval a / fval b \<le> p2 (ff_emax f - 1)"
  shows "rounds f (fval a / fval b) (fl_div f a b)"
proof -
  from a obtain m1 e1 m2 e2 where ab: "a = Fin m1 e1" "b = Fin m2 e2"
    by (elim is_finE) blast
  have m: "0 \<le> m1" "0 < m2"
    using x(1,2) p2_pos [of e1] p2_pos [of e2]
    by (simp_all add: ab zero_le_mult_iff zero_less_mult_iff)
  let ?n = "nat \<bar>m1\<bar> * 2 ^ nat (e1 - e2)" and ?d = "nat \<bar>m2\<bar> * 2 ^ nat (e2 - e1)"
  have "real ?n / real ?d = real_of_int m1 / real_of_int m2 * (2 ^ nat (e1 - e2) / 2 ^ nat (e2 - e1))"
    using m by simp
  also have "2 ^ nat (e1 - e2) / 2 ^ nat (e2 - e1) = p2 (e1 - e2)"
    by (cases "e2 \<le> e1") (simp_all add: p2_nat p2_neg_nat)
  finally have v: "fval a / fval b = real ?n / real ?d"
    by (simp add: ab p2_diff)
  have "0 < ?d" using m by simp
  from rounds_round_frac [OF f this, of ?n] x(3) v m
  show ?thesis by (simp add: ab)
qed

section \<open>Integers up to the precision are exact\<close>

lemma of_nat_exact:
  assumes f: "format_ok f" "ff_emin f \<le> 0" "int (ff_prec f) \<le> ff_emax f - 1" and n: "n \<le> 2 ^ ff_prec f"
  shows "is_fin (fl_of_nat f n)" "fval (fl_of_nat f n) = real n" "representable f (real n)"
proof -
  have "real n \<le> 2 ^ ff_prec f" using n by (metis of_nat_le_iff of_nat_numeral of_nat_power)
  also have "\<dots> = p2 (int (ff_prec f))" by simp
  also have "\<dots> \<le> p2 (ff_emax f - 1)" using f(3) by (rule p2_mono)
  finally have le: "real n \<le> p2 (ff_emax f - 1)" .
  also have "\<dots> < p2 (ff_emax f)" by (simp add: power_int_strict_increasing)
  finally show rep: "representable f (real n)" using n f(2) by (intro representable_nat)
  have r: "rounds f (real n) (fl_of_nat f n)" by (rule rounds_of_nat [OF f(1) le])
  show "is_fin (fl_of_nat f n)" using r by (rule rounds_fin)
  show "fval (fl_of_nat f n) = real n" using r rep by (rule rounds_exact)
qed

lemma of_nat_f64:
  assumes "n \<le> 2 ^ 53"
  shows "is_fin (fl_of_nat f64 n)" "fval (fl_of_nat f64 n) = real n"
  using of_nat_exact [of f64 n] assms by (simp_all add: f64_def format_ok_def)

lemma p2_large: "x \<le> 2 ^ k \<Longrightarrow> int k \<le> e \<Longrightarrow> x \<le> p2 e"
  using p2_mono [of "int k" e] by simp

lemma representable_mult_p2:
  assumes "real_of_int m * p2 e < p2 (ff_emax f)" "0 \<le> m" "m \<le> 2 ^ ff_prec f" "ff_emin f \<le> e"
  shows "representable f (real_of_int m * p2 e)"
  using assms unfolding representable_def
  by (intro conjI exI [of _ m] exI [of _ e]) (auto simp: abs_mult)

section \<open>Relative error\<close>

lemma ex_p2_bracket:
  assumes "1 / 2 \<le> (x :: real)"
  obtains n :: nat where "p2 (int n - 1) \<le> x" "x < p2 (int n)"
proof -
  define k where "k = nat \<lfloor>2 * x\<rfloor>"
  have k: "1 \<le> k" "real k \<le> 2 * x" "2 * x < real (k + 1)"
  proof -
    have "1 \<le> \<lfloor>2 * x\<rfloor>" using assms by (simp add: le_floor_iff)
    then show "1 \<le> k" "real k \<le> 2 * x" "2 * x < real (k + 1)"
      unfolding k_def by linarith+
  qed
  obtain n where n: "2 ^ n \<le> k" "k < 2 ^ (n + 1)" using ex_power_ivl1 [of 2 k] k(1) by auto
  have "2 ^ n \<le> real k" using n(1) by (metis of_nat_le_iff of_nat_numeral of_nat_power)
  then have "2 ^ n \<le> 2 * x" using k(2) by linarith
  then have lo: "p2 (int n - 1) \<le> x" by (simp add: power_int_diff)
  have "k + 1 \<le> 2 ^ (n + 1)" using n(2) by simp
  then have "real (k + 1) \<le> 2 ^ (n + 1)" by (metis of_nat_le_iff of_nat_numeral of_nat_power)
  then have "x < p2 (int n)" using k(3) by simp
  with lo show ?thesis by (rule that)
qed

text \<open>Rounding to \<open>f32\<close> has a relative error of at most \<open>2 ^ - 23\<close>, away from the subnormals and the
  overflow threshold.\<close>

lemma rounds_rel_f32:
  assumes v: "rounds f32 x v" and x: "x = 0 \<or> 1 / 2 \<le> x" "x \<le> 2 ^ 100"
  shows "\<bar>fval v - x\<bar> \<le> x / 2 ^ 23"
proof (cases "x = 0")
  case True
  then show ?thesis using rounds_exact [OF v] by simp
next
  case False
  then have "1 / 2 \<le> x" using x(1) by simp
  then obtain n where n: "p2 (int n - 1) \<le> x" "x < p2 (int n)" by (rule ex_p2_bracket)
  define q where "q = int n - 24"
  define m where "m = \<lfloor>x / p2 q\<rfloor>"
  have m: "real_of_int m \<le> x / p2 q" "x / p2 q < real_of_int m + 1"
    unfolding m_def by (auto intro: floor_correct [THEN conjunct2])
  have mx: "real_of_int m * p2 q \<le> x" "x < real_of_int m * p2 q + p2 q"
    using m by (simp_all add: field_simps)
  have "p2 24 * p2 q = p2 (int n)" unfolding p2_add [symmetric] by (simp add: q_def)
  then have "x / p2 q < p2 24"
    using n(2) by (simp add: divide_less_eq)
  then have "real_of_int m < 2 ^ 24" using m(1) by simp
  then have "m < 2 ^ 24" by (metis of_int_less_iff of_int_numeral of_int_power)
  moreover have "0 \<le> m" using \<open>1 / 2 \<le> x\<close> by (simp add: m_def)
  moreover have "real_of_int m * p2 q < p2 128"
    using mx(1) x(2) power_int_strict_increasing [of 100 128 "2 :: real"] by simp
  ultimately have "representable f32 (real_of_int m * p2 q)"
    by (intro representable_mult_p2) (simp_all add: f32_def q_def)
  then have "\<bar>fval v - x\<bar> \<le> \<bar>real_of_int m * p2 q - x\<bar>" by (rule rounds_error [OF v])
  also have "\<dots> \<le> p2 q" using mx by simp
  also have "p2 q = p2 (int n - 1) / 2 ^ 23" by (simp add: q_def power_int_diff)
  also have "\<dots> \<le> x / 2 ^ 23" using n(1) by (intro divide_right_mono) auto
  finally show ?thesis .
qed

lemma rel_bounds:
  fixes v x e :: real
  assumes "\<bar>v - x\<bar> \<le> x / 2 ^ 23" "0 \<le> x"
  shows "x * (1 - 1 / 2 ^ 23) \<le> v" "v \<le> x * (1 + 1 / 2 ^ 23)"
proof -
  have "v - x \<le> x / 2 ^ 23" "x - v \<le> x / 2 ^ 23" using assms(1) unfolding abs_le_iff by linarith+
  then show "x * (1 - 1 / 2 ^ 23) \<le> v" "v \<le> x * (1 + 1 / 2 ^ 23)" by (simp_all add: field_simps)
qed

lemma of_nat_f32_rel:
  assumes "n < 2 ^ 64"
  shows "is_fin (fl_of_nat f32 n)"
    and "real n * (1 - 1 / 2 ^ 23) \<le> fval (fl_of_nat f32 n)"
    and "fval (fl_of_nat f32 n) \<le> real n * (1 + 1 / 2 ^ 23)"
    and "n = 0 \<or> 1 \<le> fval (fl_of_nat f32 n)"
proof -
  have n: "real n \<le> 2 ^ 64" using assms by (metis less_imp_le of_nat_le_iff of_nat_numeral of_nat_power)
  then have "real n \<le> p2 (ff_emax f32 - 1)" by (rule p2_large) (simp add: f32_def)
  then have r: "rounds f32 (real n) (fl_of_nat f32 n)" by (intro rounds_of_nat) simp_all
  then show "is_fin (fl_of_nat f32 n)" by (rule rounds_fin)
  have "\<bar>fval (fl_of_nat f32 n) - real n\<bar> \<le> real n / 2 ^ 23"
    using r n by (intro rounds_rel_f32) auto
  then show "real n * (1 - 1 / 2 ^ 23) \<le> fval (fl_of_nat f32 n)"
    "fval (fl_of_nat f32 n) \<le> real n * (1 + 1 / 2 ^ 23)"
    by (intro rel_bounds; simp)+
  have "1 \<le> fval (fl_of_nat f32 n)" if "n \<noteq> 0"
    using that representable_nat [of 1 f32] by (intro rounds_ge [OF r]) (simp_all add: f32_def)
  then show "n = 0 \<or> 1 \<le> fval (fl_of_nat f32 n)" by blast
qed

lemma fl_of_nat_0: "fval (fl_of_nat f 0) = 0"
  by (simp add: fl_of_nat_def round_frac_def)

lemma mul_f32_rel:
  assumes n: "n < 2 ^ 64" and c: "is_fin c" "1 / 2 \<le> fval c" "fval c \<le> 2"
  defines "v \<equiv> fl_mul f32 (fl_of_nat f32 n) c"
  shows "is_fin v"
    and "real n * fval c * ((1 - 1 / 2 ^ 23) * (1 - 1 / 2 ^ 23)) \<le> fval v"
    and "fval v \<le> real n * fval c * ((1 + 1 / 2 ^ 23) * (1 + 1 / 2 ^ 23))"
proof -
  let ?a = "fval (fl_of_nat f32 n)" and ?x = "fval (fl_of_nat f32 n) * fval c"
  note a = of_nat_f32_rel [OF n]
  have "real n \<le> 2 ^ 64" using n by (metis less_imp_le of_nat_le_iff of_nat_numeral of_nat_power)
  then have "?a \<le> 2 ^ 64 * 2" using a(3) by (intro order_trans [OF a(3)] mult_mono) auto
  moreover have a0: "0 \<le> ?a" using a(4) fl_of_nat_0 [of f32] by fastforce
  ultimately have "?x \<le> (2 ^ 64 * 2) * 2" using c by (intro mult_mono) auto
  then have big: "?x \<le> 2 ^ 100" by simp
  then have "?x \<le> p2 (ff_emax f32 - 1)" by (rule p2_large) (simp add: f32_def)
  then have r: "rounds f32 ?x v"
    unfolding v_def using a(1) c a0 by (intro rounds_mul) auto
  then show "is_fin v" by (rule rounds_fin)
  have "?x = 0 \<or> 1 / 2 \<le> ?x"
  proof (cases "n = 0")
    case False
    then have "1 * (1 / 2) \<le> ?x" using a(4) c by (intro mult_mono) auto
    then show ?thesis by simp
  qed (simp add: fl_of_nat_0)
  then have rel: "\<bar>fval v - ?x\<bar> \<le> ?x / 2 ^ 23" using r big by (intro rounds_rel_f32) auto
  have x0: "0 \<le> ?x" using a0 c by simp
  note b = rel_bounds [OF rel x0]
  have "real n * (1 - 1 / 2 ^ 23) * fval c * (1 - 1 / 2 ^ 23) \<le> ?a * fval c * (1 - 1 / 2 ^ 23)"
    using a(2) c by (intro mult_right_mono) auto
  also note b(1)
  finally show "real n * fval c * ((1 - 1 / 2 ^ 23) * (1 - 1 / 2 ^ 23)) \<le> fval v"
    by (simp only: ac_simps)
  note b(2)
  also have "?a * fval c * (1 + 1 / 2 ^ 23) \<le> real n * (1 + 1 / 2 ^ 23) * fval c * (1 + 1 / 2 ^ 23)"
    using a(3) c by (intro mult_right_mono) auto
  finally show "fval v \<le> real n * fval c * ((1 + 1 / 2 ^ 23) * (1 + 1 / 2 ^ 23))"
    by (simp only: ac_simps)
qed

end
