(* ===== verification/Risk_Engine.thy ===== *)
theory Risk_Engine
  imports Common Rust_Float Rust_String
begin

text \<open>
  \<open>crates/risk-engine/src/lib.rs\<close>: the per-symbol risk check. An order passes when its quantity is
  within the per-order limit, the position it would lead to is within the position limit, and its
  price is within a band around the opposite quote; the projected position is then committed.
\<close>

section \<open>The check\<close>

datatype risk_decision = Pass | Fail rstring

record local_risk =
  lr_max_qty_per_order :: u32
  lr_price_band_percentage :: fl
  lr_max_absolute_position :: i32
  lr_current_position :: i32

definition new_risk :: "u32 \<Rightarrow> fl \<Rightarrow> i32 \<Rightarrow> local_risk" where
  "new_risk max_qty price_band max_pos =
     \<lparr>lr_max_qty_per_order = max_qty, lr_price_band_percentage = price_band,
      lr_max_absolute_position = max_pos, lr_current_position = 0\<rparr>"

type_synonym quote = "u64 \<times> u32"

definition qty_reason :: "u32 \<Rightarrow> u32 \<Rightarrow> rstring" where
  "qty_reason q limit = rstr ''Qty '' @ fmt_nat (unat q) @ rstr '' exceeds limit '' @ fmt_nat (unat limit)"

definition pos_reason :: "i32 \<Rightarrow> i32 \<Rightarrow> rstring" where
  "pos_reason p limit =
     rstr ''Projected pos '' @ fmt_int (sint p) @ rstr '' exceeds limit '' @ fmt_int (sint limit)"

text \<open>The match on the side at the end of \<open>check\<close>: the reason of a rejection by the price band.\<close>

definition band_violation ::
    "fl \<Rightarrow> order_command \<Rightarrow> quote option \<Rightarrow> quote option \<Rightarrow> rstring option" where
  "band_violation band cmd best_bid best_ask =
     (case oc_side cmd of
        OrderBuy \<Rightarrow>
          (case best_ask of
             None \<Rightarrow> None
           | Some (ask_price, _) \<Rightarrow>
               let limit = fl_mul f32 (fl_of_nat f32 (unat ask_price))
                             (fl_add f32 (fl_of_nat f32 1) band)
               in if fl_less limit (fl_of_nat f32 (unat (oc_price cmd)))
                  then Some (rstr ''Buy price too far above best ask'') else None)
      | OrderSell \<Rightarrow>
          (case best_bid of
             None \<Rightarrow> None
           | Some (bid_price, _) \<Rightarrow>
               let limit = fl_mul f32 (fl_of_nat f32 (unat bid_price))
                             (fl_sub f32 (fl_of_nat f32 1) band)
               in if fl_less (fl_of_nat f32 (unat (oc_price cmd))) limit
                  then Some (rstr ''Sell price too far below best bid'') else None))"

definition check ::
    "build \<Rightarrow> local_risk \<Rightarrow> order_command \<Rightarrow> quote option \<Rightarrow> quote option
     \<Rightarrow> (local_risk \<times> risk_decision) res" where
  "check b r cmd best_bid best_ask =
     (let cmd_qty = oc_quantity cmd
      in if lr_max_qty_per_order r < cmd_qty then
           Inr (r, Fail (qty_reason cmd_qty (lr_max_qty_per_order r)))
         else
           r_bind (if oc_side cmd = OrderBuy then Inr cmd_qty else neg_s b cmd_qty) (\<lambda>delta.
           r_bind (add_s b (lr_current_position r) delta) (\<lambda>projected_pos.
           r_bind (abs_s b projected_pos) (\<lambda>abs_pos.
           if sint (lr_max_absolute_position r) < sint abs_pos then
             Inr (r, Fail (pos_reason projected_pos (lr_max_absolute_position r)))
           else case band_violation (lr_price_band_percentage r) cmd best_bid best_ask of
             Some reason \<Rightarrow> Inr (r, Fail reason)
           | None \<Rightarrow> Inr (r\<lparr>lr_current_position := projected_pos\<rparr>, Pass)))))"

section \<open>The check in exact arithmetic\<close>

definition signed_qty :: "order_command \<Rightarrow> int" where
  "signed_qty cmd =
     (case oc_side cmd of OrderBuy \<Rightarrow> uint (oc_quantity cmd)
                        | OrderSell \<Rightarrow> - uint (oc_quantity cmd))"

text \<open>Limits for which no intermediate value can leave the range of an \<open>i32\<close>.\<close>

definition limits_ok :: "local_risk \<Rightarrow> bool" where
  "limits_ok r \<longleftrightarrow> 0 \<le> sint (lr_max_absolute_position r) \<and>
     uint (lr_max_qty_per_order r) + sint (lr_max_absolute_position r) < 2 ^ 31"

definition within_limit :: "local_risk \<Rightarrow> bool" where
  "within_limit r \<longleftrightarrow> \<bar>sint (lr_current_position r)\<bar> \<le> sint (lr_max_absolute_position r)"

text \<open>What \<open>check\<close> decides, over the integers.\<close>

definition check_spec ::
    "local_risk \<Rightarrow> order_command \<Rightarrow> quote option \<Rightarrow> quote option \<Rightarrow> local_risk \<times> risk_decision" where
  "check_spec r cmd best_bid best_ask =
     (let projected = sint (lr_current_position r) + signed_qty cmd
      in if uint (lr_max_qty_per_order r) < uint (oc_quantity cmd) then
           (r, Fail (qty_reason (oc_quantity cmd) (lr_max_qty_per_order r)))
         else if sint (lr_max_absolute_position r) < \<bar>projected\<bar> then
           (r, Fail (pos_reason (word_of_int projected) (lr_max_absolute_position r)))
         else case band_violation (lr_price_band_percentage r) cmd best_bid best_ask of
           Some reason \<Rightarrow> (r, Fail reason)
         | None \<Rightarrow> (r\<lparr>lr_current_position := word_of_int projected\<rparr>, Pass))"

lemma fits_i32: "fits_s (x :: i32) k \<longleftrightarrow> - (2 ^ 31) \<le> k \<and> k < 2 ^ 31"
  by (simp add: fits_s_def)

lemma abs_s_exact:
  fixes x :: i32
  assumes "\<bar>sint x\<bar> < 2 ^ 31"
  shows "\<exists>y. abs_s b x = Inr y \<and> sint y = \<bar>sint x\<bar>"
proof (cases "sint x < 0")
  case True
  then have "fits_s x (- sint x)" using assms by (simp add: fits_i32)
  then show ?thesis using True neg_s_exact [of x b] sint_neg_exact [of x] by (simp add: abs_s_def)
qed (simp add: abs_s_def)

lemma check_eq_spec:
  assumes "limits_ok r" "within_limit r"
  shows "check b r cmd best_bid best_ask = Inr (check_spec r cmd best_bid best_ask)"
proof (cases "lr_max_qty_per_order r < oc_quantity cmd")
  case True
  then show ?thesis by (simp add: check_def check_spec_def Let_def word_less_def)
next
  case False
  let ?q = "oc_quantity cmd" and ?p = "lr_current_position r" and ?M = "lr_max_absolute_position r"
  have q: "uint ?q \<le> uint (lr_max_qty_per_order r)" "0 \<le> uint ?q"
    using False by (simp_all add: word_less_def)
  have b: "uint ?q + sint ?M < 2 ^ 31" "0 \<le> sint ?M" "\<bar>sint ?p\<bar> \<le> sint ?M"
    using assms q by (auto simp: limits_ok_def within_limit_def)
  then have "uint ?q < 2 ^ 31" by linarith
  then have sq: "sint ?q = uint ?q" by (intro sint_eq_uint) simp
  have "fits_s ?q (- sint ?q)" 
    unfolding fits_i32 sq using b uint_ge_0 [of ?q] by (intro conjI; linarith)
  note neg = neg_s_exact [OF this, of b] sint_neg_exact [OF this]
  define delta where "delta = (if oc_side cmd = OrderBuy then ?q else - ?q)"
  have d: "(if oc_side cmd = OrderBuy then Inr ?q else neg_s b ?q) = Inr delta"
    "sint delta = signed_qty cmd"
    using neg sq by (auto simp: delta_def signed_qty_def split: order_side.splits)
  have small: "\<bar>signed_qty cmd\<bar> = uint ?q"
    by (simp add: signed_qty_def split: order_side.splits)
  have fit: "fits_s ?p (sint ?p + sint delta)" "\<bar>sint ?p + sint delta\<bar> < 2 ^ 31"
    using b small d(2) by (auto simp: fits_i32)
  have proj: "add_s b ?p delta = Inr (?p + delta)" "sint (?p + delta) = sint ?p + signed_qty cmd"
    using add_s_exact [OF fit(1)] sint_add_exact [OF fit(1)] d(2) by simp_all
  obtain a where a: "abs_s b (?p + delta) = Inr a" "sint a = \<bar>sint ?p + signed_qty cmd\<bar>"
    using abs_s_exact [of "?p + delta" b] proj(2) fit(2) d(2) by auto
  have w: "word_of_int (sint ?p + signed_qty cmd) = ?p + delta"
    unfolding proj(2) [symmetric] by simp
  have w2: "word_of_int (signed_qty cmd) = delta" unfolding d(2) [symmetric] by simp
  show ?thesis
    using False q
    by (simp add: check_def check_spec_def Let_def d(1) proj(1) a w w2 word_less_def
        split: option.splits)
qed

text \<open>C13: With sane limits and a position within them, the check never panics, and in both builds
  it decides as the specification over the integers does: quantity limit, then the position the
  order would lead to, then the price band; only a passing order changes the position.\<close>

theorem check_refines_spec:
  assumes "limits_ok r" "within_limit r"
  shows "check b r cmd best_bid best_ask = Inr (check_spec r cmd best_bid best_ask)"
  using assms by (rule check_eq_spec)

definition sample_order :: "order_side \<Rightarrow> u32 \<Rightarrow> order_command" where
  "sample_order sd p =
     \<lparr>oc_symbol_locate = 7, oc_order_id = 0, oc_price = p, oc_quantity = 100, oc_side = sd\<rparr>"

lemma sample_limits: "limits_ok (new_risk 1000 band 3500)" "within_limit (new_risk 1000 band 3500)"
  by (simp_all add: limits_ok_def within_limit_def new_risk_def)

theorem check_refines_spec_witness:
  "check Debug (new_risk 1000 (Fin 0 0) 3500) (sample_order OrderBuy 100) None None =
   Inr ((new_risk 1000 (Fin 0 0) 3500)\<lparr>lr_current_position := 100\<rparr>, Pass)"
  unfolding check_refines_spec [OF sample_limits]
  by (simp add: check_spec_def new_risk_def sample_order_def signed_qty_def band_violation_def)

lemma limits_ok_spec [simp]: "limits_ok (fst (check_spec r cmd bb ba)) = limits_ok r"
  by (simp add: check_spec_def limits_ok_def Let_def split: option.splits)

lemma max_position_spec [simp]:
  "lr_max_absolute_position (fst (check_spec r cmd bb ba)) = lr_max_absolute_position r"
  by (simp add: check_spec_def Let_def split: option.splits)

lemma sint_of_small: "\<bar>k\<bar> < 2 ^ 31 \<Longrightarrow> sint (word_of_int k :: i32) = k"
  by (intro sint_of_fits) (auto simp: fits_s_def)

lemma within_limit_spec:
  assumes "limits_ok r" "within_limit r"
  shows "within_limit (fst (check_spec r cmd bb ba))"
proof -
  have "sint (lr_max_absolute_position r) < 2 ^ 31"
    using assms(1) uint_ge_0 [of "lr_max_qty_per_order r"]
    unfolding limits_ok_def by linarith
  then show ?thesis
    using assms(2) sint_of_small [of "sint (lr_current_position r) + signed_qty cmd"]
    by (auto simp: check_spec_def within_limit_def Let_def split: option.splits)
qed

text \<open>A passing order moves the position by exactly its signed quantity.\<close>

lemma pass_moves_position:
  assumes "limits_ok r" "check_spec r cmd bb ba = (r', Pass)"
  shows "sint (lr_current_position r') = sint (lr_current_position r) + signed_qty cmd"
proof -
  have "sint (lr_max_absolute_position r) < 2 ^ 31"
    using assms(1) uint_ge_0 [of "lr_max_qty_per_order r"]
    unfolding limits_ok_def by linarith
  then show ?thesis
    using assms(2) sint_of_small [of "sint (lr_current_position r) + signed_qty cmd"]
    by (auto simp: check_spec_def Let_def split: option.splits if_splits)
qed

lemma fail_keeps_risk: "check_spec r cmd bb ba = (r', Fail reason) \<Longrightarrow> r' = r"
  by (auto simp: check_spec_def Let_def split: option.splits if_splits)

text \<open>A sequence of checks, as the processor of one symbol makes them.\<close>

fun check_all ::
    "build \<Rightarrow> local_risk \<Rightarrow> (order_command \<times> quote option \<times> quote option) list \<Rightarrow> local_risk res" where
  "check_all b r [] = Inr r"
| "check_all b r ((cmd, bb, ba) # cs) =
     r_bind (check b r cmd bb ba) (\<lambda>(r', _). check_all b r' cs)"

text \<open>C22: Whatever orders are checked, in whatever order and against whatever quotes, no check
  panics and the committed position stays within the position limit, long and short.\<close>

theorem position_never_exceeds_limit:
  assumes "limits_ok r" "within_limit r"
  shows "\<exists>r'. check_all b r cs = Inr r' \<and> within_limit r'"
  using assms
proof (induction cs arbitrary: r)
  case (Cons c cs)
  obtain cmd bb ba where c: "c = (cmd, bb, ba)" by (cases c) auto
  have "\<exists>r'. check_all b (fst (check_spec r cmd bb ba)) cs = Inr r' \<and> within_limit r'"
    using Cons.prems by (intro Cons.IH) (simp_all add: within_limit_spec)
  then show ?case
    using check_eq_spec [OF Cons.prems, of b cmd bb ba]
    by (auto simp: c split: prod.splits)
qed simp

theorem position_never_exceeds_limit_witness:
  "\<exists>r'. check_all Debug (new_risk 1000 (Fin 0 0) 150)
     [(sample_order OrderBuy 100, None, None), (sample_order OrderBuy 100, None, None)] = Inr r' \<and>
   within_limit r'"
  by (rule position_never_exceeds_limit) (simp_all add: limits_ok_def within_limit_def new_risk_def)

section \<open>The price band\<close>

text \<open>The band 0.02 the market handler configures.\<close>

definition band_002 :: fl where
  "band_002 = fl_lit f32 2 100"

lemma band_002_value: "band_002 = Fin 10737418 (- 29)"
  by (simp add: band_002_def fl_lit_def round_frac_def ulp_exp_def expo_def scaled_rne_def
      pow2_le_def rne_def f32_def bitlen.simps Let_def)

lemma one_plus_band: "fl_add f32 (fl_of_nat f32 1) band_002 = Fin 8556380 (- 23)"
  by (simp add: band_002_value fl_of_nat_def fl_sub_def round_dyadic_def round_frac_def
      ulp_exp_def expo_def scaled_rne_def pow2_le_def rne_def f32_def bitlen.simps Let_def)

lemma one_minus_band: "fl_sub f32 (fl_of_nat f32 1) band_002 = Fin 16441672 (- 24)"
  by (simp add: band_002_value fl_of_nat_def fl_sub_def round_dyadic_def round_frac_def
      ulp_exp_def expo_def scaled_rne_def pow2_le_def rne_def f32_def bitlen.simps Let_def)

text \<open>A price is clearly inside the band when it is inside 1.999999 percent and clearly outside when
  it is beyond 2.000001 percent of the opposite quote.\<close>

definition inside_band :: "order_command \<Rightarrow> quote option \<Rightarrow> quote option \<Rightarrow> bool" where
  "inside_band cmd best_bid best_ask \<longleftrightarrow>
     (case oc_side cmd of
        OrderBuy \<Rightarrow> (case best_ask of None \<Rightarrow> True
          | Some (a, _) \<Rightarrow> 1000000 * unat (oc_price cmd) \<le> 1019999 * unat a)
      | OrderSell \<Rightarrow> (case best_bid of None \<Rightarrow> True
          | Some (p, _) \<Rightarrow> 980001 * unat p \<le> 1000000 * unat (oc_price cmd)))"

definition outside_band :: "order_command \<Rightarrow> quote option \<Rightarrow> quote option \<Rightarrow> bool" where
  "outside_band cmd best_bid best_ask \<longleftrightarrow>
     (case oc_side cmd of
        OrderBuy \<Rightarrow> (case best_ask of None \<Rightarrow> False
          | Some (a, _) \<Rightarrow> 1020001 * unat a < 1000000 * unat (oc_price cmd))
      | OrderSell \<Rightarrow> (case best_bid of None \<Rightarrow> False
          | Some (p, _) \<Rightarrow> 1000000 * unat (oc_price cmd) < 979999 * unat p))"

lemma buy_limit:
  fixes a p :: nat
  assumes "a < 2 ^ 64" "p < 2 ^ 64"
  defines "limit \<equiv> fl_mul f32 (fl_of_nat f32 a) (fl_add f32 (fl_of_nat f32 1) band_002)"
  shows "1000000 * p \<le> 1019999 * a \<Longrightarrow> \<not> fl_less limit (fl_of_nat f32 p)"
    and "1020001 * a < 1000000 * p \<Longrightarrow> fl_less limit (fl_of_nat f32 p)"
proof -
  let ?c = "Fin 8556380 (- 23)"
  have c: "is_fin ?c" "fval ?c = 8556380 / 2 ^ 23" by (simp_all add: power_int_minus)
  have m: "is_fin limit" "real a * fval ?c * ((1 - 1 / 2 ^ 23) * (1 - 1 / 2 ^ 23)) \<le> fval limit"
    "fval limit \<le> real a * fval ?c * ((1 + 1 / 2 ^ 23) * (1 + 1 / 2 ^ 23))"
    unfolding limit_def one_plus_band using c assms(1) by (intro mul_f32_rel; simp)+
  note less = fl_less_iff [OF m(1) of_nat_f32_rel(1) [OF assms(2)]]
  show "1000000 * p \<le> 1019999 * a \<Longrightarrow> \<not> fl_less limit (fl_of_nat f32 p)"
    using m(2) of_nat_f32_rel(3) [OF assms(2)] unfolding less c(2) by simp
  show "1020001 * a < 1000000 * p \<Longrightarrow> fl_less limit (fl_of_nat f32 p)"
    using m(3) of_nat_f32_rel(2) [OF assms(2)] unfolding less c(2) by simp
qed

lemma sell_limit:
  fixes a p :: nat
  assumes "a < 2 ^ 64" "p < 2 ^ 64"
  defines "limit \<equiv> fl_mul f32 (fl_of_nat f32 a) (fl_sub f32 (fl_of_nat f32 1) band_002)"
  shows "980001 * a \<le> 1000000 * p \<Longrightarrow> \<not> fl_less (fl_of_nat f32 p) limit"
    and "1000000 * p < 979999 * a \<Longrightarrow> fl_less (fl_of_nat f32 p) limit"
proof -
  let ?c = "Fin 16441672 (- 24)"
  have c: "is_fin ?c" "fval ?c = 16441672 / 2 ^ 24" by (simp_all add: power_int_minus)
  have m: "is_fin limit" "real a * fval ?c * ((1 - 1 / 2 ^ 23) * (1 - 1 / 2 ^ 23)) \<le> fval limit"
    "fval limit \<le> real a * fval ?c * ((1 + 1 / 2 ^ 23) * (1 + 1 / 2 ^ 23))"
    unfolding limit_def one_minus_band using c assms(1) by (intro mul_f32_rel; simp)+
  note less = fl_less_iff [OF of_nat_f32_rel(1) [OF assms(2)] m(1)]
  show "980001 * a \<le> 1000000 * p \<Longrightarrow> \<not> fl_less (fl_of_nat f32 p) limit"
    using m(3) of_nat_f32_rel(2) [OF assms(2)] unfolding less c(2) by simp
  show "1000000 * p < 979999 * a \<Longrightarrow> fl_less (fl_of_nat f32 p) limit"
    using m(2) of_nat_f32_rel(3) [OF assms(2)] unfolding less c(2) by simp
qed

lemma unat_price_64: "unat (p :: u32) < 2 ^ 64"
  by (rule less_le_trans [OF unsigned_less]) simp

lemma inside_band_passes:
  assumes "band = band_002" "inside_band cmd best_bid best_ask"
  shows "band_violation band cmd best_bid best_ask = None"
  using assms buy_limit(1) [OF unat_u64_bound unat_price_64]
    sell_limit(1) [OF unat_u64_bound unat_price_64]
  by (auto simp: band_violation_def inside_band_def split: order_side.splits option.splits)

text \<open>C17: With the configured band 0.02, the single-precision test rejects every order whose price
  is worse than the opposite quote by more than 2.000001 percent and none whose price is within
  1.999999 percent of it, for all prices up to 64 bits: all the roundings of the test together
  (the conversions, 1 + 0.02 or 1 - 0.02, and the product) stay below one part in a million.\<close>

theorem price_band_two_percent:
  assumes "band = band_002"
  shows "(inside_band cmd best_bid best_ask \<longrightarrow> band_violation band cmd best_bid best_ask = None) \<and>
    (outside_band cmd best_bid best_ask \<longrightarrow> band_violation band cmd best_bid best_ask \<noteq> None)"
  using assms inside_band_passes [of band cmd best_bid best_ask]
    buy_limit(2) [OF unat_u64_bound unat_price_64] sell_limit(2) [OF unat_u64_bound unat_price_64]
  by (auto simp: band_violation_def outside_band_def split: order_side.splits option.splits)

theorem price_band_two_percent_witness:
  "band_violation band_002 (sample_order OrderBuy 101) None (Some (100, 5)) = None \<and>
   band_violation band_002 (sample_order OrderBuy 103) None (Some (100, 5)) \<noteq> None"
  using price_band_two_percent [of band_002 "sample_order OrderBuy 101" None "Some (100, 5)"]
    price_band_two_percent [of band_002 "sample_order OrderBuy 103" None "Some (100, 5)"]
  by (simp add: inside_band_def outside_band_def sample_order_def)

section \<open>The configured engine\<close>

definition risk_ok :: "local_risk \<Rightarrow> bool" where
  "risk_ok r \<longleftrightarrow> lr_max_qty_per_order r = 1000 \<and> lr_price_band_percentage r = band_002 \<and>
     lr_max_absolute_position r = 3500 \<and> \<bar>sint (lr_current_position r)\<bar> \<le> 3500"

lemma risk_ok_limits: "risk_ok r \<Longrightarrow> limits_ok r" and risk_ok_within: "risk_ok r \<Longrightarrow> within_limit r"
  by (simp_all add: risk_ok_def limits_ok_def within_limit_def)

lemma risk_ok_new [inv_intros]: "risk_ok (new_risk 1000 band_002 3500)"
  by (simp add: risk_ok_def new_risk_def)

lemma check_spec_settings:
  assumes "check_spec r cmd bb ba = (r', d)"
  shows "lr_max_qty_per_order r' = lr_max_qty_per_order r"
    "lr_price_band_percentage r' = lr_price_band_percentage r"
    "lr_max_absolute_position r' = lr_max_absolute_position r"
  using assms by (auto simp: check_spec_def Let_def split: option.splits if_splits)

lemma pass_small: "check_spec r cmd bb ba = (r', Pass) \<Longrightarrow> uint (oc_quantity cmd) \<le> uint (lr_max_qty_per_order r)"
  by (auto simp: check_spec_def Let_def split: option.splits if_splits)

lemma check_pass:
  assumes "risk_ok r" "check b r cmd bb ba = Inr (r', Pass)"
  shows "risk_ok r'" "sint (lr_current_position r') = sint (lr_current_position r) + signed_qty cmd"
    "uint (oc_quantity cmd) \<le> 1000"
proof -
  note lim = risk_ok_limits [OF assms(1)] risk_ok_within [OF assms(1)]
  have spec: "check_spec r cmd bb ba = (r', Pass)" using check_eq_spec [OF lim] assms(2) by simp
  have "within_limit r'" using within_limit_spec [OF lim] spec by (metis fst_conv)
  then show "risk_ok r'"
    using check_spec_settings [OF spec] assms(1) by (simp add: risk_ok_def within_limit_def)
  show "sint (lr_current_position r') = sint (lr_current_position r) + signed_qty cmd"
    using lim(1) spec by (rule pass_moves_position)
  show "uint (oc_quantity cmd) \<le> 1000"
    using pass_small [OF spec] assms(1) by (simp add: risk_ok_def)
qed

lemma band_ignores_id:
  "band_violation band (cmd\<lparr>oc_order_id := n\<rparr>) bb ba = band_violation band cmd bb ba"
  by (cases bb; cases ba) (auto simp: band_violation_def Let_def split: order_side.splits)

lemma check_ignores_id:
  "check b r (cmd\<lparr>oc_order_id := n\<rparr>) bb ba = check b r cmd bb ba"
  by (simp add: check_def band_ignores_id Let_def cong: if_cong)

lemma check_fail_same:
  "check b r cmd bb ba = Inr (r', Fail reason) \<Longrightarrow> r' = r"
  by (auto simp: check_def Let_def split: if_splits option.splits)

end
