(* ===== verification/Strategies.thy ===== *)
theory Strategies
  imports Common Rust_Float
begin

text \<open>
  \<open>crates/strategies/src/lib.rs\<close>: the \<open>Strategy\<close> trait and its implementation \<open>SimpleMidPoint\<close>,
  which trades on the imbalance of the best quotes and on the drift of their midpoint, in \<open>f64\<close>
  arithmetic. The second half proves that, for prices below \<open>2 ^ 52\<close> and the threshold 0.8 the
  applications use, the floating-point decision is exactly a decision on integers.
\<close>

type_synonym quote = "u64 \<times> u32"

text \<open>\<open>trait Strategy\<close>: both methods update the strategy and may return an order.\<close>

record 's strategy_ops =
  st_on_trade :: "'s \<Rightarrow> u64 \<Rightarrow> u32 \<Rightarrow> aggressor_side \<Rightarrow> ('s \<times> order_command option) res"
  st_on_book_update :: "'s \<Rightarrow> quote option \<Rightarrow> quote option \<Rightarrow> ('s \<times> order_command option) res"

section \<open>SimpleMidPoint\<close>

record simple_mid_point =
  sm_mid_price :: fl
  sm_prev_mid_price :: fl
  sm_trade_count :: u64
  sm_position :: i32
  sm_next_order_id :: u64
  sm_imbalance_threshold :: fl

definition new_mid_point :: "fl \<Rightarrow> simple_mid_point" where
  "new_mid_point threshold =
     \<lparr>sm_mid_price = Fin 0 0, sm_prev_mid_price = Fin 0 0, sm_trade_count = 0, sm_position = 0,
      sm_next_order_id = 1, sm_imbalance_threshold = threshold\<rparr>"

definition generate_id :: "build \<Rightarrow> simple_mid_point \<Rightarrow> (u64 \<times> simple_mid_point) res" where
  "generate_id b s =
     r_bind (add_u b (sm_next_order_id s) 1) (\<lambda>n.
     Inr (sm_next_order_id s, s\<lparr>sm_next_order_id := n\<rparr>))"

text \<open>The literal \<open>OrderCommand { symbol_locate: 0, order_id: self.generate_id(), .. }\<close>.\<close>

definition send_ioc ::
    "build \<Rightarrow> simple_mid_point \<Rightarrow> u64 \<Rightarrow> order_side \<Rightarrow> (simple_mid_point \<times> order_command option) res" where
  "send_ioc b s price sd =
     r_bind (generate_id b s) (\<lambda>(oid, s').
     Inr (s', Some \<lparr>oc_symbol_locate = 0, oc_order_id = oid, oc_price = ucast price,
                    oc_quantity = 100, oc_side = sd\<rparr>))"

definition on_book_update ::
    "build \<Rightarrow> simple_mid_point \<Rightarrow> quote option \<Rightarrow> quote option
     \<Rightarrow> (simple_mid_point \<times> order_command option) res" where
  "on_book_update b s best_bid best_ask =
     (case (best_bid, best_ask) of
        (Some (bid_price, bid_qty), Some (ask_price, ask_qty)) \<Rightarrow>
          r_bind (add_u b bid_price ask_price) (\<lambda>price_sum.
          let s1 = s\<lparr>sm_prev_mid_price := sm_mid_price s,
                     sm_mid_price := fl_div f64 (fl_of_nat f64 (unat price_sum)) (fl_of_nat f64 2)\<rparr>
          in r_bind (add_u b bid_qty ask_qty) (\<lambda>qty_sum.
          let total_qty = fl_of_nat f64 (unat qty_sum)
          in if fl_is_zero total_qty then Inr (s1, None)
             else
               let imbalance = fl_div f64 (fl_of_nat f64 (unat bid_qty)) total_qty
               in if fl_less (sm_imbalance_threshold s1) imbalance
                     \<and> fl_less (sm_prev_mid_price s1) (sm_mid_price s1)
                     \<and> sint (sm_position s1) \<le> 5000
                  then send_ioc b s1 ask_price OrderBuy
                  else if fl_less imbalance (fl_sub f64 (fl_of_nat f64 1) (sm_imbalance_threshold s1))
                     \<and> fl_less (sm_mid_price s1) (sm_prev_mid_price s1)
                     \<and> - 5000 < sint (sm_position s1)
                  then send_ioc b s1 bid_price OrderSell
                  else Inr (s1, None)))
      | _ \<Rightarrow> Inr (s, None))"

definition on_trade ::
    "build \<Rightarrow> simple_mid_point \<Rightarrow> u64 \<Rightarrow> u32 \<Rightarrow> aggressor_side
     \<Rightarrow> (simple_mid_point \<times> order_command option) res" where
  "on_trade b s price quantity sd =
     r_bind (add_u b (sm_trade_count s) 1) (\<lambda>n.
     r_bind (case sd of Buyer \<Rightarrow> add_s b (sm_position s) quantity
                      | Seller \<Rightarrow> sub_s b (sm_position s) quantity) (\<lambda>p.
     Inr (s\<lparr>sm_trade_count := n, sm_position := p\<rparr>, None)))"

definition mid_point_ops :: "build \<Rightarrow> simple_mid_point strategy_ops" where
  "mid_point_ops b = \<lparr>st_on_trade = on_trade b, st_on_book_update = on_book_update b\<rparr>"

section \<open>The midpoint is exact\<close>

lemma f64_prec: "ff_prec f64 = 53" "ff_emin f64 = - 1074" "ff_emax f64 = 1024"
  by (simp_all add: f64_def)

lemma half_exact:
  assumes "n \<le> 2 ^ 53"
  shows "is_fin (fl_div f64 (fl_of_nat f64 n) (fl_of_nat f64 2))"
    and "fval (fl_div f64 (fl_of_nat f64 n) (fl_of_nat f64 2)) = real n / 2"
proof -
  have n: "is_fin (fl_of_nat f64 n)" "fval (fl_of_nat f64 n) = real n"
    using of_nat_f64 [OF assms] .
  have two: "is_fin (fl_of_nat f64 2)" "fval (fl_of_nat f64 2) = 2"
    using of_nat_f64 [of 2] by simp_all
  have "real n \<le> 2 ^ 53" using assms by (metis of_nat_le_iff of_nat_numeral of_nat_power)
  then have le: "real n / 2 \<le> p2 (ff_emax f64 - 1)"
    using p2_large [of "real n / 2" 53 "ff_emax f64 - 1"] by (simp add: f64_prec)
  have r: "rounds f64 (real n / 2) (fl_div f64 (fl_of_nat f64 n) (fl_of_nat f64 2))"
    using rounds_div [OF format_ok_f64 n(1) two(1)] n(2) two(2) le by simp
  have v: "real n / 2 = real_of_int (int n) * p2 (- 1)" by (simp add: power_int_minus)
  have "representable f64 (real n / 2)"
    unfolding v
  proof (rule representable_mult_p2)
    have "p2 (ff_emax f64 - 1) < p2 (ff_emax f64)" by (simp add: power_int_strict_increasing)
    then show "real_of_int (int n) * p2 (- 1) < p2 (ff_emax f64)" using le v by linarith
    show "int n \<le> 2 ^ ff_prec f64"
      using assms by (metis f64_prec(1) of_nat_le_iff of_nat_numeral of_nat_power)
  qed (simp_all add: f64_prec)
  with r show "fval (fl_div f64 (fl_of_nat f64 n) (fl_of_nat f64 2)) = real n / 2"
    by (rule rounds_exact)
  show "is_fin (fl_div f64 (fl_of_nat f64 n) (fl_of_nat f64 2))" using r by (rule rounds_fin)
qed

section \<open>The imbalance test is exact\<close>

definition threshold_08 :: fl where
  "threshold_08 = fl_lit f64 8 10"

lemma threshold_08_value: "threshold_08 = Fin 7205759403792794 (- 53)"
  by (simp add: threshold_08_def fl_lit_def round_frac_def ulp_exp_def expo_def scaled_rne_def
      pow2_le_def rne_def f64_def bitlen.simps Let_def)

definition complement_08 :: fl where
  "complement_08 = fl_sub f64 (fl_of_nat f64 1) threshold_08"

lemma complement_08_value:
  "complement_08 = Fin 7205759403792792 (- 55)"
  by (simp add: complement_08_def threshold_08_value fl_of_nat_def fl_sub_def round_dyadic_def round_frac_def
      ulp_exp_def expo_def scaled_rne_def pow2_le_def rne_def f64_def bitlen.simps Let_def)

lemma f64_value:
  assumes "0 \<le> m" "m \<le> 2 ^ 53" "- 1074 \<le> e" "e \<le> 0"
  shows "representable f64 (fval (Fin m e))"
proof -
  have "real_of_int m \<le> 2 ^ 53"
    using assms(2) by (metis of_int_le_iff of_int_numeral of_int_power)
  moreover have "p2 e \<le> 1" using p2_mono [of e 0] assms(4) by simp
  ultimately have "real_of_int m * p2 e \<le> 2 ^ 53 * 1"
    using assms(1) by (intro mult_mono) (simp_all add: less_imp_le)
  also have "(2 :: real) ^ 53 * 1 < p2 (ff_emax f64)"
    using power_int_strict_increasing [of 53 1024 "2 :: real"] by (simp add: f64_prec)
  finally have "real_of_int m * p2 e < p2 (ff_emax f64)" .
  then show ?thesis
    using assms representable_mult_p2 [of m e f64] by (simp add: f64_prec)
qed

lemma p2_53: "p2 (- 53) = 1 / 9007199254740992" and p2_55: "p2 (- 55) = 1 / 36028797018963968"
  by (simp_all add: power_int_minus)

lemma ratio_above:
  assumes "4 * tot < 5 * bq" "0 < tot" "tot < (2 :: nat) ^ 32"
  shows "4 / 5 + 1 / 21474836480 \<le> real bq / real tot"
proof -
  have "4 * real tot + 1 \<le> 5 * real bq" using assms(1) by linarith
  then have "(4 * real tot + 1) / (5 * real tot) \<le> (5 * real bq) / (5 * real tot)"
    by (intro divide_right_mono) auto
  moreover have "(4 * real tot + 1) / (5 * real tot) = 4 / 5 + 1 / (5 * real tot)"
    using assms(2) by (simp add: add_divide_distrib)
  moreover have "1 / 21474836480 \<le> 1 / (5 * real tot)"
    using assms(2,3) by (intro divide_left_mono) auto
  ultimately show ?thesis by simp
qed

lemma ratio_below:
  assumes "5 * bq < tot" "tot < (2 :: nat) ^ 32"
  shows "real bq / real tot \<le> 1 / 5 - 1 / 21474836480"
proof -
  have "5 * real bq \<le> real tot - 1" using assms(1) by linarith
  then have "(5 * real bq) / (5 * real tot) \<le> (real tot - 1) / (5 * real tot)"
    by (intro divide_right_mono) auto
  moreover have "(real tot - 1) / (5 * real tot) = 1 / 5 - 1 / (5 * real tot)"
    using assms(1) by (simp add: diff_divide_distrib)
  moreover have "1 / 21474836480 \<le> 1 / (5 * real tot)"
    using assms by (intro divide_left_mono) auto
  ultimately show ?thesis by simp
qed

lemma buy_zone_iff:
  assumes v: "rounds f64 (real bq / real tot) v" and tot: "0 < tot" "tot < 2 ^ 32"
  shows "fl_less threshold_08 v \<longleftrightarrow> 4 * tot < 5 * bq"
proof -
  have less: "fl_less threshold_08 v \<longleftrightarrow> 7205759403792794 / 9007199254740992 < fval v"
    using rounds_fin [OF v] by (simp add: fl_less_iff threshold_08_value p2_53)
  show ?thesis
  proof
    assume "4 * tot < 5 * bq"
    then have "4 / 5 + 1 / 21474836480 \<le> real bq / real tot" using tot by (rule ratio_above)
    moreover have "fval (Fin 7205759403792795 (- 53)) \<le> 4 / 5 + 1 / 21474836480"
      by (simp add: p2_53)
    ultimately have "fval (Fin 7205759403792795 (- 53)) \<le> real bq / real tot" by linarith
    with v have "fval (Fin 7205759403792795 (- 53)) \<le> fval v"
      by (intro rounds_ge [OF v] f64_value) auto
    then show "fl_less threshold_08 v" by (simp add: less p2_53)
  next
    assume L: "fl_less threshold_08 v"
    show "4 * tot < 5 * bq"
    proof (rule ccontr)
      assume "\<not> 4 * tot < 5 * bq"
      then have "5 * real bq \<le> 4 * real tot" by linarith
      then have "real bq / real tot \<le> 4 / 5" using tot(1) by (simp add: field_simps)
      also have "4 / 5 \<le> fval (Fin 7205759403792794 (- 53))" by (simp add: p2_53)
      finally have "fval v \<le> fval (Fin 7205759403792794 (- 53))"
        by (intro rounds_le [OF v] f64_value) auto
      then show False using L by (simp add: less p2_53)
    qed
  qed
qed

lemma sell_zone_iff:
  assumes v: "rounds f64 (real bq / real tot) v" and tot: "0 < tot" "tot < 2 ^ 32"
  shows "fl_less v (complement_08) \<longleftrightarrow> 5 * bq < tot"
proof -
  have less: "fl_less v (complement_08) \<longleftrightarrow>
      fval v < 7205759403792792 / 36028797018963968"
    using rounds_fin [OF v] by (simp add: fl_less_iff complement_08_value p2_55)
  show ?thesis
  proof
    assume "5 * bq < tot"
    then have "real bq / real tot \<le> 1 / 5 - 1 / 21474836480" using tot(2) by (rule ratio_below)
    moreover have "1 / 5 - 1 / 21474836480 \<le> fval (Fin 7205759403792791 (- 55))"
      by (simp add: p2_55)
    ultimately have "real bq / real tot \<le> fval (Fin 7205759403792791 (- 55))" by linarith
    then have "fval v \<le> fval (Fin 7205759403792791 (- 55))"
      by (intro rounds_le [OF v] f64_value) auto
    then show "fl_less v (complement_08)" by (simp add: less p2_55)
  next
    assume L: "fl_less v (complement_08)"
    show "5 * bq < tot"
    proof (rule ccontr)
      assume "\<not> 5 * bq < tot"
      then have "real tot \<le> 5 * real bq" by linarith
      then have "1 / 5 \<le> real bq / real tot" using tot(1) by (simp add: field_simps)
      moreover have "fval (Fin 7205759403792792 (- 55)) \<le> 1 / 5" by (simp add: p2_55)
      ultimately have "fval (Fin 7205759403792792 (- 55)) \<le> real bq / real tot" by linarith
      then have "fval (Fin 7205759403792792 (- 55)) \<le> fval v"
        by (intro rounds_ge [OF v] f64_value) auto
      then show False using L by (simp add: less p2_55)
    qed
  qed
qed

section \<open>The decision on integers\<close>

datatype signal = Go_Long | Go_Short | Hold

text \<open>Buy when the buyers own more than 80% of the displayed volume and the midpoint rises, sell
  when they own less than 20% and it falls; \<open>prev\<close> is twice the previous midpoint.\<close>

definition signal_spec :: "nat \<Rightarrow> nat \<Rightarrow> nat \<Rightarrow> nat \<Rightarrow> nat \<Rightarrow> int \<Rightarrow> signal" where
  "signal_spec prev bid_price bid_qty ask_price ask_qty position =
     (if 4 * (bid_qty + ask_qty) < 5 * bid_qty \<and> prev < bid_price + ask_price \<and> position \<le> 5000
      then Go_Long
      else if 5 * bid_qty < bid_qty + ask_qty \<and> bid_price + ask_price < prev \<and> - 5000 < position
      then Go_Short
      else Hold)"

definition mid_is :: "simple_mid_point \<Rightarrow> nat \<Rightarrow> bool" where
  "mid_is s k \<longleftrightarrow> is_fin (sm_mid_price s) \<and> fval (sm_mid_price s) = real k / 2"

text \<open>The order of a signal, and the strategy after a book update.\<close>

definition signal_order :: "signal \<Rightarrow> u64 \<Rightarrow> u64 \<Rightarrow> u64 \<Rightarrow> order_command option" where
  "signal_order sg oid bid_price ask_price =
     (case sg of
        Go_Long \<Rightarrow> Some \<lparr>oc_symbol_locate = 0, oc_order_id = oid, oc_price = ucast ask_price,
                         oc_quantity = 100, oc_side = OrderBuy\<rparr>
      | Go_Short \<Rightarrow> Some \<lparr>oc_symbol_locate = 0, oc_order_id = oid, oc_price = ucast bid_price,
                          oc_quantity = 100, oc_side = OrderSell\<rparr>
      | Hold \<Rightarrow> None)"

definition after_update :: "simple_mid_point \<Rightarrow> nat \<Rightarrow> signal \<Rightarrow> simple_mid_point \<Rightarrow> bool" where
  "after_update s price_sum sg s' \<longleftrightarrow>
     mid_is s' price_sum \<and> sm_prev_mid_price s' = sm_mid_price s \<and>
     sm_position s' = sm_position s \<and> sm_trade_count s' = sm_trade_count s \<and>
     sm_imbalance_threshold s' = sm_imbalance_threshold s \<and>
     sm_next_order_id s' = (if sg = Hold then sm_next_order_id s else sm_next_order_id s + 1)"

lemma send_ioc_ok:
  assumes "unat (sm_next_order_id s) < 2 ^ 64 - 1"
  shows "send_ioc b s p sd = Inr (s\<lparr>sm_next_order_id := sm_next_order_id s + 1\<rparr>,
    Some \<lparr>oc_symbol_locate = 0, oc_order_id = sm_next_order_id s, oc_price = ucast p,
          oc_quantity = 100, oc_side = sd\<rparr>)"
  using assms by (simp add: send_ioc_def generate_id_def add_u_exact(1))

lemma imbalance_rounds:
  assumes "bq \<le> tot" "0 < tot" "tot < 2 ^ 32"
  shows "rounds f64 (real bq / real tot) (fl_div f64 (fl_of_nat f64 bq) (fl_of_nat f64 tot))"
proof -
  have b: "is_fin (fl_of_nat f64 bq)" "fval (fl_of_nat f64 bq) = real bq"
    and t: "is_fin (fl_of_nat f64 tot)" "fval (fl_of_nat f64 tot) = real tot"
    using of_nat_f64 [of bq] of_nat_f64 [of tot] assms by simp_all
  have "real bq / real tot \<le> 2 ^ 0" using assms by simp
  then have "real bq / real tot \<le> p2 (ff_emax f64 - 1)" by (rule p2_large) (simp add: f64_prec)
  then show ?thesis
    using rounds_div [OF format_ok_f64 b(1) t(1)] b(2) t(2) assms by simp
qed

text \<open>C10: For the threshold 0.8 the applications use, prices whose sum fits 53 bits and quantities
  whose sum fits 32 bits, the floating-point strategy decides exactly as the specification over
  the integers, without panic in either build: the rounded division, the rounded literals 0.8 and
  1 - 0.8 and the comparisons never change the outcome. The order goes to the opposite quote.\<close>

theorem on_book_update_exact:
  assumes thr: "sm_imbalance_threshold s = threshold_08" and mid: "mid_is s prev"
    and price: "unat bp + unat ap \<le> 2 ^ 53" and qty: "unat bq + unat aq < 2 ^ 32"
    and ids: "unat (sm_next_order_id s) < 2 ^ 64 - 1"
  defines "sg \<equiv> signal_spec prev (unat bp) (unat bq) (unat ap) (unat aq) (sint (sm_position s))"
  shows "\<exists>s'. on_book_update b s (Some (bp, bq)) (Some (ap, aq)) =
      Inr (s', signal_order sg (sm_next_order_id s) bp ap) \<and> after_update s (unat bp + unat ap) sg s'"
proof -
  let ?ps = "unat bp + unat ap" and ?tot = "unat bq + unat aq"
  have ps: "add_u b bp ap = Inr (bp + ap)" "unat (bp + ap) = ?ps"
    using add_u_exact(1) [of bp ap b] add_u_exact(2) [of bp ap] price by simp_all
  have qs: "add_u b bq aq = Inr (bq + aq)" "unat (bq + aq) = ?tot"
    using add_u_exact(1) [of bq aq b] add_u_exact(2) [of bq aq] qty by simp_all
  let ?mid = "fl_div f64 (fl_of_nat f64 ?ps) (fl_of_nat f64 2)"
  let ?imb = "fl_div f64 (fl_of_nat f64 (unat bq)) (fl_of_nat f64 ?tot)"
  let ?s1 = "s\<lparr>sm_prev_mid_price := sm_mid_price s, sm_mid_price := ?mid\<rparr>"
  note half = half_exact [OF price]
  have up: "fl_less (sm_mid_price s) ?mid \<longleftrightarrow> prev < ?ps"
    and down: "fl_less ?mid (sm_mid_price s) \<longleftrightarrow> ?ps < prev"
    using mid half unfolding mid_is_def by (simp_all add: fl_less_iff del: of_nat_add) linarith+
  have mid1: "mid_is ?s1 ?ps" using half by (simp add: mid_is_def)
  have ids1: "unat (sm_next_order_id ?s1) < 2 ^ 64 - 1" using ids by simp
  have comp: "fl_sub f64 (fl_of_nat f64 (Suc 0)) threshold_08 = complement_08"
    by (simp add: complement_08_def)
  have zero: "fl_is_zero (fl_of_nat f64 ?tot) \<longleftrightarrow> ?tot = 0"
    using of_nat_f64 [of ?tot] qty by (simp add: fl_is_zero_iff del: of_nat_add)
  show ?thesis
  proof (cases "?tot = 0")
    case True
    then have "sg = Hold" by (simp add: sg_def signal_spec_def)
    then show ?thesis
      using True mid1 zero
      by (simp add: on_book_update_def ps qs Let_def signal_order_def after_update_def mid_is_def)
  next
    case False
    then have tot: "0 < ?tot" "?tot < 2 ^ 32" using qty by auto
    have r: "rounds f64 (real (unat bq) / real ?tot) ?imb"
      using tot by (intro imbalance_rounds) auto
    note zones = buy_zone_iff [OF r tot] sell_zone_iff [OF r tot]
    show ?thesis
      using False mid1 zero zones up down thr
      by (simp add: on_book_update_def ps qs Let_def send_ioc_ok [OF ids1] sg_def signal_spec_def
          signal_order_def after_update_def mid_is_def comp)
  qed
qed

lemma mid_is_new: "mid_is (new_mid_point th) 0"
  by (simp add: mid_is_def new_mid_point_def)

theorem on_book_update_exact_witness:
  "\<exists>s'. on_book_update Debug (new_mid_point threshold_08) (Some (100, 90)) (Some (102, 10)) =
     Inr (s', signal_order Go_Long 1 100 102) \<and> after_update (new_mid_point threshold_08) 202 Go_Long s'"
proof -
  have "sm_imbalance_threshold (new_mid_point threshold_08) = threshold_08"
    by (simp add: new_mid_point_def)
  from on_book_update_exact [OF this mid_is_new, of 100 102 90 10 Debug]
  show ?thesis by (simp add: new_mid_point_def signal_spec_def)
qed

section \<open>Orders go to the touch\<close>

text \<open>An order at the touch buys at the best ask or sells at the best bid.\<close>

definition at_touch :: "quote option \<Rightarrow> quote option \<Rightarrow> order_command \<Rightarrow> bool" where
  "at_touch best_bid best_ask cmd \<longleftrightarrow>
     (case oc_side cmd of
        OrderBuy \<Rightarrow> (\<exists>q\<in>set_option best_ask. oc_price cmd = ucast (fst q))
      | OrderSell \<Rightarrow> (\<exists>q\<in>set_option best_bid. oc_price cmd = ucast (fst q)))"

text \<open>What the market handler may rely on, whatever strategy it runs: a book update only produces
  orders at the touch, of a bounded size.\<close>

locale quoting_strategy =
  fixes ops :: "'s strategy_ops" and size_limit :: nat
  assumes order_at_touch:
      "st_on_book_update ops s best_bid best_ask = Inr (s', Some cmd) \<Longrightarrow> at_touch best_bid best_ask cmd"
    and order_size:
      "st_on_book_update ops s best_bid best_ask = Inr (s', Some cmd) \<Longrightarrow>
       unat (oc_quantity cmd) \<le> size_limit"
begin

lemma order_needs_quote:
  assumes "st_on_book_update ops s best_bid best_ask = Inr (s', Some cmd)"
  shows "best_bid \<noteq> None \<or> best_ask \<noteq> None"
  using order_at_touch [OF assms] by (cases "oc_side cmd") (auto simp: at_touch_def)

end

lemma send_ioc_InrD:
  assumes "send_ioc b s p sd = Inr (s', Some cmd)"
  shows "oc_price cmd = ucast p \<and> oc_side cmd = sd \<and> oc_quantity cmd = 100 \<and>
    oc_order_id cmd = sm_next_order_id s \<and> s' = s\<lparr>sm_next_order_id := sm_next_order_id s + 1\<rparr>"
  using assms by (auto simp: send_ioc_def generate_id_def dest!: add_u_InrD)

lemma send_ioc_not_None [simp]: "send_ioc b s p sd \<noteq> Inr (s', None)"
  by (simp add: send_ioc_def split: prod.splits)

lemma book_update_order:
  assumes "on_book_update b s best_bid best_ask = Inr (s', Some cmd)"
  shows "at_touch best_bid best_ask cmd \<and> oc_quantity cmd = 100 \<and> best_bid \<noteq> None \<and> best_ask \<noteq> None"
  using assms
  by (auto simp: on_book_update_def at_touch_def Let_def split: option.splits prod.splits if_splits
      dest!: send_ioc_InrD)

interpretation mid: quoting_strategy "mid_point_ops b" 100
  by unfold_locales (auto simp: mid_point_ops_def dest: book_update_order)

text \<open>C37: In either build, from any state and for any quotes, an order of the strategy is for 100
  shares at the touch, needs both sides of the book, and is never sent when the strategy's own
  position is above 5000 (to buy) or at or below -5000 (to sell).\<close>

theorem book_update_order_safe:
  assumes "on_book_update b s best_bid best_ask = Inr (s', Some cmd)"
  shows "at_touch best_bid best_ask cmd \<and> oc_quantity cmd = 100 \<and>
    best_bid \<noteq> None \<and> best_ask \<noteq> None \<and>
    (if oc_side cmd = OrderBuy then sint (sm_position s) \<le> 5000 else - 5000 < sint (sm_position s))"
  using assms
  by (auto simp: on_book_update_def at_touch_def Let_def split: option.splits prod.splits if_splits
      dest!: send_ioc_InrD)

theorem book_update_order_safe_witness:
  "\<exists>s' cmd. on_book_update Release (new_mid_point threshold_08) (Some (100, 90)) (Some (102, 10)) =
     Inr (s', Some cmd) \<and> at_touch (Some (100, 90)) (Some (102, 10)) cmd"
proof -
  obtain s' cmd where u: "on_book_update Release (new_mid_point threshold_08) (Some (100, 90))
      (Some (102, 10)) = Inr (s', Some cmd)"
    by (simp add: on_book_update_def new_mid_point_def Let_def send_ioc_def generate_id_def
        threshold_08_value fl_of_nat_def round_dyadic_def round_frac_def ulp_exp_def expo_def
        scaled_rne_def pow2_le_def rne_def f64_def bitlen.simps)
  with book_update_order_safe [OF u] show ?thesis by blast
qed

text \<open>The displayed quantities are added in 32 bits. With 10 shares bid and 4294967291
  offered, the specification over the integers never buys (the buyers own next to nothing), but a
  release build sees a total of 5 and an imbalance of 2 and buys; a build with overflow checks
  panics.\<close>

lemma quantity_sum_overflow_flips_signal:
  "on_book_update Debug (new_mid_point threshold_08) (Some (100, 10)) (Some (102, 4294967291)) =
     Inl Arith_Overflow \<and>
   map_option oc_side (snd (projr
     (on_book_update Release (new_mid_point threshold_08) (Some (100, 10)) (Some (102, 4294967291))))) =
     Some OrderBuy \<and>
   signal_spec 0 100 10 102 4294967291 0 = Hold"
  by (simp add: on_book_update_def new_mid_point_def add_u_def Let_def send_ioc_def generate_id_def
      threshold_08_value signal_spec_def fl_of_nat_def round_dyadic_def round_frac_def
      ulp_exp_def expo_def scaled_rne_def pow2_le_def rne_def f64_def bitlen.simps)

end
