(* ===== verification/Market_Handler.thy ===== *)
theory Market_Handler
  imports Itch_Parser Orderbook Ticker Risk_Engine Strategies
begin

text \<open>
  \<open>crates/market-handler/src/lib.rs\<close>: the processor of one symbol, which applies a message to its
  book and ticker, asks its strategy for an order, checks the order and sends it, and reports its
  equity; and the market state, which routes raw packets to the processors through a table indexed
  by stock locate and feeds the confirmed orders back.

  The strategy, the exchange gateway and the telemetry writer are traits in the source: here they
  are records of operations over state types of their own. The lines printed on the console are
  not modelled.
\<close>

section \<open>State\<close>

text \<open>\<open>trait ExchangeGateway\<close>\<close>

record 'g gateway_ops =
  gw_send_order :: "'g \<Rightarrow> order_command \<Rightarrow> 'g res"
  gw_poll_confirmed_orders :: "'g \<Rightarrow> ('g \<times> execution_report option) res"
  gw_get_position :: "'g \<Rightarrow> u16 \<Rightarrow> i32"
  gw_get_cash_balance :: "'g \<Rightarrow> u16 \<Rightarrow> i64"

record 's symbol_processor =
  sp_symbol :: rstring
  sp_stock_locate :: u16
  sp_order_book :: l3_order_book
  sp_strategy :: 's
  sp_ticker :: trade_ticker
  sp_order_tracker :: "u64 set"
  sp_risk_engine :: local_risk
  sp_last_midpoint :: u32

text \<open>The table \<open>[i16; 65536]\<close> is indexed by a \<open>u16\<close>, so the index is always in range.\<close>

record ('s, 'w) market_state =
  ms_processors :: "'s symbol_processor list"
  ms_lookup_table :: "u16 \<Rightarrow> i16"
  ms_global_order_id_counter :: u64
  ms_telemetry_writer :: 'w
  ms_current_time_ns :: u64
  ms_midnight_today_ns :: u64

section \<open>The processor of one symbol\<close>

text \<open>The first match of \<open>handle_event\<close>. The aggressor of an execution is the opposite of the side
  that rested in the book.\<close>

fun aggressor_of_resting :: "side \<Rightarrow> aggressor_side" where
  "aggressor_of_resting Buy = Seller"
| "aggressor_of_resting Sell = Buyer"

fun aggressor_of_trade :: "side \<Rightarrow> aggressor_side" where
  "aggressor_of_trade Buy = Buyer"
| "aggressor_of_trade Sell = Seller"

definition trade_and_cancel ::
    "build \<Rightarrow> 's symbol_processor \<Rightarrow> u64 \<Rightarrow> u64 \<Rightarrow> u32 \<Rightarrow> u64 \<Rightarrow> aggressor_side
     \<Rightarrow> 's symbol_processor res" where
  "trade_and_cancel b p oid price quantity match_number sd =
     r_bind (add_trade b (sp_ticker p) price quantity match_number sd) (\<lambda>tt.
     r_bind (cancel_order b (sp_order_book p) oid quantity) (\<lambda>bk.
     Inr (p\<lparr>sp_ticker := tt, sp_order_book := bk\<rparr>)))"

fun apply_message ::
    "build \<Rightarrow> 's symbol_processor \<Rightarrow> itch_message \<Rightarrow> 's symbol_processor res" where
  "apply_message b p (AddOrder _ oid sd quantity price) =
     r_bind (add_order b (sp_order_book p) oid sd price quantity) (\<lambda>bk.
     Inr (p\<lparr>sp_order_book := bk\<rparr>))"
| "apply_message b p (ModifyOrder _ oid quantity_to_remove) =
     r_bind (cancel_order b (sp_order_book p) oid quantity_to_remove) (\<lambda>bk.
     Inr (p\<lparr>sp_order_book := bk\<rparr>))"
| "apply_message b p (Trade _ price quantity match_number bid) =
     r_bind (add_trade b (sp_ticker p) price quantity match_number (aggressor_of_trade bid)) (\<lambda>tt.
     Inr (p\<lparr>sp_ticker := tt\<rparr>))"
| "apply_message b p (DeleteOrder _ oid) =
     (case ob_orders (sp_order_book p) oid of
        None \<Rightarrow> Inr p
      | Some ord \<Rightarrow>
          r_bind (cancel_order b (sp_order_book p) oid (or_quantity ord)) (\<lambda>bk.
          Inr (p\<lparr>sp_order_book := bk\<rparr>)))"
| "apply_message b p (OrderExecuted _ oid quantity match_number) =
     (case ob_orders (sp_order_book p) oid of
        None \<Rightarrow> Inr p
      | Some ord \<Rightarrow>
          trade_and_cancel b p oid (or_price ord) quantity match_number
            (aggressor_of_resting (or_side ord)))"
| "apply_message b p (OrderExecutedWithPrice _ oid quantity price match_number) =
     (case ob_orders (sp_order_book p) oid of
        None \<Rightarrow> Inr p
      | Some ord \<Rightarrow>
          trade_and_cancel b p oid price quantity match_number
            (aggressor_of_resting (or_side ord)))"
| "apply_message b p (StockDirectory _ _) = Inr p"

text \<open>The second half of \<open>handle_event\<close>: ask the strategy, stamp the order with the processor's
  locate, check it, and if it passes stamp it with the next global order id, send it and remember
  the id. The strategy's own order id is overwritten.\<close>

definition run_strategy ::
    "build \<Rightarrow> 's strategy_ops \<Rightarrow> 'g gateway_ops \<Rightarrow> 's symbol_processor \<Rightarrow> 'g \<Rightarrow> u64
     \<Rightarrow> ('s symbol_processor \<times> 'g \<times> u64) res" where
  "run_strategy b st gw p g global_order_id =
     r_bind (st_on_book_update st (sp_strategy p)
               (get_best_bid (sp_order_book p)) (get_best_ask (sp_order_book p))) (\<lambda>(s', out).
     let p1 = p\<lparr>sp_strategy := s'\<rparr>
     in case out of
          None \<Rightarrow> Inr (p1, g, global_order_id)
        | Some cmd0 \<Rightarrow>
            let cmd = cmd0\<lparr>oc_symbol_locate := sp_stock_locate p1\<rparr>
            in r_bind (check b (sp_risk_engine p1) cmd
                         (get_best_bid (sp_order_book p1)) (get_best_ask (sp_order_book p1)))
                 (\<lambda>(risk, decision).
                 let p2 = p1\<lparr>sp_risk_engine := risk\<rparr>
                 in case decision of
                      Fail _ \<Rightarrow> Inr (p2, g, global_order_id)
                    | Pass \<Rightarrow>
                        r_bind (add_u b global_order_id 1) (\<lambda>next_id.
                        let cmd' = cmd\<lparr>oc_order_id := global_order_id\<rparr>
                        in r_bind (gw_send_order gw g cmd') (\<lambda>g'.
                           Inr (p2\<lparr>sp_order_tracker :=
                                  insert (oc_order_id cmd') (sp_order_tracker p2)\<rparr>, g', next_id)))))"

definition quote_price :: "quote option \<Rightarrow> u64" where
  "quote_price q = (case q of None \<Rightarrow> 0 | Some (price, _) \<Rightarrow> price)"

definition midpoint :: "build \<Rightarrow> l3_order_book \<Rightarrow> u32 res" where
  "midpoint b bk =
     (let current_bid = quote_price (get_best_bid bk); current_ask = quote_price (get_best_ask bk)
      in if 0 < current_bid \<and> 0 < current_ask then
           r_bind (add_u b current_bid current_ask) (\<lambda>total. Inr (ucast (total div 2)))
         else Inr 0)"

definition send_telemetry ::
    "build \<Rightarrow> 'g gateway_ops \<Rightarrow> 'w writer_ops \<Rightarrow> 's symbol_processor \<Rightarrow> 'w \<Rightarrow> 'g \<Rightarrow> u64
     \<Rightarrow> ('s symbol_processor \<times> 'w) res" where
  "send_telemetry b gw wr p w g current_time_ns =
     r_bind (midpoint b (sp_order_book p)) (\<lambda>current_midpoint.
     if 0 < current_midpoint \<and> current_midpoint \<noteq> sp_last_midpoint p then
       let p1 = p\<lparr>sp_last_midpoint := current_midpoint\<rparr>;
           cash = gw_get_cash_balance gw g (sp_stock_locate p1);
           pos = (scast (gw_get_position gw g (sp_stock_locate p1)) :: i64);
           price = (ucast current_midpoint :: i64)
       in r_bind (mul_s b pos price) (\<lambda>inventory.
          r_bind (add_s b cash inventory) (\<lambda>total_equity.
          r_bind (wr_write wr w (telemetry_bytes
            \<lparr>tp_timestamp_ns = current_time_ns, tp_realised_pnl = total_equity,
             tp_midpoint_px = current_midpoint,
             tp_position = gw_get_position gw g (sp_stock_locate p1),
             tp_latency_ns = 30, tp_locate_id = sp_stock_locate p1\<rparr>)) (\<lambda>w'.
          Inr (p1, w'))))
     else Inr (p, w))"

definition handle_event ::
    "build \<Rightarrow> 's strategy_ops \<Rightarrow> 'g gateway_ops \<Rightarrow> 'w writer_ops \<Rightarrow> 's symbol_processor
     \<Rightarrow> itch_message \<Rightarrow> 'w \<Rightarrow> 'g \<Rightarrow> u64 \<Rightarrow> u64 \<Rightarrow> ('s symbol_processor \<times> 'w \<times> 'g \<times> u64) res" where
  "handle_event b st gw wr p msg w g global_order_id current_time_ns =
     r_bind (apply_message b p msg) (\<lambda>p1.
     r_bind (run_strategy b st gw p1 g global_order_id) (\<lambda>(p2, g', next_id).
     r_bind (send_telemetry b gw wr p2 w g' current_time_ns) (\<lambda>(p3, w').
     Inr (p3, w', g', next_id))))"

section \<open>The market\<close>

definition new_processor :: "'s \<Rightarrow> rstring \<Rightarrow> 's symbol_processor" where
  "new_processor base_strategy name =
     \<lparr>sp_symbol = name, sp_stock_locate = 0, sp_order_book = new_book, sp_strategy = base_strategy,
      sp_ticker = new_ticker, sp_order_tracker = {}, sp_risk_engine = new_risk 1000 band_002 3500,
      sp_last_midpoint = 0\<rparr>"

text \<open>\<open>MarketState::new\<close>; the clock it reads (whole seconds since the epoch) is an argument.\<close>

definition new_market ::
    "build \<Rightarrow> rstring list \<Rightarrow> 's \<Rightarrow> 'w \<Rightarrow> u64 \<Rightarrow> ('s, 'w) market_state res" where
  "new_market b target_symbols base_strategy writer now_secs =
     (let seconds_since_midnight = now_secs mod 86400
      in r_bind (sub_u b now_secs seconds_since_midnight) (\<lambda>midnight_secs.
         r_bind (mul_u b midnight_secs 1000000000) (\<lambda>midnight_ns.
         Inr \<lparr>ms_processors = map (new_processor base_strategy) target_symbols,
              ms_lookup_table = (\<lambda>_. - 1), ms_global_order_id_counter = 0,
              ms_telemetry_writer = writer, ms_current_time_ns = 0,
              ms_midnight_today_ns = midnight_ns\<rparr>)))"

text \<open>\<open>iter().position(..)\<close>\<close>

fun position :: "('a \<Rightarrow> bool) \<Rightarrow> 'a list \<Rightarrow> nat option" where
  "position P [] = None"
| "position P (x # xs) = (if P x then Some 0 else map_option Suc (position P xs))"

definition clean_symbol :: "rstring \<Rightarrow> rstring" where
  "clean_symbol symbol = trim (trim_matches 0 symbol)"

definition handle_stock_directory ::
    "('s, 'w) market_state \<Rightarrow> u16 \<Rightarrow> rstring \<Rightarrow> ('s, 'w) market_state" where
  "handle_stock_directory m stock_locate symbol =
     (case position (\<lambda>p. sp_symbol p = clean_symbol symbol) (ms_processors m) of
        None \<Rightarrow> m
      | Some pos \<Rightarrow>
          m\<lparr>ms_processors := (ms_processors m)
              [pos := (ms_processors m ! pos)\<lparr>sp_stock_locate := stock_locate\<rparr>],
            ms_lookup_table := (ms_lookup_table m)(stock_locate := word_of_nat pos)\<rparr>)"

fun get_locate_from_msg :: "itch_message \<Rightarrow> u16" where
  "get_locate_from_msg (AddOrder stock_locate _ _ _ _) = stock_locate"
| "get_locate_from_msg (ModifyOrder stock_locate _ _) = stock_locate"
| "get_locate_from_msg (Trade stock_locate _ _ _ _) = stock_locate"
| "get_locate_from_msg (DeleteOrder stock_locate _) = stock_locate"
| "get_locate_from_msg (OrderExecuted stock_locate _ _ _) = stock_locate"
| "get_locate_from_msg (OrderExecutedWithPrice stock_locate _ _ _ _) = stock_locate"
| "get_locate_from_msg (StockDirectory stock_locate _) = stock_locate"

text \<open>\<open>slot as usize\<close> sign-extends to 64 bits: a negative slot is a huge index.\<close>

definition slot_index :: "i16 \<Rightarrow> nat" where
  "slot_index slot = unat (scast slot :: u64)"

text \<open>\<open>filter_message_for_symbols\<close>, with the arm of all messages but 'R' named.\<close>

definition dispatch_event ::
    "build \<Rightarrow> 's strategy_ops \<Rightarrow> 'g gateway_ops \<Rightarrow> 'w writer_ops \<Rightarrow> ('s, 'w) market_state
     \<Rightarrow> itch_message \<Rightarrow> 'g \<Rightarrow> (('s, 'w) market_state \<times> 'g) res" where
  "dispatch_event b st gw wr m msg g =
     (let slot_idx = ms_lookup_table m (get_locate_from_msg msg)
      in if slot_idx \<noteq> - 1 then
           r_bind (index (ms_processors m) (slot_index slot_idx)) (\<lambda>p.
           r_bind (handle_event b st gw wr p msg (ms_telemetry_writer m) g
                     (ms_global_order_id_counter m) (ms_current_time_ns m)) (\<lambda>(p', w', g', next_id).
           Inr (m\<lparr>ms_processors := (ms_processors m)[slot_index slot_idx := p'],
                  ms_telemetry_writer := w', ms_global_order_id_counter := next_id\<rparr>, g')))
         else Inr (m, g))"

definition filter_message_for_symbols ::
    "build \<Rightarrow> 's strategy_ops \<Rightarrow> 'g gateway_ops \<Rightarrow> 'w writer_ops \<Rightarrow> ('s, 'w) market_state
     \<Rightarrow> itch_message \<Rightarrow> 'g \<Rightarrow> (('s, 'w) market_state \<times> 'g) res" where
  "filter_message_for_symbols b st gw wr m msg g =
     (case msg of
        StockDirectory stock_locate symbol \<Rightarrow> Inr (handle_stock_directory m stock_locate symbol, g)
      | _ \<Rightarrow> dispatch_event b st gw wr m msg g)"

text \<open>The body of the loop of \<open>poll_confirmed_orders\<close>. Every confirmation is passed to the strategy
  as a buyer's trade; the strategy's answer is dropped.\<close>

definition confirm_order ::
    "'s strategy_ops \<Rightarrow> ('s, 'w) market_state \<Rightarrow> execution_report \<Rightarrow> ('s, 'w) market_state res" where
  "confirm_order st m r =
     (let slot_id = ms_lookup_table m (er_stock_locate r)
      in if slot_id \<noteq> - 1 then
           r_bind (index (ms_processors m) (slot_index slot_id)) (\<lambda>p.
           if er_order_id r \<in> sp_order_tracker p then
             r_bind (st_on_trade st (sp_strategy p) (ucast (er_last_price r)) (er_last_qty r) Buyer)
               (\<lambda>(s', _).
             Inr (m\<lparr>ms_processors := (ms_processors m)[slot_index slot_id :=
                 p\<lparr>sp_strategy := s', sp_order_tracker := sp_order_tracker p - {er_order_id r}\<rparr>]\<rparr>))
           else Inr m)
         else Inr m)"

text \<open>The loop runs as long as the gateway has confirmations: \<open>None\<close> is a loop that never ends.\<close>

partial_function (option) poll_confirmed_orders ::
    "'s strategy_ops \<Rightarrow> 'g gateway_ops \<Rightarrow> ('s, 'w) market_state \<Rightarrow> 'g
     \<Rightarrow> (('s, 'w) market_state \<times> 'g) res option" where
  "poll_confirmed_orders st gw m g =
     (case gw_poll_confirmed_orders gw g of
        Inl e \<Rightarrow> Some (Inl e)
      | Inr (g', None) \<Rightarrow> Some (Inr (m, g'))
      | Inr (g', Some r) \<Rightarrow>
          (case confirm_order st m r of
             Inl e \<Rightarrow> Some (Inl e)
           | Inr m' \<Rightarrow> poll_confirmed_orders st gw m' g'))"

text \<open>\<open>handle_raw_packet\<close> in its three parts: the clock, the message, the confirmations.\<close>

definition packet_time :: "build \<Rightarrow> u64 \<Rightarrow> byte list \<Rightarrow> u64 res" where
  "packet_time b midnight raw_data =
     r_bind (index raw_data 5) (\<lambda>x5. r_bind (index raw_data 6) (\<lambda>x6.
     r_bind (index raw_data 7) (\<lambda>x7. r_bind (index raw_data 8) (\<lambda>x8.
     r_bind (index raw_data 9) (\<lambda>x9. r_bind (index raw_data 10) (\<lambda>x10.
     let ns_since_midnight = from_be_bytes [0, 0, x5, x6, x7, x8, x9, x10]
     in add_u b midnight ns_since_midnight))))))"

definition handle_message ::
    "build \<Rightarrow> 's strategy_ops \<Rightarrow> 'g gateway_ops \<Rightarrow> 'w writer_ops \<Rightarrow> ('s, 'w) market_state
     \<Rightarrow> byte list \<Rightarrow> 'g \<Rightarrow> (('s, 'w) market_state \<times> 'g) res" where
  "handle_message b st gw wr m raw_data g =
     r_bind (packet_time b (ms_midnight_today_ns m) raw_data) (\<lambda>now.
     let m1 = m\<lparr>ms_current_time_ns := now\<rparr>
     in r_bind (parse_itch_message raw_data) (\<lambda>parsed.
        case parsed of
          None \<Rightarrow> Inr (m1, g)
        | Some msg \<Rightarrow> filter_message_for_symbols b st gw wr m1 msg g))"

definition handle_raw_packet ::
    "build \<Rightarrow> 's strategy_ops \<Rightarrow> 'g gateway_ops \<Rightarrow> 'w writer_ops \<Rightarrow> ('s, 'w) market_state
     \<Rightarrow> byte list \<Rightarrow> 'g \<Rightarrow> (('s, 'w) market_state \<times> 'g) res option" where
  "handle_raw_packet b st gw wr m raw_data g =
     (case handle_message b st gw wr m raw_data g of
        Inl e \<Rightarrow> Some (Inl e)
      | Inr (m', g') \<Rightarrow> poll_confirmed_orders st gw m' g')"

section \<open>One event\<close>

text \<open>What a run of the strategy can do: nothing but update the strategy, be rejected, or commit
  the position and send one order stamped with the global id.\<close>

definition quiet_run :: "'s symbol_processor \<Rightarrow> 's symbol_processor \<Rightarrow> bool" where
  "quiet_run p p' \<longleftrightarrow> p' = p\<lparr>sp_strategy := sp_strategy p'\<rparr>"

definition sent_run ::
    "build \<Rightarrow> 'g gateway_ops \<Rightarrow> 's symbol_processor \<Rightarrow> 'g \<Rightarrow> u64 \<Rightarrow> order_command
     \<Rightarrow> 's symbol_processor \<Rightarrow> 'g \<Rightarrow> bool" where
  "sent_run b gw p g n cmd p' g' \<longleftrightarrow>
     oc_symbol_locate cmd = sp_stock_locate p \<and> oc_order_id cmd = n \<and>
     gw_send_order gw g cmd = Inr g' \<and>
     (\<exists>risk. check b (sp_risk_engine p) cmd (get_best_bid (sp_order_book p))
              (get_best_ask (sp_order_book p)) = Inr (risk, Pass) \<and>
        p' = p\<lparr>sp_strategy := sp_strategy p', sp_risk_engine := risk,
              sp_order_tracker := insert n (sp_order_tracker p)\<rparr>)"

lemma run_strategy_cases:
  assumes "run_strategy b st gw p g n = Inr (p', g', n')"
  obtains (quiet) "quiet_run p p'" "g' = g" "n' = n"
  | (sent) cmd where "sent_run b gw p g n cmd p' g'" "add_u b n 1 = Inr n'"
proof -
  obtain s' out where upd: "st_on_book_update st (sp_strategy p) (get_best_bid (sp_order_book p))
      (get_best_ask (sp_order_book p)) = Inr (s', out)"
    using assms by (auto simp: run_strategy_def)
  show ?thesis
  proof (cases out)
    case None
    then have "quiet_run p p'" "g' = g" "n' = n"
      using assms upd by (auto simp: run_strategy_def quiet_run_def)
    then show ?thesis by (rule quiet)
  next
    case (Some cmd0)
    let ?cmd = "cmd0\<lparr>oc_symbol_locate := sp_stock_locate p\<rparr>"
    obtain risk dec where chk: "check b (sp_risk_engine p) ?cmd (get_best_bid (sp_order_book p))
        (get_best_ask (sp_order_book p)) = Inr (risk, dec)"
      using assms upd Some by (auto simp: run_strategy_def Let_def)
    show ?thesis
    proof (cases dec)
      case (Fail reason)
      then have "quiet_run p p'" "g' = g" "n' = n"
        using assms upd Some chk check_fail_same [of b "sp_risk_engine p" ?cmd]
        by (auto simp: run_strategy_def Let_def quiet_run_def)
      then show ?thesis by (rule quiet)
    next
      case Pass
      then have "sent_run b gw p g n (?cmd\<lparr>oc_order_id := n\<rparr>) p' g'" "add_u b n 1 = Inr n'"
        using assms upd Some chk
        by (auto simp: run_strategy_def Let_def sent_run_def check_ignores_id)
      then show ?thesis by (rule sent)
    qed
  qed
qed

lemma send_telemetry_frame:
  assumes "send_telemetry b gw wr p w g t = Inr (p', w')"
  shows "p' = p\<lparr>sp_last_midpoint := sp_last_midpoint p'\<rparr>"
  using assms by (auto simp: send_telemetry_def Let_def split: if_splits)

lemma apply_message_frame:
  assumes "apply_message b p msg = Inr p'"
  shows "p' = p\<lparr>sp_order_book := sp_order_book p', sp_ticker := sp_ticker p'\<rparr>"
  using assms by (cases msg) (auto simp: trade_and_cancel_def split: option.splits)

text \<open>The parts of an event, composed: only these three outcomes, and the book and the ticker are
  those the message alone produces.\<close>

lemma handle_event_parts:
  assumes "handle_event b st gw wr p msg w g n t = Inr (p', w', g', n')"
  obtains p1 p2 where "apply_message b p msg = Inr p1"
    and "run_strategy b st gw p1 g n = Inr (p2, g', n')"
    and "send_telemetry b gw wr p2 w g' t = Inr (p', w')"
  using assms by (auto simp: handle_event_def)


section \<open>The steps of the market\<close>

text \<open>The market and the gateway move by five kinds of steps. A raw packet is a sequence of them.\<close>

inductive market_step ::
    "build \<Rightarrow> 's strategy_ops \<Rightarrow> 'g gateway_ops \<Rightarrow> 'w writer_ops
     \<Rightarrow> ('s, 'w) market_state \<times> 'g \<Rightarrow> ('s, 'w) market_state \<times> 'g \<Rightarrow> bool"
  for b st gw wr where
  clock: "market_step b st gw wr (m, g) (m\<lparr>ms_current_time_ns := t\<rparr>, g)"
| directory: "market_step b st gw wr (m, g) (handle_stock_directory m loc name, g)"
| event: "ms_lookup_table m (get_locate_from_msg msg) = slot \<Longrightarrow> slot \<noteq> - 1 \<Longrightarrow>
    slot_index slot < length (ms_processors m) \<Longrightarrow>
    handle_event b st gw wr (ms_processors m ! slot_index slot) msg (ms_telemetry_writer m) g
      (ms_global_order_id_counter m) (ms_current_time_ns m) = Inr (p', w', g', next_id) \<Longrightarrow>
    market_step b st gw wr (m, g)
      (m\<lparr>ms_processors := (ms_processors m)[slot_index slot := p'],
         ms_telemetry_writer := w', ms_global_order_id_counter := next_id\<rparr>, g')"
| confirm: "gw_poll_confirmed_orders gw g = Inr (g', Some r) \<Longrightarrow> confirm_order st m r = Inr m' \<Longrightarrow>
    market_step b st gw wr (m, g) (m', g')"
| drained: "gw_poll_confirmed_orders gw g = Inr (g', None) \<Longrightarrow> market_step b st gw wr (m, g) (m, g')"

lemma dispatch_event_steps:
  assumes "dispatch_event b st gw wr m msg g = Inr (m', g')"
  shows "(market_step b st gw wr)\<^sup>*\<^sup>* (m, g) (m', g')"
proof (cases "ms_lookup_table m (get_locate_from_msg msg) = - 1")
  case True
  then show ?thesis using assms by (simp add: dispatch_event_def)
next
  case False
  define slot where "slot = ms_lookup_table m (get_locate_from_msg msg)"
  obtain p' w' n' where ev: "slot_index slot < length (ms_processors m)"
    "handle_event b st gw wr (ms_processors m ! slot_index slot) msg (ms_telemetry_writer m) g
      (ms_global_order_id_counter m) (ms_current_time_ns m) = Inr (p', w', g', n')"
    "m' = m\<lparr>ms_processors := (ms_processors m)[slot_index slot := p'],
         ms_telemetry_writer := w', ms_global_order_id_counter := n'\<rparr>"
    using assms False by (auto simp: dispatch_event_def Let_def index_Inr_iff slot_def)
  show ?thesis
    unfolding ev(3)
    by (rule r_into_rtranclp, rule market_step.event [OF _ _ ev(1,2)])
      (use False in \<open>simp_all add: slot_def\<close>)
qed

lemma filter_message_steps:
  assumes "filter_message_for_symbols b st gw wr m msg g = Inr (m', g')"
  shows "(market_step b st gw wr)\<^sup>*\<^sup>* (m, g) (m', g')"
  using assms
  by (cases msg)
    (auto simp: filter_message_for_symbols_def dispatch_event_steps
      intro: r_into_rtranclp [where r = "market_step b st gw wr", OF market_step.directory])

lemma poll_result_steps:
  assumes "poll_confirmed_orders st gw m g = Some res"
  shows "case res of Inl _ \<Rightarrow> True | Inr (m', g') \<Rightarrow> (market_step b st gw wr)\<^sup>*\<^sup>* (m, g) (m', g')"
  using assms
proof (induction rule: poll_confirmed_orders.raw_induct [rotated, consumes 1, case_names step])
  case (step poll st gw m g res)
  show ?case
    using step(2)
    by (auto split: sum.splits prod.splits option.splits dest!: step(1)
        intro: converse_rtranclp_into_rtranclp [where r = "market_step b st gw wr", OF market_step.confirm]
          r_into_rtranclp [where r = "market_step b st gw wr", OF market_step.drained])
qed

lemma poll_steps:
  assumes "poll_confirmed_orders st gw m g = Some (Inr (m', g'))"
  shows "(market_step b st gw wr)\<^sup>*\<^sup>* (m, g) (m', g')"
  using poll_result_steps [OF assms, of b wr] by simp

lemma handle_message_steps:
  assumes "handle_message b st gw wr m raw g = Inr (m', g')"
  shows "(market_step b st gw wr)\<^sup>*\<^sup>* (m, g) (m', g')"
proof -
  obtain now parsed where "parse_itch_message raw = Inr parsed"
    and body: "(case parsed of None \<Rightarrow> Inr (m\<lparr>ms_current_time_ns := now\<rparr>, g)
        | Some msg \<Rightarrow> filter_message_for_symbols b st gw wr (m\<lparr>ms_current_time_ns := now\<rparr>) msg g)
      = Inr (m', g')"
    using assms by (auto simp: handle_message_def Let_def)
  have "(market_step b st gw wr)\<^sup>*\<^sup>* (m\<lparr>ms_current_time_ns := now\<rparr>, g) (m', g')"
    using body by (auto split: option.splits dest: filter_message_steps)
  with market_step.clock show ?thesis by (rule converse_rtranclp_into_rtranclp)
qed

lemma handle_raw_packet_steps:
  assumes "handle_raw_packet b st gw wr m raw g = Some (Inr (m', g'))"
  shows "(market_step b st gw wr)\<^sup>*\<^sup>* (m, g) (m', g')"
proof -
  obtain m1 g1 where "handle_message b st gw wr m raw g = Inr (m1, g1)"
    and "poll_confirmed_orders st gw m1 g1 = Some (Inr (m', g'))"
    using assms by (auto simp: handle_raw_packet_def split: sum.splits prod.splits)
  then show ?thesis using handle_message_steps poll_steps by (metis rtranclp_trans)
qed

end
