(* ===== verification/Market_Properties.thy ===== *)
theory Market_Properties
  imports Market_Handler
begin

text \<open>
  What the market handler guarantees over whole sessions: the lookup table never points outside
  the processors, order ids are handed out one by one, every order respects the quantity limit,
  and the positions committed by the risk engines are the sums of the orders sent and stay within
  their limit. These hold for every strategy, gateway and packet sequence, as invariants of the
  steps of the market.
\<close>

section \<open>The lookup table\<close>

lemma slot_index_of_nat:
  assumes "i < 2 ^ 15"
  shows "slot_index (word_of_nat i) = i" "(word_of_nat i :: i16) \<noteq> - 1"
proof -
  have "fits_s (0 :: i16) (int i)" using assms by (simp add: fits_s_def)
  then have s: "sint (word_of_nat i :: i16) = int i"
    using sint_of_fits [of "0 :: i16" "int i"] by simp
  have "(scast (word_of_nat i :: i16) :: u64) = word_of_nat i"
    using arg_cong [OF s, of "word_of_int :: int \<Rightarrow> u64"] by simp
  moreover have "unat (word_of_nat i :: u64) = i"
    using assms by (simp add: unat_of_nat)
  ultimately show "slot_index (word_of_nat i) = i" by (simp add: slot_index_def)
  show "(word_of_nat i :: i16) \<noteq> - 1" using s by (metis of_nat_0_le_iff sint_n1 neg_0_le_iff_le not_one_le_zero)
qed

lemma position_Some:
  "position P xs = Some i \<Longrightarrow> i < length xs \<and> P (xs ! i) \<and> (\<forall>j<i. \<not> P (xs ! j))"
proof (induction xs arbitrary: i)
  case (Cons x xs)
  then show ?case by (cases i) (auto split: if_splits simp: less_Suc_eq_0_disj)
qed simp

lemma position_None: "position P xs = None \<longleftrightarrow> (\<forall>x\<in>set xs. \<not> P x)"
  by (induction xs) auto

definition table_ok :: "('s, 'w) market_state \<Rightarrow> bool" where
  "table_ok m \<longleftrightarrow> length (ms_processors m) \<le> 2 ^ 15 \<and>
     (\<forall>loc. ms_lookup_table m loc \<noteq> - 1 \<longrightarrow> slot_index (ms_lookup_table m loc) < length (ms_processors m))"

lemma table_ok_directory: "table_ok m \<Longrightarrow> table_ok (handle_stock_directory m loc name)"
  by (auto simp: table_ok_def handle_stock_directory_def slot_index_of_nat
      dest!: position_Some split: option.splits)

lemma confirm_order_frame:
  assumes "confirm_order st m r = Inr m'"
  shows "ms_lookup_table m' = ms_lookup_table m" "length (ms_processors m') = length (ms_processors m)"
    "ms_global_order_id_counter m' = ms_global_order_id_counter m"
  using assms by (auto simp: confirm_order_def Let_def split: if_splits)

lemma market_step_table_ok: "market_step b st gw wr x y \<Longrightarrow> table_ok (fst x) \<Longrightarrow> table_ok (fst y)"
  by (induction rule: market_step.induct)
    (auto simp: table_ok_directory, auto simp: table_ok_def confirm_order_frame)

lemma step_invariant:
  assumes "(market_step b st gw wr)\<^sup>*\<^sup>* x y" "I x"
    and "\<And>x y. market_step b st gw wr x y \<Longrightarrow> I x \<Longrightarrow> I y"
  shows "I y"
  using assms(1,2) by (induction rule: rtranclp_induct) (auto intro: assms(3))

lemma new_market_fields:
  assumes "new_market b names s w secs = Inr m"
  shows "ms_processors m = map (new_processor s) names" "ms_lookup_table m loc = - 1"
    "ms_global_order_id_counter m = 0"
  using assms by (auto simp: new_market_def Let_def)

section \<open>What one event can do\<close>

lemma handle_event_outcome:
  assumes "handle_event b st gw wr p msg w g n t = Inr (p', w', g', n')" "risk_ok (sp_risk_engine p)"
  obtains (quiet) "g' = g" "n' = n" "sp_risk_engine p' = sp_risk_engine p"
      "sp_order_tracker p' = sp_order_tracker p" "sp_symbol p' = sp_symbol p"
      "sp_stock_locate p' = sp_stock_locate p"
  | (sent) cmd where "gw_send_order gw g cmd = Inr g'" "add_u b n 1 = Inr n'"
      "oc_order_id cmd = n" "oc_symbol_locate cmd = sp_stock_locate p"
      "uint (oc_quantity cmd) \<le> 1000" "risk_ok (sp_risk_engine p')"
      "sint (lr_current_position (sp_risk_engine p')) =
         sint (lr_current_position (sp_risk_engine p)) + signed_qty cmd"
      "sp_order_tracker p' = insert n (sp_order_tracker p)" "sp_symbol p' = sp_symbol p"
      "sp_stock_locate p' = sp_stock_locate p"
proof -
  obtain p1 p2 where parts: "apply_message b p msg = Inr p1"
      "run_strategy b st gw p1 g n = Inr (p2, g', n')"
      "send_telemetry b gw wr p2 w g' t = Inr (p', w')"
    using assms(1) by (rule handle_event_parts)
  have f1: "sp_risk_engine p1 = sp_risk_engine p" "sp_order_tracker p1 = sp_order_tracker p"
    "sp_symbol p1 = sp_symbol p" "sp_stock_locate p1 = sp_stock_locate p"
    by (subst apply_message_frame [OF parts(1)], simp)+
  have f3: "sp_risk_engine p' = sp_risk_engine p2" "sp_order_tracker p' = sp_order_tracker p2"
    "sp_symbol p' = sp_symbol p2" "sp_stock_locate p' = sp_stock_locate p2"
    by (subst send_telemetry_frame [OF parts(3)], simp)+
  from parts(2) show ?thesis
  proof (cases rule: run_strategy_cases)
    case quiet
    then have q: "p2 = p1\<lparr>sp_strategy := sp_strategy p2\<rparr>" by (simp add: quiet_run_def)
    have "sp_risk_engine p2 = sp_risk_engine p1" "sp_order_tracker p2 = sp_order_tracker p1"
      "sp_symbol p2 = sp_symbol p1" "sp_stock_locate p2 = sp_stock_locate p1"
      by (subst q, simp)+
    with quiet(2,3) f1 f3 show ?thesis by (intro that(1)) simp_all
  next
    case (sent cmd)
    then obtain risk where risk: "check b (sp_risk_engine p1) cmd (get_best_bid (sp_order_book p1))
        (get_best_ask (sp_order_book p1)) = Inr (risk, Pass)"
      "p2 = p1\<lparr>sp_strategy := sp_strategy p2, sp_risk_engine := risk,
         sp_order_tracker := insert n (sp_order_tracker p1)\<rparr>"
      by (auto simp: sent_run_def)
    have f2: "sp_risk_engine p2 = risk" "sp_order_tracker p2 = insert n (sp_order_tracker p1)"
      "sp_symbol p2 = sp_symbol p1" "sp_stock_locate p2 = sp_stock_locate p1"
      by (subst risk(2), simp)+
    have "risk_ok (sp_risk_engine p1)" using assms(2) f1 by simp
    note pass = check_pass [OF this risk(1)]
    show ?thesis
      using sent f1 f2 f3 pass by (intro that(2) [of cmd]) (simp_all add: sent_run_def)
  qed
qed

section \<open>A log of the orders sent\<close>

text \<open>Any gateway, instrumented with the list of the orders it was given.\<close>

definition logged :: "'g gateway_ops \<Rightarrow> ('g \<times> order_command list) gateway_ops" where
  "logged gw =
     \<lparr>gw_send_order = (\<lambda>(g, sends) cmd. r_bind (gw_send_order gw g cmd) (\<lambda>g'. Inr (g', sends @ [cmd]))),
      gw_poll_confirmed_orders =
        (\<lambda>(g, sends). r_bind (gw_poll_confirmed_orders gw g) (\<lambda>(g', r). Inr ((g', sends), r))),
      gw_get_position = (\<lambda>(g, sends). gw_get_position gw g),
      gw_get_cash_balance = (\<lambda>(g, sends). gw_get_cash_balance gw g)\<rparr>"

text \<open>The log only observes: every step of the market is a step with the log, from any log.\<close>

lemma logged_erased:
  "map_sum id (\<lambda>(p', g', n'). (p', fst g', n')) (run_strategy b st (logged gw) p (g, sends) n) =
   run_strategy b st gw p g n"
  by (auto simp: run_strategy_def logged_def Let_def
      split: r_bind_split option.split risk_decision.split prod.split)

lemma logged_run_strategy:
  assumes "run_strategy b st gw p g n = Inr (p', g', n')"
  shows "\<exists>sends'. run_strategy b st (logged gw) p (g, sends) n = Inr (p', (g', sends'), n')"
  using assms unfolding logged_erased [symmetric, of b st gw p g n sends]
  by (cases "run_strategy b st (logged gw) p (g, sends) n") auto

lemma logged_telemetry:
  "send_telemetry b (logged gw) wr p w (g, sends) t = send_telemetry b gw wr p w g t"
  by (simp add: send_telemetry_def logged_def Let_def cong: if_cong)

lemma logged_event:
  assumes "handle_event b st gw wr p msg w g n t = Inr (p', w', g', n')"
  shows "\<exists>sends'. handle_event b st (logged gw) wr p msg w (g, sends) n t = Inr (p', w', (g', sends'), n')"
proof -
  obtain p1 p2 where parts: "apply_message b p msg = Inr p1" "run_strategy b st gw p1 g n = Inr (p2, g', n')"
    "send_telemetry b gw wr p2 w g' t = Inr (p', w')"
    using assms by (rule handle_event_parts)
  obtain sends' where "run_strategy b st (logged gw) p1 (g, sends) n = Inr (p2, (g', sends'), n')"
    using logged_run_strategy [OF parts(2)] by blast
  then show ?thesis using parts(1,3) by (auto simp: handle_event_def logged_telemetry)
qed

lemma logged_step:
  assumes "market_step b st gw wr x y"
  shows "\<exists>sends'. market_step b st (logged gw) wr (fst x, (snd x, sends)) (fst y, (snd y, sends'))"
  using assms
proof (induction rule: market_step.induct)
  case (event m msg slot g p' w' g' next_id)
  then show ?case
    using logged_event [OF event(4), of sends] by (auto intro: market_step.event)
next
  case (confirm g g' r m m')
  then have "gw_poll_confirmed_orders (logged gw) (g, sends) = Inr ((g', sends), Some r)"
    by (simp add: logged_def)
  from market_step.confirm [where wr = wr, OF this confirm(2)] show ?case by auto
next
  case (drained g g' m)
  then have "gw_poll_confirmed_orders (logged gw) (g, sends) = Inr ((g', sends), None)"
    by (simp add: logged_def)
  from market_step.drained [where wr = wr, OF this] show ?case by auto
qed (auto intro: market_step.intros)

lemma logged_steps:
  assumes "(market_step b st gw wr)\<^sup>*\<^sup>* (m, g) (m', g')"
  shows "\<exists>sends'. (market_step b st (logged gw) wr)\<^sup>*\<^sup>* (m, (g, sends)) (m', (g', sends'))"
  using assms
proof (induction rule: rtranclp_induct2)
  case (step m1 g1 m2 g2)
  then obtain sends1 where "(market_step b st (logged gw) wr)\<^sup>*\<^sup>* (m, (g, sends)) (m1, (g1, sends1))" by blast
  moreover obtain sends2 where "market_step b st (logged gw) wr (m1, (g1, sends1)) (m2, (g2, sends2))"
    using logged_step [OF step(2), of sends1] by auto
  ultimately show ?case by (meson rtranclp.rtrancl_into_rtrancl)
qed auto

text \<open>The packets of a session, one after the other.\<close>

fun run_packets ::
    "build \<Rightarrow> 's strategy_ops \<Rightarrow> 'g gateway_ops \<Rightarrow> 'w writer_ops \<Rightarrow> ('s, 'w) market_state \<Rightarrow> 'g
     \<Rightarrow> byte list list \<Rightarrow> (('s, 'w) market_state \<times> 'g) res option" where
  "run_packets b st gw wr m g [] = Some (Inr (m, g))"
| "run_packets b st gw wr m g (raw # packets) =
     (case handle_raw_packet b st gw wr m raw g of
        None \<Rightarrow> None
      | Some (Inl e) \<Rightarrow> Some (Inl e)
      | Some (Inr (m', g')) \<Rightarrow> run_packets b st gw wr m' g' packets)"

lemma run_packets_steps:
  "run_packets b st gw wr m g packets = Some (Inr (m', g')) \<Longrightarrow>
   (market_step b st gw wr)\<^sup>*\<^sup>* (m, g) (m', g')"
proof (induction b st gw wr m g packets rule: run_packets.induct)
  case (2 b st gw wr m g raw packets)
  then obtain m1 g1 where "handle_raw_packet b st gw wr m raw g = Some (Inr (m1, g1))"
    and "run_packets b st gw wr m1 g1 packets = Some (Inr (m', g'))"
    by (auto split: option.splits sum.splits)
  then show ?case using 2(1) handle_raw_packet_steps by (metis rtranclp_trans)
qed simp

text \<open>Not only the steps: a session itself is the same session with the log.\<close>

lemma logged_message:
  assumes "handle_message b st gw wr m raw g = Inr (m', g')"
  shows "\<exists>sends'. handle_message b st (logged gw) wr m raw (g, sends) = Inr (m', (g', sends'))"
proof -
  have dispatch: "\<exists>sends'. dispatch_event b st (logged gw) wr m1 msg (g, sends) = Inr (m', (g', sends'))"
    if run: "dispatch_event b st gw wr m1 msg g = Inr (m', g')" for m1 msg
  proof (cases "ms_lookup_table m1 (get_locate_from_msg msg) = - 1")
    case False
    let ?i = "slot_index (ms_lookup_table m1 (get_locate_from_msg msg))"
    obtain p p' w' n' where p: "index (ms_processors m1) ?i = Inr p"
      and ev: "handle_event b st gw wr p msg (ms_telemetry_writer m1) g (ms_global_order_id_counter m1)
        (ms_current_time_ns m1) = Inr (p', w', g', n')"
      and m': "m' = m1\<lparr>ms_processors := (ms_processors m1)[?i := p'], ms_telemetry_writer := w',
        ms_global_order_id_counter := n'\<rparr>"
      using run False by (auto simp: dispatch_event_def Let_def)
    then show ?thesis
      using logged_event [OF ev, of sends] False by (auto simp: dispatch_event_def Let_def)
  qed (use run in \<open>auto simp: dispatch_event_def\<close>)
  obtain now parsed where now: "packet_time b (ms_midnight_today_ns m) raw = Inr now"
    "parse_itch_message raw = Inr parsed"
    using assms by (auto simp: handle_message_def Let_def)
  show ?thesis
  proof (cases parsed)
    case None
    then show ?thesis using assms now by (auto simp: handle_message_def Let_def)
  next
    case (Some msg)
    then have "filter_message_for_symbols b st gw wr (m\<lparr>ms_current_time_ns := now\<rparr>) msg g = Inr (m', g')"
      using assms now by (simp add: handle_message_def Let_def)
    then show ?thesis
      using now Some dispatch by (cases msg) (auto simp: handle_message_def filter_message_for_symbols_def Let_def)
  qed
qed

lemma logged_poll:
  "poll_confirmed_orders st gw m g = Some result \<Longrightarrow>
   poll_confirmed_orders st (logged gw) m (g, sends) =
     Some (case result of Inl e \<Rightarrow> Inl e | Inr (m', g') \<Rightarrow> Inr (m', (g', sends)))"
proof (induction rule: poll_confirmed_orders.raw_induct [rotated, consumes 1, case_names step])
  case (step poll st gw m g result)
  show ?case
    using step(2)
    by (subst poll_confirmed_orders.simps)
      (auto simp: logged_def split: sum.splits prod.splits option.splits dest!: step(1))
qed

lemma logged_run_packets:
  "run_packets b st gw wr m g packets = Some (Inr (m', g')) \<Longrightarrow>
   \<exists>sends'. run_packets b st (logged gw) wr m (g, sends) packets = Some (Inr (m', (g', sends')))"
proof (induction packets arbitrary: m g sends)
  case (Cons raw packets)
  then obtain m1 g1 where step: "handle_raw_packet b st gw wr m raw g = Some (Inr (m1, g1))"
    and rest: "run_packets b st gw wr m1 g1 packets = Some (Inr (m', g'))"
    by (auto split: option.splits sum.splits)
  obtain m0 g0 where msg: "handle_message b st gw wr m raw g = Inr (m0, g0)"
    and poll: "poll_confirmed_orders st gw m0 g0 = Some (Inr (m1, g1))"
    using step by (auto simp: handle_raw_packet_def split: sum.splits prod.splits)
  obtain sends1 where "handle_message b st (logged gw) wr m raw (g, sends) = Inr (m0, (g0, sends1))"
    using logged_message [OF msg] by blast
  then have "handle_raw_packet b st (logged gw) wr m raw (g, sends) = Some (Inr (m1, (g1, sends1)))"
    using logged_poll [OF poll, of sends1] by (simp add: handle_raw_packet_def)
  then show ?case using Cons.IH [OF rest, of sends1] by simp
qed simp

definition processor_position :: "'s symbol_processor \<Rightarrow> int" where
  "processor_position p = sint (lr_current_position (sp_risk_engine p))"

definition total_position :: "('s, 'w) market_state \<Rightarrow> int" where
  "total_position m = sum_list (map processor_position (ms_processors m))"

definition order_ids :: "order_command list \<Rightarrow> u64 set" where
  "order_ids sends = oc_order_id ` set sends"

text \<open>The invariant of a logged session.\<close>

definition session_inv :: "rstring list \<Rightarrow> ('s, 'w) market_state \<times> 'g \<times> order_command list \<Rightarrow> bool" where
  "session_inv names x \<longleftrightarrow>
     (case x of (m, g, sends) \<Rightarrow>
        map sp_symbol (ms_processors m) = names \<and>
        (\<forall>p\<in>set (ms_processors m). risk_ok (sp_risk_engine p) \<and> sp_order_tracker p \<subseteq> order_ids sends) \<and>
        map oc_order_id sends = map word_of_nat [0..<length sends] \<and>
        ms_global_order_id_counter m = word_of_nat (length sends) \<and>
        (\<forall>cmd\<in>set sends. uint (oc_quantity cmd) \<le> 1000) \<and>
        sum_list (map signed_qty sends) = total_position m)"

lemma session_inv_new:
  "new_market b names s w secs = Inr m \<Longrightarrow> session_inv names (m, g, [])"
  using new_market_fields [of b names s w secs m]
  by (auto simp: session_inv_def total_position_def processor_position_def new_processor_def
      risk_ok_new comp_def) (simp add: new_risk_def)


lemma confirm_order_cases:
  assumes "confirm_order st m r = Inr m'"
  obtains (ignored) "m' = m"
  | (confirmed) i s' where "i < length (ms_processors m)"
      "i = slot_index (ms_lookup_table m (er_stock_locate r))"
      "er_order_id r \<in> sp_order_tracker (ms_processors m ! i)"
      "m' = m\<lparr>ms_processors := (ms_processors m)[i := (ms_processors m ! i)
         \<lparr>sp_strategy := s', sp_order_tracker := sp_order_tracker (ms_processors m ! i) - {er_order_id r}\<rparr>]\<rparr>"
proof -
  let ?slot = "ms_lookup_table m (er_stock_locate r)" and ?i = "slot_index (ms_lookup_table m (er_stock_locate r))"
  show ?thesis
  proof (cases "?slot \<noteq> - 1 \<and> ?i < length (ms_processors m) \<and>
      er_order_id r \<in> sp_order_tracker (ms_processors m ! ?i)")
    case True
    then obtain s' x where "st_on_trade st (sp_strategy (ms_processors m ! ?i)) (ucast (er_last_price r))
        (er_last_qty r) Buyer = Inr (s', x)"
      using assms by (auto simp: confirm_order_def Let_def)
    then show ?thesis using True assms by (intro confirmed [of ?i s']) (simp_all add: confirm_order_def Let_def)
  next
    case False
    then have "m' = m" using assms by (auto simp: confirm_order_def Let_def index_Inr_iff split: if_splits)
    then show ?thesis by (rule ignored)
  qed
qed

text \<open>Replacing a processor by one with the same symbol, risk state and a smaller tracker.\<close>

lemma session_inv_replace:
  assumes inv: "session_inv names (m, g, sends)" and i: "i < length (ms_processors m)"
    and same: "sp_symbol p' = sp_symbol (ms_processors m ! i)"
      "sp_risk_engine p' = sp_risk_engine (ms_processors m ! i)"
      "sp_order_tracker p' \<subseteq> sp_order_tracker (ms_processors m ! i)"
    and m': "ms_processors m' = (ms_processors m)[i := p']"
      "ms_global_order_id_counter m' = ms_global_order_id_counter m"
  shows "session_inv names (m', g', sends)"
proof -
  let ?p = "ms_processors m ! i"
  have "?p \<in> set (ms_processors m)" using i by simp
  then have p: "risk_ok (sp_risk_engine ?p)" "sp_order_tracker ?p \<subseteq> order_ids sends"
    using inv by (auto simp: session_inv_def)
  have "processor_position p' = processor_position ?p" using same(2) by (simp add: processor_position_def)
  then have "total_position m' = total_position m"
    using i by (simp add: total_position_def m' map_update_same)
  moreover have "\<forall>p\<in>set (ms_processors m'). risk_ok (sp_risk_engine p) \<and> sp_order_tracker p \<subseteq> order_ids sends"
    unfolding m' using inv p same by (intro ball_update) (auto simp: session_inv_def)
  ultimately show ?thesis
    using inv i same(1) m' by (simp add: session_inv_def map_update_same)
qed

lemma session_inv_sent:
  assumes inv: "session_inv names (m, g, sends)" and i: "i < length (ms_processors m)"
    and p': "sp_symbol p' = sp_symbol (ms_processors m ! i)" "risk_ok (sp_risk_engine p')"
      "processor_position p' = processor_position (ms_processors m ! i) + signed_qty cmd"
      "sp_order_tracker p' = insert (ms_global_order_id_counter m) (sp_order_tracker (ms_processors m ! i))"
    and cmd: "oc_order_id cmd = ms_global_order_id_counter m" "uint (oc_quantity cmd) \<le> 1000"
    and m': "ms_processors m' = (ms_processors m)[i := p']"
      "ms_global_order_id_counter m' = ms_global_order_id_counter m + 1"
  shows "session_inv names (m', g', sends @ [cmd])"
proof -
  let ?p = "ms_processors m ! i"
  have "?p \<in> set (ms_processors m)" using i by simp
  then have p: "sp_order_tracker ?p \<subseteq> order_ids sends" using inv by (auto simp: session_inv_def)
  have "total_position m' = total_position m + signed_qty cmd"
    using i p'(3) by (simp add: total_position_def m' map_update sum_list_update_int)
  moreover have "\<forall>p\<in>set (ms_processors m'). risk_ok (sp_risk_engine p) \<and>
      sp_order_tracker p \<subseteq> order_ids (sends @ [cmd])"
    unfolding m' using inv p p' cmd(1) by (intro ball_update) (auto simp: session_inv_def order_ids_def)
  ultimately show ?thesis
    using inv i p'(1) cmd m' by (simp add: session_inv_def map_update_same)
qed

lemma session_inv_step:
  assumes "market_step b st (logged gw) wr x y" "session_inv names x"
  shows "session_inv names y"
  using assms
proof (induction rule: market_step.induct)
  case (clock m g t)
  then show ?case by (cases g) (simp add: session_inv_def total_position_def)
next
  case (directory m g loc name)
  obtain g0 sends where g: "g = (g0, sends)" by (cases g)
  show ?case
  proof (cases "position (\<lambda>p. sp_symbol p = clean_symbol name) (ms_processors m)")
    case None
    then show ?thesis using directory by (simp add: handle_stock_directory_def)
  next
    case (Some i)
    then have "i < length (ms_processors m)" by (simp add: position_Some)
    with directory show ?thesis
      unfolding g by (rule session_inv_replace) (simp_all add: handle_stock_directory_def Some)
  qed
next
  case (event m msg slot g p' w' g' n')
  obtain g0 sends where g: "g = (g0, sends)" by (cases g)
  let ?p = "ms_processors m ! slot_index slot"
  have "risk_ok (sp_risk_engine ?p)" using event by (auto simp: session_inv_def g)
  from event(4) this show ?case
  proof (cases rule: handle_event_outcome)
    case quiet
    then have g': "g' = (g0, sends)" by (simp add: g)
    show ?thesis
      unfolding g' by (rule session_inv_replace [OF event(5) [unfolded g] event(3)]) (use quiet in simp_all)
  next
    case (sent cmd)
    then obtain g1 where g': "g' = (g1, sends @ [cmd])" by (auto simp: logged_def g)
    have "n' = ms_global_order_id_counter m + 1" using sent(2) by (rule add_u_InrD)
    with sent event(3,5) show ?thesis
      unfolding g g'
      by (intro session_inv_sent [where i = "slot_index slot"]) (simp_all add: processor_position_def)
  qed
next
  case (confirm g g' r m m')
  obtain g0 sends where g: "g = (g0, sends)" by (cases g)
  then obtain g1 where g': "g' = (g1, sends)" using confirm(1) by (auto simp: logged_def)
  from confirm(2) show ?case
  proof (cases rule: confirm_order_cases)
    case ignored
    then show ?thesis using confirm(3) by (simp add: g g' session_inv_def)
  next
    case (confirmed i s')
    show ?thesis
      unfolding confirmed(4) g'
      by (rule session_inv_replace [OF confirm(3) [unfolded g] confirmed(1), where p' =
          "(ms_processors m ! i)\<lparr>sp_strategy := s',
             sp_order_tracker := sp_order_tracker (ms_processors m ! i) - {er_order_id r}\<rparr>"]) auto
  qed
next
  case (drained g g' m)
  then show ?case by (cases g) (auto simp: logged_def session_inv_def)
qed

lemma session_inv_steps:
  assumes "new_market b names s w secs = Inr m"
    and "(market_step b st (logged gw) wr)\<^sup>*\<^sup>* (m, g, []) (m', g', sends)"
  shows "session_inv names (m', g', sends)"
proof (rule step_invariant [where I = "session_inv names"])
  show "(market_step b st (logged gw) wr)\<^sup>*\<^sup>* (m, g, []) (m', g', sends)" by (rule assms(2))
  show "session_inv names (m, g, [])" using assms(1) by (rule session_inv_new)
qed (rule session_inv_step)

lemma session_inv_run:
  assumes "new_market b names s w secs = Inr m"
    and "run_packets b st (logged gw) wr m (g, []) packets = Some (Inr (m', g', sends))"
  shows "session_inv names (m', g', sends)"
  using assms(1) run_packets_steps [OF assms(2)] by (rule session_inv_steps)

lemma uint_le_imp_unat: "uint (q :: u32) \<le> 1000 \<Longrightarrow> unat q \<le> 1000"
  by (simp only: unat_eq_nat_uint nat_le_iff of_nat_numeral)

lemma processors_within:
  "\<forall>p\<in>set ps. \<bar>processor_position p\<bar> \<le> 3500 \<Longrightarrow> \<bar>sum_list (map processor_position ps)\<bar> \<le> 3500 * int (length ps)"
  by (induction ps) auto

lemma session_inv_position:
  "session_inv names (m, g, sends) \<Longrightarrow> p \<in> set (ms_processors m) \<Longrightarrow> \<bar>processor_position p\<bar> \<le> 3500"
  by (auto simp: session_inv_def risk_ok_def processor_position_def)

text \<open>C9: In every session, with any strategy, gateway and packets and in either build, the orders
  sent carry the ids 0, 1, 2, ... in the order of sending (counted in 64 bits), across all symbols,
  and none is for more than 1000 shares.\<close>

theorem orders_numbered_and_small:
  assumes "new_market b names s w secs = Inr m"
    and "run_packets b st (logged gw) wr m (g, []) packets = Some (Inr (m', g', sends))"
  shows "map oc_order_id sends = map word_of_nat [0..<length sends] \<and>
    (\<forall>cmd\<in>set sends. unat (oc_quantity cmd) \<le> 1000)"
  using session_inv_run [OF assms] by (auto simp: session_inv_def uint_le_imp_unat)

text \<open>C1: In every session the signed quantities of the orders sent add up to the total of the
  positions the risk engines have committed, every symbol's committed position stays within 3500
  shares long or short, and so the whole exposure stays within 3500 shares per symbol.\<close>

theorem position_is_sum_of_orders:
  assumes "new_market b names s w secs = Inr m"
    and "run_packets b st (logged gw) wr m (g, []) packets = Some (Inr (m', g', sends))"
  shows "sum_list (map signed_qty sends) = total_position m' \<and>
    (\<forall>p\<in>set (ms_processors m'). \<bar>processor_position p\<bar> \<le> 3500) \<and>
    \<bar>total_position m'\<bar> \<le> 3500 * int (length names)"
proof -
  note inv = session_inv_run [OF assms]
  have "length (ms_processors m') = length names" using inv by (auto simp: session_inv_def)
  then show ?thesis
    using inv processors_within [of "ms_processors m'"] session_inv_position [OF inv]
    by (auto simp: session_inv_def total_position_def)
qed

section \<open>Routing\<close>

lemma step_length: "market_step b st gw wr x y \<Longrightarrow> length (ms_processors (fst y)) = length (ms_processors (fst x))"
  by (induction rule: market_step.induct)
    (auto simp: handle_stock_directory_def confirm_order_frame split: option.splits)

text \<open>C31: With at most 32768 target symbols, after any session every entry of the lookup table is
  either -1 or the index of a processor: the table never leads to an out-of-bounds access.\<close>

theorem slots_in_range:
  assumes "new_market b names s w secs = Inr m" "length names \<le> 32768"
    and "run_packets b st gw wr m g packets = Some (Inr (m', g'))"
  shows "ms_lookup_table m' loc = - 1 \<or>
    is_ok (index (ms_processors m') (slot_index (ms_lookup_table m' loc)))"
proof -
  have "table_ok (fst (m', g'))"
  proof (rule step_invariant [where I = "\<lambda>x. table_ok (fst x)"])
    show "(market_step b st gw wr)\<^sup>*\<^sup>* (m, g) (m', g')" using assms(3) by (rule run_packets_steps)
    show "table_ok (fst (m, g))"
      using assms(2) new_market_fields [OF assms(1)] by (simp add: table_ok_def)
  qed (rule market_step_table_ok)
  then show ?thesis by (auto simp: table_ok_def)
qed




text \<open>C34: Trading never feeds back into the market data: after an event the book and the ticker of
  the symbol are exactly what the message alone makes of them, whatever the strategy, the risk
  check and the gateway did.\<close>

theorem book_depends_on_feed_only:
  assumes "handle_event b st gw wr p msg w g n t = Inr (p', w', g', n')"
  shows "map_sum id (\<lambda>q. (sp_order_book q, sp_ticker q)) (apply_message b p msg) =
    Inr (sp_order_book p', sp_ticker p')"
proof -
  obtain p1 p2 where parts: "apply_message b p msg = Inr p1"
      "run_strategy b st gw p1 g n = Inr (p2, g', n')"
      "send_telemetry b gw wr p2 w g' t = Inr (p', w')"
    using assms by (rule handle_event_parts)
  have "sp_order_book p' = sp_order_book p2" "sp_ticker p' = sp_ticker p2"
    by (subst send_telemetry_frame [OF parts(3)], simp)+
  moreover have "sp_order_book p2 = sp_order_book p1 \<and> sp_ticker p2 = sp_ticker p1"
    using parts(2)
  proof (cases rule: run_strategy_cases)
    case quiet
    then have q: "p2 = p1\<lparr>sp_strategy := sp_strategy p2\<rparr>" by (simp add: quiet_run_def)
    show ?thesis by (subst (1 2) q) simp
  next
    case (sent cmd)
    then obtain risk where q: "p2 = p1\<lparr>sp_strategy := sp_strategy p2, sp_risk_engine := risk,
         sp_order_tracker := insert n (sp_order_tracker p1)\<rparr>"
      by (auto simp: sent_run_def)
    show ?thesis by (subst (1 2) q) simp
  qed
  ultimately show ?thesis using parts(1) by simp
qed

section \<open>Gateways that drain\<close>

text \<open>The contract under which the market handler never gets stuck: every confirmation handed out
  shrinks the gateway's backlog.\<close>

locale draining_gateway =
  fixes gw :: "'g gateway_ops" and backlog :: "'g \<Rightarrow> nat"
  assumes poll_drains: "gw_poll_confirmed_orders gw g = Inr (g', Some r) \<Longrightarrow> backlog g' < backlog g"
begin

lemma poll_terminates: "poll_confirmed_orders st gw m g \<noteq> None"
proof (induction "backlog g" arbitrary: m g rule: less_induct)
  case less
  show ?case
    using less poll_drains [of g]
    by (subst poll_confirmed_orders.simps) (auto split: sum.splits option.splits)
qed

lemma packet_terminates: "handle_raw_packet b st gw wr m raw g \<noteq> None"
  by (auto simp: handle_raw_packet_def poll_terminates split: sum.splits simp del: not_None_eq)

lemma session_terminates: "run_packets b st gw wr m g packets \<noteq> None"
  by (induction packets arbitrary: m g)
    (auto simp: packet_terminates split: option.splits sum.splits)

end

text \<open>A gateway that keeps a ledger: positions move only with the orders it is sent.\<close>

definition share_flow :: "u16 \<Rightarrow> order_command list \<Rightarrow> int" where
  "share_flow loc cmds = (\<Sum>cmd\<leftarrow>cmds. if oc_symbol_locate cmd = loc then signed_qty cmd else 0)"

locale ledger_gateway = draining_gateway gw backlog
  for gw :: "'g gateway_ops" and backlog :: "'g \<Rightarrow> nat" +
  assumes poll_keeps_position:
      "gw_poll_confirmed_orders gw g = Inr (g', r) \<Longrightarrow> gw_get_position gw g' loc = gw_get_position gw g loc"
    and send_moves_position:
      "gw_send_order gw g cmd = Inr g' \<Longrightarrow> gw_get_position gw g' loc =
       gw_get_position gw g loc + word_of_int (share_flow loc [cmd])"
begin

lemma step_position:
  assumes "market_step b st (logged gw) wr x y"
  shows "gw_get_position gw (fst (snd y)) loc - word_of_int (share_flow loc (snd (snd y))) =
    gw_get_position gw (fst (snd x)) loc - word_of_int (share_flow loc (snd (snd x)))"
  using assms
proof (induction rule: market_step.induct)
  case (event m msg slot g p' w' g' n')
  obtain g0 sends where g: "g = (g0, sends)" by (cases g)
  obtain p1 p2 where "run_strategy b st (logged gw) p1 g (ms_global_order_id_counter m) = Inr (p2, g', n')"
    using event(4) by (rule handle_event_parts)
  then show ?case
  proof (cases rule: run_strategy_cases)
    case (sent cmd)
    then obtain g1 where "gw_send_order gw g0 cmd = Inr g1" "g' = (g1, sends @ [cmd])"
      by (auto simp: sent_run_def logged_def g)
    then show ?thesis using send_moves_position [of g0 cmd g1 loc] by (simp add: g share_flow_def)
  qed simp
next
  case (confirm g g' r m m')
  then show ?case by (cases g) (auto simp: logged_def poll_keeps_position)
next
  case (drained g g' m)
  then show ?case by (cases g) (auto simp: logged_def poll_keeps_position)
qed simp_all

lemma steps_position:
  assumes "(market_step b st (logged gw) wr)\<^sup>*\<^sup>* (m, (g, [])) (m', (g', sends))"
  shows "gw_get_position gw g' loc = gw_get_position gw g loc + word_of_int (share_flow loc sends)"
proof -
  let ?f = "\<lambda>x. gw_get_position gw (fst (snd x)) loc - word_of_int (share_flow loc (snd (snd x)))"
  have "?f (m', g', sends) = ?f (m, g, [])"
    using assms by (induction rule: rtranclp_induct) (simp_all add: step_position)
  then show ?thesis by (simp add: share_flow_def algebra_simps)
qed

end

end
