(* ===== verification/Market_Event.thy ===== *)
theory Market_Event
  imports Market_Handler
begin

text \<open>
  What the market handler guarantees for one event: the orders of the strategy and the risk check
  (from the contract \<open>quoting_strategy\<close>), the effect of a message on the book and on the tape
  against a specification on the set of resting orders, and the telemetry record.
\<close>

section \<open>The strategy's orders and the risk check\<close>

definition quote_fits_32 :: "quote option \<Rightarrow> bool" where
  "quote_fits_32 q \<longleftrightarrow> (\<forall>x\<in>set_option q. unat (fst x) < 2 ^ 32)"

lemma unat_ucast_32: "unat (p :: u64) < 2 ^ 32 \<Longrightarrow> unat (ucast p :: u32) = unat p"
  by (simp add: unsigned_ucast_eq take_bit_nat_eq_self_iff)

lemma touch_inside_band:
  assumes "at_touch best_bid best_ask cmd" "quote_fits_32 best_bid" "quote_fits_32 best_ask"
  shows "inside_band cmd best_bid best_ask"
  using assms
  by (auto simp: at_touch_def inside_band_def quote_fits_32_def unat_ucast_32
      split: order_side.splits option.splits)

context quoting_strategy
begin

lemma only_position_limit:
  assumes "st_on_book_update ops s best_bid best_ask = Inr (s', Some cmd)"
    and risk: "risk_ok r" and size: "size_limit \<le> 1000"
    and fits: "quote_fits_32 best_bid" "quote_fits_32 best_ask"
  shows "check b r (cmd\<lparr>oc_symbol_locate := loc\<rparr>) best_bid best_ask =
    (let projected = sint (lr_current_position r) + signed_qty cmd
     in Inr (if \<bar>projected\<bar> \<le> 3500 then (r\<lparr>lr_current_position := word_of_int projected\<rparr>, Pass)
             else (r, Fail (pos_reason (word_of_int projected) 3500))))"
proof -
  let ?cmd = "cmd\<lparr>oc_symbol_locate := loc\<rparr>"
  have "at_touch best_bid best_ask ?cmd"
    using order_at_touch [OF assms(1)] by (simp add: at_touch_def split: order_side.splits)
  then have inside: "inside_band ?cmd best_bid best_ask" using fits by (rule touch_inside_band)
  have band: "lr_price_band_percentage r = band_002" using risk by (simp add: risk_ok_def)
  have "unat (oc_quantity cmd) \<le> 1000" using order_size [OF assms(1)] size by linarith
  then have q: "\<not> lr_max_qty_per_order r < oc_quantity ?cmd"
    using risk by (simp add: risk_ok_def word_less_nat_alt)
  have "signed_qty ?cmd = signed_qty cmd" by (simp add: signed_qty_def split: order_side.splits)
  then show ?thesis
    using check_eq_spec [OF risk_ok_limits risk_ok_within, OF risk risk] inside_band_passes [OF band inside] q risk
    by (auto simp: check_spec_def Let_def word_less_def risk_ok_def)
qed

end

text \<open>C14: An order of the strategy, for quotes that fit 32 bits and the configured risk engine,
  is never refused for its quantity or its price: it passes exactly when the position it leads to
  is within 3500 shares, and then the engine commits that position.\<close>

theorem strategy_orders_pass_limits:
  assumes "on_book_update b s best_bid best_ask = Inr (s', Some cmd)"
    and "risk_ok r" "quote_fits_32 best_bid" "quote_fits_32 best_ask"
  shows "check b r (cmd\<lparr>oc_symbol_locate := loc\<rparr>) best_bid best_ask =
    (let projected = sint (lr_current_position r) + signed_qty cmd
     in Inr (if \<bar>projected\<bar> \<le> 3500 then (r\<lparr>lr_current_position := word_of_int projected\<rparr>, Pass)
             else (r, Fail (pos_reason (word_of_int projected) 3500))))"
  using mid.only_position_limit [of b s best_bid best_ask s' cmd] assms by (simp add: mid_point_ops_def)

section \<open>Messages and the book\<close>

definition reduce_order :: "u64 \<Rightarrow> u32 \<Rightarrow> (u64 \<rightharpoonup> order) \<Rightarrow> (u64 \<rightharpoonup> order)" where
  "reduce_order oid q orders =
     (case orders oid of
        None \<Rightarrow> orders
      | Some ord \<Rightarrow> if or_quantity ord = q then orders(oid := None)
                     else orders(oid \<mapsto> ord\<lparr>or_quantity := or_quantity ord - q\<rparr>))"

text \<open>What a message means for the set of resting orders.\<close>

fun message_spec :: "itch_message \<Rightarrow> (u64 \<rightharpoonup> order) \<Rightarrow> (u64 \<rightharpoonup> order)" where
  "message_spec (AddOrder _ oid s q p) orders =
     orders(oid \<mapsto> \<lparr>or_price = p, or_quantity = q, or_side = s\<rparr>)"
| "message_spec (ModifyOrder _ oid q) orders = reduce_order oid q orders"
| "message_spec (DeleteOrder _ oid) orders = orders(oid := None)"
| "message_spec (OrderExecuted _ oid q _) orders = reduce_order oid q orders"
| "message_spec (OrderExecutedWithPrice _ oid q _ _) orders = reduce_order oid q orders"
| "message_spec _ orders = orders"

text \<open>The trade a message puts on the tape, given the orders resting before it.\<close>

fun message_trade :: "itch_message \<Rightarrow> (u64 \<rightharpoonup> order) \<Rightarrow> trade option" where
  "message_trade (Trade _ p q mn s) _ =
     Some \<lparr>tr_price = p, tr_quantity = q, tr_match_number = mn, tr_side = aggressor_of_trade s\<rparr>"
| "message_trade (OrderExecuted _ oid q mn) orders =
     map_option (\<lambda>ord. \<lparr>tr_price = or_price ord, tr_quantity = q, tr_match_number = mn,
       tr_side = aggressor_of_resting (or_side ord)\<rparr>) (orders oid)"
| "message_trade (OrderExecutedWithPrice _ oid q p mn) orders =
     map_option (\<lambda>ord. \<lparr>tr_price = p, tr_quantity = q, tr_match_number = mn,
       tr_side = aggressor_of_resting (or_side ord)\<rparr>) (orders oid)"
| "message_trade _ _ = None"

text \<open>What the feed promises of a message: fresh ids, no level and no volume beyond its width, and no
  more shares taken from an order than it has left.\<close>

fun book_promise :: "l3_order_book \<Rightarrow> itch_message \<Rightarrow> bool" where
  "book_promise bk (AddOrder _ oid s q p) = add_ok bk oid s p q"
| "book_promise bk (ModifyOrder _ oid q) = cancel_ok bk oid q"
| "book_promise bk (OrderExecuted _ oid q _) = cancel_ok bk oid q"
| "book_promise bk (OrderExecutedWithPrice _ oid q _ _) = cancel_ok bk oid q"
| "book_promise _ _ = True"

definition message_ok :: "'s symbol_processor \<Rightarrow> itch_message \<Rightarrow> bool" where
  "message_ok p msg \<longleftrightarrow> book_promise (sp_order_book p) msg \<and>
     tape_volume (tt_trades (sp_ticker p) @
       (case message_trade msg (ob_orders (sp_order_book p)) of None \<Rightarrow> [] | Some t \<Rightarrow> [t])) < 2 ^ 64"

lemma cancel_order_spec:
  assumes "book_exact bk" "cancel_ok bk oid q"
  shows "\<exists>bk'. cancel_order b bk oid q = Inr bk' \<and> book_exact bk' \<and>
    ob_orders bk' = reduce_order oid q (ob_orders bk)"
proof -
  obtain bk' where bk': "cancel_order b bk oid q = Inr bk'" "book_exact bk'"
    using cancel_order_keeps [OF assms] by blast
  have "levels_sorted bk" using assms(1) by (simp add: book_exact_def)
  then have "ob_orders bk' = reduce_order oid q (ob_orders bk)"
    using bk'(1) cancel_order_effect(4) [OF bk'(1)]
    by (cases "ob_orders bk oid") (auto simp: reduce_order_def)
  with bk' show ?thesis by blast
qed

lemma add_trade_spec:
  assumes "ticker_inv tt" "tape_volume (tt_trades tt @ [t]) < 2 ^ 64"
    and t: "t = \<lparr>tr_price = p, tr_quantity = q, tr_match_number = mn, tr_side = s\<rparr>"
  shows "\<exists>tt'. add_trade b tt p q mn s = Inr tt' \<and> ticker_inv tt' \<and> tt_trades tt' = tt_trades tt @ [t]"
proof -
  have sum: "unat (tt_total_volume tt) + unat (ucast q :: u64) < 2 ^ 64"
    using assms by (simp add: ticker_inv_def tape_volume_def unat_ucast_quantity)
  show ?thesis
    using add_u_exact(1) [of "tt_total_volume tt" "ucast q" b] add_u_exact(2) [of "tt_total_volume tt" "ucast q"] sum
      assms(1)
    by (simp add: add_trade_def t ticker_inv_def tape_volume_def unat_ucast_quantity Let_def)
qed

lemma trade_and_cancel_spec:
  assumes "book_exact (sp_order_book p)" "ticker_inv (sp_ticker p)" "cancel_ok (sp_order_book p) oid q"
    and "tape_volume (tt_trades (sp_ticker p) @ [t]) < 2 ^ 64"
    and t: "t = \<lparr>tr_price = px, tr_quantity = q, tr_match_number = mn, tr_side = s\<rparr>"
  shows "\<exists>p'. trade_and_cancel b p oid px q mn s = Inr p' \<and>
    book_exact (sp_order_book p') \<and> ticker_inv (sp_ticker p') \<and>
    ob_orders (sp_order_book p') = reduce_order oid q (ob_orders (sp_order_book p)) \<and>
    tt_trades (sp_ticker p') = tt_trades (sp_ticker p) @ [t]"
  using cancel_order_spec [OF assms(1,3), of b] add_trade_spec [OF assms(2,4) t, of b]
  by (auto simp: trade_and_cancel_def)

text \<open>C5: Every message the feed may send is applied without panic, in both builds, and does to the
  resting orders and the tape exactly what the specification says, keeping the book and the ticker
  consistent: adds, partial and full cancels, deletes, executions with and without a price (the
  trade is reported at the resting or the given price, with the opposite side as aggressor).\<close>

theorem apply_message_refines:
  assumes "book_exact (sp_order_book p)" "ticker_inv (sp_ticker p)" "message_ok p msg"
  shows "\<exists>p'. apply_message b p msg = Inr p' \<and>
    book_exact (sp_order_book p') \<and> ticker_inv (sp_ticker p') \<and>
    ob_orders (sp_order_book p') = message_spec msg (ob_orders (sp_order_book p)) \<and>
    tt_trades (sp_ticker p') = tt_trades (sp_ticker p) @
      (case message_trade msg (ob_orders (sp_order_book p)) of None \<Rightarrow> [] | Some t \<Rightarrow> [t])"
proof (cases msg)
  case (AddOrder loc oid s q px)
  then have ok: "add_ok (sp_order_book p) oid s px q" using assms(3) by (simp add: message_ok_def)
  obtain bk' where "add_order b (sp_order_book p) oid s px q = Inr bk'" "book_exact bk'"
    using add_order_keeps [OF assms(1) ok] by blast
  moreover have "levels_sorted (sp_order_book p)" using assms(1) by (simp add: book_exact_def)
  ultimately show ?thesis
    using AddOrder assms(2) add_order_effect(5) [of b "sp_order_book p" oid s px q bk'] by auto
next
  case (ModifyOrder loc oid q)
  then have "cancel_ok (sp_order_book p) oid q" using assms(3) by (simp add: message_ok_def)
  from cancel_order_spec [OF assms(1) this, of b] show ?thesis using ModifyOrder assms(2) by auto
next
  case (Trade loc px q mn s)
  then show ?thesis
    using assms add_trade_spec [OF assms(2), of _ px q mn "aggressor_of_trade s" b]
    by (auto simp: message_ok_def)
next
  case (DeleteOrder loc oid)
  show ?thesis
  proof (cases "ob_orders (sp_order_book p) oid")
    case None
    then show ?thesis using DeleteOrder assms by auto
  next
    case (Some ord)
    then have "cancel_ok (sp_order_book p) oid (or_quantity ord)" by (simp add: cancel_ok_def)
    from cancel_order_spec [OF assms(1) this, of b] show ?thesis
      using DeleteOrder Some assms(2) by (auto simp: reduce_order_def)
  qed
next
  case (OrderExecuted loc oid q mn)
  then show ?thesis
    using assms trade_and_cancel_spec [OF assms(1,2), of oid q _ _ mn _ b]
    by (cases "ob_orders (sp_order_book p) oid") (auto simp: message_ok_def reduce_order_def)
next
  case (OrderExecutedWithPrice loc oid q px mn)
  then show ?thesis
    using assms trade_and_cancel_spec [OF assms(1,2), of oid q _ px mn _ b]
    by (cases "ob_orders (sp_order_book p) oid") (auto simp: message_ok_def reduce_order_def)
next
  case (StockDirectory loc name)
  then show ?thesis using assms by simp
qed

section \<open>Telemetry\<close>

text \<open>The midpoint in exact arithmetic: 0 unless both sides are quoted at a positive price.\<close>

definition midpoint_spec :: "l3_order_book \<Rightarrow> nat" where
  "midpoint_spec bk =
     (let bid = unat (quote_price (get_best_bid bk)); ask = unat (quote_price (get_best_ask bk))
      in if 0 < bid \<and> 0 < ask then (bid + ask) div 2 else 0)"

definition quotes_fit_32 :: "l3_order_book \<Rightarrow> bool" where
  "quotes_fit_32 bk \<longleftrightarrow> quote_fits_32 (get_best_bid bk) \<and> quote_fits_32 (get_best_ask bk)"

lemma quote_price_32: "quote_fits_32 q \<Longrightarrow> unat (quote_price q) < 2 ^ 32"
  by (auto simp: quote_fits_32_def quote_price_def split: option.splits)

lemma midpoint_exact:
  assumes "quotes_fit_32 bk"
  shows "\<exists>mp. midpoint b bk = Inr mp \<and> unat mp = midpoint_spec bk"
proof -
  let ?x = "quote_price (get_best_bid bk)" and ?y = "quote_price (get_best_ask bk)"
  have le: "unat ?x < 2 ^ 32" "unat ?y < 2 ^ 32"
    using assms quote_price_32 [of "get_best_bid bk"] quote_price_32 [of "get_best_ask bk"]
    by (simp_all add: quotes_fit_32_def)
  then have sum: "add_u b ?x ?y = Inr (?x + ?y)" "unat (?x + ?y) = unat ?x + unat ?y"
    using add_u_exact(1) [of ?x ?y b] add_u_exact(2) [of ?x ?y] by simp_all
  have "unat ((?x + ?y) div 2) = (unat ?x + unat ?y) div 2"
    using sum(2) by (simp add: unat_div)
  moreover have "(unat ?x + unat ?y) div 2 < 2 ^ 32" using le by auto
  ultimately have "unat (ucast ((?x + ?y) div 2) :: u32) = (unat ?x + unat ?y) div 2"
    by (simp add: unat_ucast_32)
  then show ?thesis
    using sum by (auto simp: midpoint_def midpoint_spec_def Let_def word_neq_0_conv [symmetric] unat_gt_0)
qed

text \<open>Telemetry is sent once per midpoint: after a report, reporting again without a change of
  the book writes nothing and changes nothing.\<close>

lemma telemetry_idempotent:
  assumes "send_telemetry b gw wr p w g t = Inr (p', w')"
  shows "send_telemetry b gw wr p' w' g t' = Inr (p', w')"
proof -
  have p': "p' = p\<lparr>sp_last_midpoint := sp_last_midpoint p'\<rparr>" using assms by (rule send_telemetry_frame)
  have bk: "sp_order_book p' = sp_order_book p" by (subst p') simp
  obtain mp where "midpoint b (sp_order_book p) = Inr mp"
    using assms by (auto simp: send_telemetry_def)
  moreover have "sp_last_midpoint p' = mp \<or> mp = 0 \<and> p' = p"
    using assms calculation by (auto simp: send_telemetry_def Let_def word_gt_0 split: if_splits)
  ultimately show ?thesis by (auto simp: send_telemetry_def bk word_gt_0)
qed

text \<open>The payload a change of the midpoint calls for, over the integers.\<close>

definition equity :: "'g gateway_ops \<Rightarrow> 'g \<Rightarrow> u16 \<Rightarrow> nat \<Rightarrow> int" where
  "equity gw g loc price = sint (gw_get_cash_balance gw g loc) + sint (gw_get_position gw g loc) * int price"

lemma sint_scast_64: "sint (scast (x :: i32) :: i64) = sint x"
proof -
  have "fits_s (0 :: i64) (sint x)"
    using sint_in_range [of x] by (simp add: fits_s_def)
  then have "sint (word_of_int (sint x) :: i64) = sint x" by (rule sint_of_fits)
  then show ?thesis by simp
qed

lemma uint_u32_bound: "uint (x :: u32) < 2 ^ 32"
  by (rule less_le_trans [OF unsigned_less]) simp

lemma sint_ucast_64: "sint (ucast (x :: u32) :: i64) = uint x"
proof -
  have "fits_s (0 :: i64) (uint x)"
    using uint_u32_bound [of x] order_trans [of "- 9223372036854775808" 0 "uint x"] by (simp add: fits_s_def)
  then have "sint (word_of_int (uint x) :: i64) = uint x" by (rule sint_of_fits)
  then show ?thesis by simp
qed

lemma position_times_price_fits: "fits_s (0 :: i64) (sint (x :: i32) * uint (y :: u32))"
proof -
  have x: "- (2 ^ 31) \<le> sint x" "sint x < 2 ^ 31"
    using sint_in_range [of x] by (simp_all add: fits_s_def)
  have y: "0 \<le> uint y" "uint y \<le> 2 ^ 32" using uint_u32_bound [of y] by simp_all
  have "\<bar>sint x * uint y\<bar> \<le> 2 ^ 31 * uint y"
    using x y by (simp add: abs_mult mult_right_mono)
  also have "\<dots> < 2 ^ 31 * 2 ^ 32" using uint_u32_bound [of y] by simp
  finally show ?thesis by (simp add: fits_s_def abs_less_iff)
qed

definition telemetry_spec ::
    "'g gateway_ops \<Rightarrow> 's symbol_processor \<Rightarrow> 'g \<Rightarrow> u64 \<Rightarrow> telemetry_payload option" where
  "telemetry_spec gw p g now =
     (let mp = midpoint_spec (sp_order_book p); loc = sp_stock_locate p
      in if mp = 0 \<or> mp = unat (sp_last_midpoint p) then None
         else Some \<lparr>tp_timestamp_ns = now, tp_realised_pnl = word_of_int (equity gw g loc mp),
                    tp_midpoint_px = word_of_nat mp, tp_position = gw_get_position gw g loc,
                    tp_latency_ns = 30, tp_locate_id = loc\<rparr>)"

text \<open>C30: With 32-bit quotes and an equity that fits 64 bits, the telemetry arithmetic is exact in
  both builds: a record is written when and only when the midpoint is positive and new, and it
  carries the midpoint and cash + position * midpoint.\<close>

theorem telemetry_reports_equity:
  assumes "quotes_fit_32 (sp_order_book p)"
    and "fits_s (0 :: i64) (equity gw g (sp_stock_locate p) (midpoint_spec (sp_order_book p)))"
  shows "send_telemetry b gw wr p w g now =
    (case telemetry_spec gw p g now of
       None \<Rightarrow> Inr (p, w)
     | Some payload \<Rightarrow>
         r_bind (wr_write wr w (telemetry_bytes payload)) (\<lambda>w'.
         Inr (p\<lparr>sp_last_midpoint := word_of_nat (midpoint_spec (sp_order_book p))\<rparr>, w')))"
proof -
  obtain mp where mp: "midpoint b (sp_order_book p) = Inr mp" "unat mp = midpoint_spec (sp_order_book p)"
    using midpoint_exact [OF assms(1)] by blast
  let ?loc = "sp_stock_locate p"
  let ?pos = "scast (gw_get_position gw g ?loc) :: i64" and ?cash = "gw_get_cash_balance gw g ?loc"
  let ?price = "ucast mp :: i64"
  have prod: "sint ?pos * sint ?price = sint (gw_get_position gw g ?loc) * uint mp"
    by (simp only: sint_scast_64 sint_ucast_64)
  have fit1: "fits_s ?pos (sint ?pos * sint ?price)"
    using position_times_price_fits unfolding prod by (simp add: fits_s_def)
  note inv = mul_s_exact [OF fit1, of b] sint_mult_exact [OF fit1]
  have eq: "sint ?cash + sint (?pos * ?price) = equity gw g ?loc (midpoint_spec (sp_order_book p))"
    unfolding inv(2) prod equity_def mp(2) [symmetric] by simp
  have fit2: "fits_s ?cash (sint ?cash + sint (?pos * ?price))"
    using assms(2) unfolding eq by (simp add: fits_s_def)
  have "word_of_int (sint (?cash + ?pos * ?price)) = ?cash + ?pos * ?price" by simp
  then have val: "?cash + ?pos * ?price = word_of_int (equity gw g ?loc (midpoint_spec (sp_order_book p)))"
    unfolding sint_add_exact [OF fit2] eq by simp
  have w: "word_of_nat (midpoint_spec (sp_order_book p)) = mp" unfolding mp(2) [symmetric] by simp
  show ?thesis
    using mp(2) [symmetric] word_unat_eq_iff [of mp "sp_last_midpoint p"]
    by (simp add: send_telemetry_def mp(1) telemetry_spec_def Let_def inv(1) add_s_exact [OF fit2] val w
        word_gt_0 unat_eq_zero)
qed

end
