(* ===== verification/Replay_Engine.thy ===== *)
theory Replay_Engine
  imports Market_Properties Market_Event
begin

text \<open>
  \<open>apps/replay-engine/src/main.rs\<close>: a gateway that fills every order at once at its own price and
  keeps the cash and share accounts per stock locate, and the loop that cuts a recorded session
  into packets (each preceded by its length in two big-endian bytes) and feeds them to the market.
  The memory map is the byte list \<open>data\<close>; the CPU pinning and the timing are not modelled. The final
  balance and \<open>main\<close> as a whole follow in \<open>Final_Balance\<close>.
\<close>

section \<open>The gateway\<close>

record replay_gateway =
  rg_pending_fills :: "execution_report list"
  rg_cash_balances :: "u16 \<rightharpoonup> i64"
  rg_positions :: "u16 \<rightharpoonup> i32"
  rg_last_prices :: "u16 \<rightharpoonup> u32"

definition new_replay_gateway :: replay_gateway where
  "new_replay_gateway =
     \<lparr>rg_pending_fills = [], rg_cash_balances = Map.empty, rg_positions = Map.empty,
      rg_last_prices = Map.empty\<rparr>"

text \<open>\<open>entry(k).or_insert(0)\<close>\<close>

definition entry_or_0 :: "('k \<rightharpoonup> 'a::zero) \<Rightarrow> 'k \<Rightarrow> 'a" where
  "entry_or_0 m k = (case m k of None \<Rightarrow> 0 | Some x \<Rightarrow> x)"

definition fake_fill :: "order_command \<Rightarrow> execution_report" where
  "fake_fill cmd =
     \<lparr>er_order_id = oc_order_id cmd, er_last_qty = oc_quantity cmd, er_last_price = oc_price cmd,
      er_exec_type = 0, er_stock_locate = oc_symbol_locate cmd\<rparr>"

text \<open>\<open>cmd.quantity as i32\<close> keeps the bits, so it is the identity on 32-bit words.\<close>

definition replay_send_order :: "build \<Rightarrow> replay_gateway \<Rightarrow> order_command \<Rightarrow> replay_gateway res" where
  "replay_send_order b g cmd =
     (let loc = oc_symbol_locate cmd
      in r_bind (mul_s b (ucast (oc_quantity cmd) :: i64) (ucast (oc_price cmd))) (\<lambda>trade_value.
         let current_pos = entry_or_0 (rg_positions g) loc;
             current_cash = entry_or_0 (rg_cash_balances g) loc
         in r_bind (case oc_side cmd of
                OrderBuy \<Rightarrow>
                  r_bind (sub_s b current_cash trade_value) (\<lambda>cash.
                  r_bind (add_s b current_pos (oc_quantity cmd)) (\<lambda>pos. Inr (cash, pos)))
              | OrderSell \<Rightarrow>
                  r_bind (add_s b current_cash trade_value) (\<lambda>cash.
                  r_bind (sub_s b current_pos (oc_quantity cmd)) (\<lambda>pos. Inr (cash, pos)))) (\<lambda>(cash, pos).
            Inr (g\<lparr>rg_pending_fills := rg_pending_fills g @ [fake_fill cmd],
                   rg_positions := (rg_positions g)(loc \<mapsto> pos),
                   rg_cash_balances := (rg_cash_balances g)(loc \<mapsto> cash),
                   rg_last_prices := (rg_last_prices g)(loc \<mapsto> oc_price cmd)\<rparr>))))"

definition replay_poll :: "replay_gateway \<Rightarrow> replay_gateway \<times> execution_report option" where
  "replay_poll g =
     (case rg_pending_fills g of
        [] \<Rightarrow> (g, None)
      | r # rs \<Rightarrow> (g\<lparr>rg_pending_fills := rs\<rparr>, Some r))"

definition replay_get_position :: "replay_gateway \<Rightarrow> u16 \<Rightarrow> i32" where
  "replay_get_position g loc = entry_or_0 (rg_positions g) loc"

definition replay_get_cash_balance :: "replay_gateway \<Rightarrow> u16 \<Rightarrow> i64" where
  "replay_get_cash_balance g loc = entry_or_0 (rg_cash_balances g) loc"

definition replay_ops :: "build \<Rightarrow> replay_gateway gateway_ops" where
  "replay_ops b =
     \<lparr>gw_send_order = replay_send_order b, gw_poll_confirmed_orders = (\<lambda>g. Inr (replay_poll g)),
      gw_get_position = replay_get_position, gw_get_cash_balance = replay_get_cash_balance\<rparr>"

section \<open>The replay loop\<close>

text \<open>One round of the loop of \<open>main\<close>: the payload at the cursor and the next cursor. The cursor stays
  far below \<open>2 ^ 64\<close>, so \<open>usize\<close> is modelled by natural numbers.\<close>

definition next_frame :: "byte list \<Rightarrow> nat \<Rightarrow> (byte list \<times> nat) option" where
  "next_frame data cursor =
     (if cursor + 2 < length data then
        let msg_len = unat (from_be_bytes [data ! cursor, data ! (cursor + 1)] :: u16);
            msg_start = cursor + 2;
            msg_end = msg_start + msg_len
        in if length data < msg_end then None
           else Some (take (msg_end - msg_start) (drop msg_start data), msg_end)
      else None)"

lemma next_frame_advances:
  "next_frame data cursor = Some (payload, cursor') \<Longrightarrow> cursor < cursor' \<and> cursor' \<le> length data"
  by (auto simp: next_frame_def Let_def split: if_splits)

function replay_loop ::
    "build \<Rightarrow> 's strategy_ops \<Rightarrow> 'g gateway_ops \<Rightarrow> 'w writer_ops \<Rightarrow> byte list \<Rightarrow> nat
     \<Rightarrow> ('s, 'w) market_state \<Rightarrow> 'g \<Rightarrow> (('s, 'w) market_state \<times> 'g) res option" where
  "replay_loop b st gw wr data cursor market gateway =
     (case next_frame data cursor of
        None \<Rightarrow> Some (Inr (market, gateway))
      | Some (msg_payload, msg_end) \<Rightarrow>
          (case handle_raw_packet b st gw wr market msg_payload gateway of
             None \<Rightarrow> None
           | Some (Inl e) \<Rightarrow> Some (Inl e)
           | Some (Inr (market', gateway')) \<Rightarrow>
               replay_loop b st gw wr data msg_end market' gateway'))"
  by pat_completeness auto

termination
  by (relation "measure (\<lambda>(b, st, gw, wr, data, cursor, market, gateway). length data - cursor)")
    (auto dest!: next_frame_advances)

declare replay_loop.simps [simp del]

text \<open>The packets the loop sees.\<close>

function frames :: "byte list \<Rightarrow> nat \<Rightarrow> byte list list" where
  "frames data cursor =
     (case next_frame data cursor of
        None \<Rightarrow> []
      | Some (payload, msg_end) \<Rightarrow> payload # frames data msg_end)"
  by pat_completeness auto

termination
  by (relation "measure (\<lambda>(data, cursor). length data - cursor)") (auto dest!: next_frame_advances)

declare frames.simps [simp del]

lemma replay_loop_frames:
  "replay_loop b st gw wr data cursor m g = run_packets b st gw wr m g (frames data cursor)"
proof (induction b st gw wr data cursor m g rule: replay_loop.induct)
  case (1 b st gw wr data cursor m g)
  show ?case
    using 1 by (subst replay_loop.simps, subst frames.simps) (auto split: option.splits sum.splits)
qed

text \<open>The encoding of a recording.\<close>

definition frame :: "byte list \<Rightarrow> byte list" where
  "frame payload = to_be_bytes (word_of_nat (length payload) :: u16) @ payload"

lemma length_to_be_16: "length (to_be_bytes (w :: u16)) = 2"
  by simp

lemma length_2: "length xs = 2 \<Longrightarrow> \<exists>x y. xs = [x, y]"
  by (auto simp: numeral_2_eq_2 length_Suc_conv)

lemma next_frame_at:
  assumes "0 < length p" "length p < 2 ^ 16"
  shows "next_frame (pre @ frame p @ post) (length pre) = Some (p, length pre + 2 + length p)"
proof -
  obtain x y where xy: "to_be_bytes (word_of_nat (length p) :: u16) = [x, y]"
    using length_2 [OF length_to_be_16 [of "word_of_nat (length p)"]] by blast
  have "from_be_bytes [x, y] = (word_of_nat (length p) :: u16)"
    using from_to_be_bytes [of "word_of_nat (length p) :: u16"] by (simp add: xy)
  then have len: "unat (from_be_bytes [x, y] :: u16) = length p"
    using assms(2) by (simp add: unat_of_nat)
  show ?thesis
    using assms(1) by (simp add: next_frame_def frame_def xy nth_append len Let_def)
qed

lemma frames_after:
  "\<forall>p\<in>set ps. 0 < length p \<and> length p < 2 ^ 16 \<Longrightarrow>
   frames (pre @ concat (map frame ps)) (length pre) = ps"
proof (induction ps arbitrary: pre)
  case Nil
  then show ?case by (subst frames.simps) (simp add: next_frame_def)
next
  case (Cons p ps)
  have "next_frame (pre @ concat (map frame (p # ps))) (length pre) = Some (p, length pre + 2 + length p)"
    using Cons.prems next_frame_at [of p pre "concat (map frame ps)"] by simp
  moreover have "frames ((pre @ frame p) @ concat (map frame ps)) (length (pre @ frame p)) = ps"
    using Cons.prems by (intro Cons.IH) simp
  ultimately show ?case
    by (subst frames.simps) (simp add: frame_def add.assoc)
qed

text \<open>C28: A recording written packet by packet, each with its two-byte length, is cut back into exactly
  those packets: replaying it is handling them one after the other, for any packets of 1 to 65535
  bytes.\<close>

theorem replay_recording:
  assumes "\<forall>p\<in>set packets. 0 < length p \<and> length p < 2 ^ 16"
  shows "replay_loop b st gw wr (concat (map frame packets)) 0 m g = run_packets b st gw wr m g packets"
  using frames_after [OF assms, of "[]"] by (simp add: replay_loop_frames)

section \<open>The gateway keeps a ledger\<close>

lemma share_flow_one:
  "share_flow loc [cmd] = (if oc_symbol_locate cmd = loc then signed_qty cmd else 0)"
  by (simp add: share_flow_def)

lemma entry_or_0_upd [simp]: "entry_or_0 (m(k \<mapsto> x)) k' = (if k = k' then x else entry_or_0 m k')"
  by (simp add: entry_or_0_def)

lemma replay_send_position:
  assumes "replay_send_order b g cmd = Inr g'"
  shows "replay_get_position g' loc = replay_get_position g loc + word_of_int (share_flow loc [cmd])"
  using assms
  by (cases "oc_side cmd")
    (auto simp: replay_send_order_def replay_get_position_def share_flow_one signed_qty_def Let_def
      dest!: add_s_InrD sub_s_InrD)

interpretation replay: ledger_gateway "replay_ops b" "\<lambda>g. length (rg_pending_fills g)"
proof unfold_locales
  fix g g' r loc cmd
  show "gw_poll_confirmed_orders (replay_ops b) g = Inr (g', Some r) \<Longrightarrow>
      length (rg_pending_fills g') < length (rg_pending_fills g)"
    by (auto simp: replay_ops_def replay_poll_def split: list.splits)
  show "gw_send_order (replay_ops b) g cmd = Inr g' \<Longrightarrow> gw_get_position (replay_ops b) g' loc =
      gw_get_position (replay_ops b) g loc + word_of_int (share_flow loc [cmd])"
    by (simp add: replay_ops_def replay_send_position)
next
  fix g g' loc and r :: "execution_report option"
  show "gw_poll_confirmed_orders (replay_ops b) g = Inr (g', r) \<Longrightarrow>
      gw_get_position (replay_ops b) g' loc = gw_get_position (replay_ops b) g loc"
    by (auto simp: replay_ops_def replay_poll_def replay_get_position_def split: list.splits)
qed

text \<open>The whole account of the gateway is a function of the orders it was given: shares, cash (a purchase
  costs its quantity times its price, a sale earns it) and the price of the last order, per stock.\<close>

definition cash_flow :: "u16 \<Rightarrow> order_command list \<Rightarrow> int" where
  "cash_flow loc cmds =
     (\<Sum>cmd\<leftarrow>cmds. if oc_symbol_locate cmd = loc then - signed_qty cmd * uint (oc_price cmd) else 0)"

definition last_price :: "u16 \<Rightarrow> order_command list \<Rightarrow> u32 option" where
  "last_price loc cmds =
     fold (\<lambda>cmd acc. if oc_symbol_locate cmd = loc then Some (oc_price cmd) else acc) cmds None"

definition account_of :: "order_command list \<Rightarrow> replay_gateway \<Rightarrow> bool" where
  "account_of sends g \<longleftrightarrow>
     (\<forall>loc. replay_get_position g loc = word_of_int (share_flow loc sends) \<and>
        replay_get_cash_balance g loc = word_of_int (cash_flow loc sends) \<and>
        rg_last_prices g loc = last_price loc sends)"

lemma account_of_new: "account_of [] new_replay_gateway"
  by (simp add: account_of_def new_replay_gateway_def replay_get_position_def replay_get_cash_balance_def
      entry_or_0_def share_flow_def cash_flow_def last_price_def)

lemma replay_send_account:
  assumes "replay_send_order b g cmd = Inr g'" "account_of sends g"
  shows "account_of (sends @ [cmd]) g'"
proof -
  have tv: "(ucast (oc_quantity cmd) * ucast (oc_price cmd) :: i64) =
      word_of_int (uint (oc_quantity cmd) * uint (oc_price cmd))"
    by (simp only: ucast_eq wi_hom_mult)
  have flows: "share_flow loc (sends @ [cmd]) = share_flow loc sends + share_flow loc [cmd]"
    "cash_flow loc (sends @ [cmd]) = cash_flow loc sends + cash_flow loc [cmd]"
    "last_price loc (sends @ [cmd]) =
       (if oc_symbol_locate cmd = loc then Some (oc_price cmd) else last_price loc sends)" for loc
    by (simp_all add: share_flow_def cash_flow_def last_price_def)
  have cash: "replay_get_cash_balance g' loc = replay_get_cash_balance g loc + word_of_int (cash_flow loc [cmd])" for loc
    using assms(1) tv
    by (cases "oc_side cmd")
      (auto simp: replay_send_order_def replay_get_cash_balance_def cash_flow_def signed_qty_def mul_s_def Let_def
        dest!: add_s_InrD sub_s_InrD split: if_splits)
  have price: "rg_last_prices g' loc = (if oc_symbol_locate cmd = loc then Some (oc_price cmd) else rg_last_prices g loc)" for loc
    using assms(1) by (auto simp: replay_send_order_def Let_def)
  show ?thesis
    using assms(2) unfolding account_of_def flows replay_send_position [OF assms(1)] cash price by simp
qed

lemma replay_poll_account: "account_of sends (fst (replay_poll g)) = account_of sends g"
  by (simp add: replay_poll_def account_of_def replay_get_position_def replay_get_cash_balance_def split: list.split)

lemma account_step:
  assumes "market_step b st (logged (replay_ops b')) wr x y"
    and "account_of (snd (snd x)) (fst (snd x))"
  shows "account_of (snd (snd y)) (fst (snd y))"
  using assms
proof (induction rule: market_step.induct)
  case (event m msg slot g p' w' g' next_id)
  obtain p1 p2 where "run_strategy b st (logged (replay_ops b')) p1 g (ms_global_order_id_counter m) =
      Inr (p2, g', next_id)"
    using event(4) by (rule handle_event_parts)
  then show ?case
    using event(5)
    by (cases rule: run_strategy_cases)
      (auto simp: sent_run_def logged_def replay_ops_def replay_send_account split: prod.splits)
next
  case (confirm g g' r m m')
  then show ?case
    using replay_poll_account [of "snd g" "fst g"] by (auto simp: logged_def replay_ops_def split: prod.splits)
next
  case (drained g g' m)
  then show ?case
    using replay_poll_account [of "snd g" "fst g"] by (auto simp: logged_def replay_ops_def split: prod.splits)
qed simp_all

lemma logged_replay_loop:
  "replay_loop b st gw wr data cursor m g = Some (Inr (m', g')) \<Longrightarrow>
   \<exists>sends'. replay_loop b st (logged gw) wr data cursor m (g, sends) = Some (Inr (m', (g', sends')))"
  by (simp add: replay_loop_frames logged_run_packets)

lemma replay_loop_ends: "\<exists>result. replay_loop b st (replay_ops b') wr data cursor m g = Some result"
  using replay.session_terminates [of b st b' wr m g "frames data cursor"]
  by (auto simp: replay_loop_frames)

text \<open>C27: The replay of any recording ends, with a result or with a panic, in either build and with any
  strategy: the cursor advances, and each round of polling drains the pending fills.\<close>

theorem replay_terminates:
  "\<exists>result. replay_loop b st (replay_ops b') wr data cursor m g = Some result"
  by (rule replay_loop_ends)

section \<open>Money and shares\<close>

lemma sint_u32_small: "unat (q :: u32) < 2 ^ 31 \<Longrightarrow> sint q = uint q"
  by (intro sint_eq_uint) (simp add: uint_nat del: of_nat_unat)

text \<open>C29: An order moves cash and shares at its own price: with overflow checks, valued at that price,
  the equity of the stock is the same before and after, and the accounts of other stocks do not
  move.\<close>

theorem order_keeps_equity_at_its_price:
  assumes "replay_send_order Debug g cmd = Inr g'" "unat (oc_quantity cmd) < 2 ^ 31"
  shows "equity (replay_ops Debug) g' loc (unat (oc_price cmd)) =
    equity (replay_ops Debug) g loc (unat (oc_price cmd))"
proof -
  let ?loc = "oc_symbol_locate cmd" and ?q = "oc_quantity cmd"
  let ?tv = "(ucast ?q :: i64) * ucast (oc_price cmd)"
  let ?pos = "replay_get_position g ?loc" and ?cash = "replay_get_cash_balance g ?loc"
  show ?thesis
  proof (cases "loc = ?loc")
    case False
    then show ?thesis
      using assms
      by (cases "oc_side cmd")
        (auto simp: equity_def replay_ops_def replay_send_order_def replay_get_position_def
          replay_get_cash_balance_def Let_def)
  next
    case True
    have m: "mul_s Debug (ucast ?q :: i64) (ucast (oc_price cmd)) = Inr ?tv"
      using assms(1) by (auto simp: replay_send_order_def Let_def mul_s_def split: if_splits)
    then have fit: "fits_s (ucast ?q :: i64) (sint (ucast ?q :: i64) * sint (ucast (oc_price cmd) :: i64))"
      by (auto simp: mul_s_def split: if_splits)
    have tv: "sint ?tv = uint ?q * uint (oc_price cmd)"
      unfolding sint_mult_exact [OF fit] sint_ucast_64 ..
    have q: "sint ?q = uint ?q" using assms(2) by (rule sint_u32_small)
    show ?thesis
    proof (cases "oc_side cmd")
      case OrderBuy
      then have "fits_s ?cash (sint ?cash - sint ?tv)" "fits_s ?pos (sint ?pos + sint ?q)"
        and g': "replay_get_cash_balance g' ?loc = ?cash - ?tv" "replay_get_position g' ?loc = ?pos + ?q"
        using assms(1) m
        by (auto simp: replay_send_order_def replay_get_position_def replay_get_cash_balance_def Let_def
            add_s_def sub_s_def split: if_splits)
      then have "sint (?cash - ?tv) = sint ?cash - uint ?q * uint (oc_price cmd)"
        "sint (?pos + ?q) = sint ?pos + uint ?q"
        using sint_diff_exact sint_add_exact q tv by metis+
      then show ?thesis
        unfolding True equity_def by (simp add: replay_ops_def g') (simp add: algebra_simps)
    next
      case OrderSell
      then have "fits_s ?cash (sint ?cash + sint ?tv)" "fits_s ?pos (sint ?pos - sint ?q)"
        and g': "replay_get_cash_balance g' ?loc = ?cash + ?tv" "replay_get_position g' ?loc = ?pos - ?q"
        using assms(1) m
        by (auto simp: replay_send_order_def replay_get_position_def replay_get_cash_balance_def Let_def
            add_s_def sub_s_def split: if_splits)
      then have "sint (?cash + ?tv) = sint ?cash + uint ?q * uint (oc_price cmd)"
        "sint (?pos - ?q) = sint ?pos - uint ?q"
        using sint_diff_exact sint_add_exact q tv by metis+
      then show ?thesis
        unfolding True equity_def by (simp add: replay_ops_def g') (simp add: algebra_simps)
    qed
  qed
qed

text \<open>C39: The fill of a sell order is booked by the strategy as a purchase: the market handler reports
  every confirmation as a buyer's trade, so while the gateway's position falls by the quantity
  sold, the strategy's own position rises by it.\<close>

theorem sell_fill_raises_strategy_position:
  assumes "oc_side cmd = OrderSell" "replay_send_order b g cmd = Inr g'"
    and "confirm_order (mid_point_ops b) m (fake_fill cmd) = Inr m'"
    and "ms_lookup_table m (oc_symbol_locate cmd) \<noteq> - 1"
    and "i = slot_index (ms_lookup_table m (oc_symbol_locate cmd))" "i < length (ms_processors m)"
    and "oc_order_id cmd \<in> sp_order_tracker (ms_processors m ! i)"
  shows "replay_get_position g' (oc_symbol_locate cmd) =
      replay_get_position g (oc_symbol_locate cmd) - oc_quantity cmd \<and>
    sm_position (sp_strategy (ms_processors m' ! i)) =
      sm_position (sp_strategy (ms_processors m ! i)) + oc_quantity cmd"
proof -
  let ?s = "sp_strategy (ms_processors m ! i)"
  obtain s' x where t: "on_trade b ?s (ucast (oc_price cmd)) (oc_quantity cmd) Buyer = Inr (s', x)"
    and s': "sp_strategy (ms_processors m' ! i) = s'"
    using assms(3-7) by (auto simp: confirm_order_def fake_fill_def Let_def mid_point_ops_def)
  have "sm_position s' = sm_position ?s + oc_quantity cmd"
    using t by (auto simp: on_trade_def dest!: add_s_InrD)
  moreover have "replay_get_position g' (oc_symbol_locate cmd) =
      replay_get_position g (oc_symbol_locate cmd) - oc_quantity cmd"
    using replay_send_position [OF assms(2), of "oc_symbol_locate cmd"] assms(1)
    by (simp add: share_flow_one signed_qty_def)
  ultimately show ?thesis unfolding s' by blast
qed

end
