(* ===== verification/Shm_Ring.thy ===== *)
theory Shm_Ring
  imports Common
begin

text \<open>
  \<open>crates/shm-ring-buffer/src/lib.rs\<close>: the ring in a shared memory mapping, at the level of bytes:
  a header (magic number, count of messages written) in the first 64 bytes and then slots of 64
  bytes. The mapping is a byte list; a raw pointer access that leaves it is \<open>Wild_Pointer\<close>. The
  file system's answer (the old contents of the file, or an error) and the clock are arguments.

  \<open>read\<close> loads the count, copies the slot and loads the count again while the producer may be
  running; \<open>ring_read_observing\<close> takes the three memories these accesses see.
\<close>

unbundle bit_operations_syntax

section \<open>State\<close>

text \<open>\<open>Slot\<close>: the timestamp at offset 0, the length at 8, the data at 10.\<close>

record slot =
  sl_timestamp :: u64
  sl_len :: u16
  sl_data :: "byte list"

datatype ring_error = Io | NotInitialized

record shm_ring =
  sr_mmap :: "byte list"
  sr_capacity :: u64

datatype read_result = Success slot | Empty | Reset | Overlapped u64 | Interrupted u64

definition slot_size :: nat where
  "slot_size = 64"

definition magic_num :: u64 where
  "magic_num = 0x1122334455667788"

text \<open>\<open>RingHeader\<close>: the magic number at offset 0, the head at offset 8.\<close>

definition header_magic :: "byte list \<Rightarrow> u64" where
  "header_magic mem = from_le_bytes (window mem 0 8)"

definition header_head :: "byte list \<Rightarrow> u64" where
  "header_head mem = from_le_bytes (window mem 8 8)"

definition store_magic :: "u64 \<Rightarrow> byte list \<Rightarrow> byte list" where
  "store_magic x mem = put mem 0 (to_le_bytes x)"

definition store_head :: "u64 \<Rightarrow> byte list \<Rightarrow> byte list" where
  "store_head x mem = put mem 8 (to_le_bytes x)"

section \<open>Creation\<close>

definition size_rejected :: "u64 \<Rightarrow> bool" where
  "size_rejected sz \<longleftrightarrow> sz = 0 \<or> sz AND (sz - 1) \<noteq> 0"

text \<open>\<open>set_len\<close> cuts the file or extends it with zeros; the loop writes a zero byte on every page.\<close>

definition set_file_len :: "nat \<Rightarrow> byte list \<Rightarrow> byte list" where
  "set_file_len n bytes = take n bytes @ replicate (n - length bytes) 0"

definition touch_pages :: "byte list \<Rightarrow> byte list" where
  "touch_pages mem = map (\<lambda>i. if i mod 4096 = 0 then 0 else mem ! i) [0..<length mem]"

definition create_producer :: "u64 \<Rightarrow> byte list option \<Rightarrow> (ring_error + shm_ring) res" where
  "create_producer sz file =
     (if size_rejected sz then Inl Explicit_Panic
      else case file of
        None \<Rightarrow> Inr (Inl Io)
      | Some bytes \<Rightarrow>
          let mem = touch_pages (set_file_len (unat sz) bytes)
          in if length mem < slot_size then Inl Wild_Pointer
             else Inr (Inr \<lparr>sr_mmap = store_magic magic_num (store_head 0 mem),
                            sr_capacity = sz div 64\<rparr>))"

definition create_consumer :: "u64 \<Rightarrow> byte list option \<Rightarrow> (ring_error + shm_ring) res" where
  "create_consumer sz file =
     (if size_rejected sz then Inl Explicit_Panic
      else case file of
        None \<Rightarrow> Inr (Inl Io)
      | Some mem \<Rightarrow>
          if length mem < slot_size then Inl Wild_Pointer
          else if header_magic mem \<noteq> magic_num then Inr (Inl NotInitialized)
          else Inr (Inr \<lparr>sr_mmap = mem, sr_capacity = sz div 64\<rparr>))"

text \<open>\<open>expect\<close> on the result of a creation: an error becomes a panic.\<close>

definition expect_ok :: "(ring_error + 'a) res \<Rightarrow> 'a res" where
  "expect_ok m = r_bind m (\<lambda>created. case created of Inl _ \<Rightarrow> Inl Unwrap_None | Inr x \<Rightarrow> Inr x)"

lemma expect_ok_Inr [simp]: "expect_ok m = Inr x \<longleftrightarrow> m = Inr (Inr x)"
  by (cases m) (auto simp: expect_ok_def split: sum.splits)

text \<open>The size the applications give all their rings: 64 MiB.\<close>

definition shm_bytes :: u64 where
  "shm_bytes = 64 * 1024 * 1024"

section \<open>Writing and reading\<close>

text \<open>The offset of the slot of a sequence number: a mask instead of a division.\<close>

definition slot_offset :: "build \<Rightarrow> u64 \<Rightarrow> u64 \<Rightarrow> u64 res" where
  "slot_offset b capacity seq =
     r_bind (sub_u b capacity 1) (\<lambda>mask.
     r_bind (mul_u b (seq AND mask) 64) (\<lambda>x.
     add_u b 64 x))"

definition slot_image :: "u64 \<Rightarrow> byte list \<Rightarrow> byte list" where
  "slot_image now data = to_le_bytes now @ to_le_bytes (word_of_nat (length data) :: u16) @ data"

definition ring_write :: "build \<Rightarrow> shm_ring \<Rightarrow> byte list \<Rightarrow> u64 \<Rightarrow> shm_ring res" where
  "ring_write b ring data now =
     (if 54 < length data then Inl Explicit_Panic
      else
        let current_head_pos = header_head (sr_mmap ring)
        in r_bind (slot_offset b (sr_capacity ring) current_head_pos) (\<lambda>offset.
           if length (sr_mmap ring) < unat offset + slot_size then Inl Wild_Pointer
           else
             let mem = put (sr_mmap ring) (unat offset) (slot_image now data)
             in r_bind (add_u b current_head_pos 1) (\<lambda>next_head.
                Inr (ring\<lparr>sr_mmap := store_head next_head mem\<rparr>))))"

definition slot_of_bytes :: "byte list \<Rightarrow> slot" where
  "slot_of_bytes bs =
     \<lparr>sl_timestamp = from_le_bytes (window bs 0 8), sl_len = from_le_bytes (window bs 8 2),
      sl_data = window bs 10 54\<rparr>"

definition ring_read_observing ::
    "build \<Rightarrow> u64 \<Rightarrow> byte list \<Rightarrow> byte list \<Rightarrow> byte list \<Rightarrow> u64 \<Rightarrow> read_result res" where
  "ring_read_observing b capacity mem_start mem_copy mem_end consumer_sequence_num =
     (let head_start = header_head mem_start
      in if head_start \<le> consumer_sequence_num then Inr Empty
         else if head_start < consumer_sequence_num then Inr Reset
         else if capacity < saturating_sub head_start consumer_sequence_num then
           Inr (Overlapped (saturating_sub head_start capacity))
         else
           r_bind (slot_offset b capacity consumer_sequence_num) (\<lambda>offset.
           if length mem_copy < unat offset + slot_size then Inl Wild_Pointer
           else
             let slot_copy = slot_of_bytes (window mem_copy (unat offset) slot_size);
                 head_end = header_head mem_end
             in if capacity < saturating_sub head_end consumer_sequence_num then
                  Inr (Interrupted (saturating_sub head_end capacity))
                else Inr (Success slot_copy)))"

text \<open>A read while nobody writes.\<close>

definition ring_read :: "build \<Rightarrow> shm_ring \<Rightarrow> u64 \<Rightarrow> read_result res" where
  "ring_read b ring seq =
     ring_read_observing b (sr_capacity ring) (sr_mmap ring) (sr_mmap ring) (sr_mmap ring) seq"

section \<open>Slots of a ring of \<open>2 ^ j\<close> slots\<close>

lemma unat_2_power: "j < 64 \<Longrightarrow> unat (2 ^ j :: u64) = 2 ^ j"
proof -
  assume "j < 64"
  then have "(2 :: nat) ^ j < 2 ^ 64" by (intro power_strict_increasing) auto
  moreover have "(2 ^ j :: u64) = word_of_nat (2 ^ j)" by simp
  ultimately show ?thesis by (simp only: unat_of_nat) simp
qed

lemma mask_is_mod: "j < 64 \<Longrightarrow> unat (seq AND (2 ^ j - 1) :: u64) = unat seq mod 2 ^ j"
  by (simp add: mask_eq_exp_minus_1 [symmetric] take_bit_eq_mask [symmetric] take_bit_eq_mod
      unat_mod unat_2_power)

lemma slot_offset_exact:
  assumes "j \<le> 50"
  shows "\<exists>off. slot_offset b (2 ^ j) seq = Inr off \<and> unat off = 64 * (1 + unat seq mod 2 ^ j)"
proof -
  let ?i = "seq AND (2 ^ j - 1)"
  have i: "unat ?i = unat seq mod 2 ^ j" using assms by (simp add: mask_is_mod)
  have "(2 :: nat) ^ j \<le> 2 ^ 50" using assms by (intro power_increasing) auto
  moreover have "unat seq mod 2 ^ j < 2 ^ j" by simp
  ultimately have lt: "unat ?i < 2 ^ 50" unfolding i by linarith
  have u: "unat (2 ^ j :: u64) = 2 ^ j" using assms by (simp add: unat_2_power)
  have "sub_u b (2 ^ j) 1 = Inr (2 ^ j - 1 :: u64)" by (simp add: sub_u_def u)
  moreover have m: "unat (?i * 64) = unat ?i * 64" using lt by (simp add: unat_word_ariths)
  moreover have "mul_u b ?i 64 = Inr (?i * 64)" using lt by (simp add: mul_u_def)
  moreover have "add_u b 64 (?i * 64) = Inr (64 + ?i * 64)" "unat (64 + ?i * 64) = 64 + unat ?i * 64"
    using add_u_exact(1) [of 64 "?i * 64" b] add_u_exact(2) [of 64 "?i * 64"] m lt by simp_all
  ultimately show ?thesis using i by (simp add: slot_offset_def)
qed

definition ring_shape :: "nat \<Rightarrow> shm_ring \<Rightarrow> bool" where
  "ring_shape j ring \<longleftrightarrow> length (sr_mmap ring) = 64 * 2 ^ j \<and> sr_capacity ring = 2 ^ j"

lemma length_slot_image [simp]: "length (slot_image now data) = 10 + length data"
  by (simp add: slot_image_def)

lemma header_stored:
  "16 \<le> length mem \<Longrightarrow> header_head (store_head h mem) = h"
  by (simp add: header_head_def store_head_def window_put_same from_to_le_bytes)

lemma header_other:
  "16 \<le> length mem \<Longrightarrow> header_magic (store_head h mem) = header_magic mem"
  "16 \<le> length mem \<Longrightarrow> header_head (store_magic x mem) = header_head mem"
  "16 \<le> length mem \<Longrightarrow> header_magic (store_magic x mem) = x"
  by (simp_all add: header_magic_def header_head_def store_head_def store_magic_def window_put_other
      window_put_same from_to_le_bytes)

lemma length_store [simp]:
  "16 \<le> length mem \<Longrightarrow> length (store_head h mem) = length mem"
  "16 \<le> length mem \<Longrightarrow> length (store_magic h mem) = length mem"
  by (simp_all add: store_head_def store_magic_def)

lemma window_store_head: "16 \<le> length mem \<Longrightarrow> 16 \<le> i \<Longrightarrow> window (store_head h mem) i n = window mem i n"
  by (simp add: store_head_def window_put_other)

lemma power_of_two_accepted: "j < 64 \<Longrightarrow> \<not> size_rejected (2 ^ j)"
proof -
  assume j: "j < 64"
  have "unat (2 ^ j AND (2 ^ j - 1) :: u64) = 0" using j by (simp add: mask_is_mod unat_2_power)
  then have "2 ^ j AND (2 ^ j - 1) = (0 :: u64)" by (simp add: unat_eq_zero)
  moreover have "(2 ^ j :: u64) \<noteq> 0" using unat_2_power [OF j] by (metis unat_0 power_not_zero zero_neq_numeral)
  ultimately show ?thesis by (simp add: size_rejected_def)
qed

lemma capacity_of_size: "j \<le> 50 \<Longrightarrow> (2 ^ (j + 6) :: u64) div 64 = 2 ^ j"
proof -
  assume j: "j \<le> 50"
  have "unat (2 ^ (j + 6) :: u64) = 64 * 2 ^ j" using j by (subst unat_2_power) (simp_all add: power_add)
  then have "unat ((2 ^ (j + 6) :: u64) div 64) = unat (2 ^ j :: u64)"
    using j by (simp add: unat_div unat_2_power)
  then show ?thesis by (simp add: word_unat_eq_iff)
qed

lemma create_producer_shape:
  assumes "j \<le> 50"
  shows "\<exists>ring. create_producer (2 ^ (j + 6)) (Some bytes) = Inr (Inr ring) \<and> ring_shape j ring \<and>
    header_head (sr_mmap ring) = 0 \<and> header_magic (sr_mmap ring) = magic_num"
proof -
  let ?mem = "touch_pages (set_file_len (unat (2 ^ (j + 6) :: u64)) bytes)"
  have u: "unat (2 ^ (j + 6) :: u64) = 64 * 2 ^ j" using assms by (subst unat_2_power) (simp_all add: power_add)
  have len: "length ?mem = 64 * 2 ^ j" unfolding u by (simp add: touch_pages_def set_file_len_def min_def)
  note cap = capacity_of_size [OF assms]
  have "(64 :: nat) \<le> 64 * 2 ^ j" by simp
  then have big: "16 \<le> length ?mem" "\<not> length ?mem < slot_size" unfolding len slot_size_def by linarith+
  show ?thesis
    using big len assms
    by (simp add: create_producer_def power_of_two_accepted cap ring_shape_def Let_def header_stored header_other)
qed

text \<open>One write, when the slot lies inside the mapping.\<close>

lemma slot_bounds:
  assumes "ring_shape j ring" "i < 2 ^ j"
  shows "length (sr_mmap ring) < 64 * (1 + i) + slot_size \<longleftrightarrow> i = 2 ^ j - 1"
  using assms by (auto simp: ring_shape_def slot_size_def)

lemma ring_write_cases:
  assumes "ring_shape j ring" "j \<le> 50" "length data \<le> 54" "unat (header_head (sr_mmap ring)) < 2 ^ 64 - 1"
  defines "i \<equiv> unat (header_head (sr_mmap ring)) mod 2 ^ j"
  shows "ring_write b ring data now =
    (if i = 2 ^ j - 1 then Inl Wild_Pointer
     else Inr (ring\<lparr>sr_mmap := store_head (header_head (sr_mmap ring) + 1)
                 (put (sr_mmap ring) (64 * (1 + i)) (slot_image now data))\<rparr>))"
proof -
  let ?h = "header_head (sr_mmap ring)"
  obtain off where off: "slot_offset b (2 ^ j) ?h = Inr off" "unat off = 64 * (1 + i)"
    using slot_offset_exact [OF assms(2), of b ?h] by (auto simp: i_def)
  have "i < 2 ^ j" by (simp add: i_def)
  note bounds = slot_bounds [OF assms(1) this]
  have "add_u b ?h 1 = Inr (?h + 1)" using assms(4) by (intro add_u_exact(1)) simp
  moreover have "sr_capacity ring = 2 ^ j" using assms(1) by (simp add: ring_shape_def)
  ultimately show ?thesis
    using off bounds assms(3) by (simp add: ring_write_def Let_def)
qed

section \<open>The ring holds what was written\<close>

type_synonym message = "byte list \<times> u64"

fun write_all :: "build \<Rightarrow> shm_ring \<Rightarrow> message list \<Rightarrow> shm_ring res" where
  "write_all b ring [] = Inr ring"
| "write_all b ring ((data, now) # msgs) =
     r_bind (ring_write b ring data now) (\<lambda>ring'. write_all b ring' msgs)"

definition slot_holds :: "byte list \<Rightarrow> nat \<Rightarrow> message \<Rightarrow> bool" where
  "slot_holds mem i msg \<longleftrightarrow>
     window mem (64 * (1 + i)) (10 + length (fst msg)) = slot_image (snd msg) (fst msg)"

definition ring_holds :: "nat \<Rightarrow> message list \<Rightarrow> shm_ring \<Rightarrow> bool" where
  "ring_holds j msgs ring \<longleftrightarrow> ring_shape j ring \<and> length msgs < 2 ^ j \<and>
     header_magic (sr_mmap ring) = magic_num \<and>
     header_head (sr_mmap ring) = word_of_nat (length msgs) \<and>
     (\<forall>i<length msgs. length (fst (msgs ! i)) \<le> 54 \<and> slot_holds (sr_mmap ring) i (msgs ! i))"

lemma unat_count:
  assumes "j \<le> 50" "n < 2 ^ j" shows "unat (word_of_nat n :: u64) = n" "n < 2 ^ 50"
proof -
  have "(2 :: nat) ^ j \<le> 2 ^ 50" using assms(1) by (intro power_increasing) auto
  then show "n < 2 ^ 50" using assms(2) by linarith
  then show "unat (word_of_nat n :: u64) = n" by (simp add: unat_of_nat)
qed

lemma ring_holds_head:
  assumes "ring_holds j msgs ring" "j \<le> 50"
  shows "unat (header_head (sr_mmap ring)) = length msgs"
  using assms unat_count(1) by (simp add: ring_holds_def)

lemma ring_write_holds:
  assumes "ring_holds j msgs ring" "j \<le> 50" "length data \<le> 54" "length msgs + 1 < 2 ^ j"
  shows "\<exists>ring'. ring_write b ring data now = Inr ring' \<and> ring_holds j (msgs @ [(data, now)]) ring'"
proof -
  let ?n = "length msgs" and ?mem = "sr_mmap ring"
  let ?mem' = "put ?mem (64 * (1 + ?n)) (slot_image now data)"
  let ?ring' = "ring\<lparr>sr_mmap := store_head (header_head ?mem + 1) ?mem'\<rparr>"
  note head = ring_holds_head [OF assms(1,2)]
  have shape: "ring_shape j ring" "header_head ?mem = word_of_nat ?n" using assms(1) by (simp_all add: ring_holds_def)
  then have len: "length ?mem = 64 * 2 ^ j" by (simp add: ring_shape_def)
  have fits: "64 * (1 + ?n) + length (slot_image now data) \<le> length ?mem"
    using assms(3,4) unfolding len by simp
  then have len': "length ?mem' = length ?mem" and big: "16 \<le> length ?mem" by simp_all
  have magic: "header_magic ?mem' = magic_num"
    using assms(1) fits by (simp add: ring_holds_def header_magic_def window_put_other)
  have lt: "?n < 2 ^ 50" using unat_count(2) [OF assms(2), of ?n] assms(4) by simp
  have "ring_write b ring data now = Inr ?ring'"
    using ring_write_cases [OF shape(1) assms(2,3)] head assms(4) lt by simp
  moreover have "ring_holds j (msgs @ [(data, now)]) ?ring'"
    unfolding ring_holds_def
  proof (intro conjI allI impI)
    fix i assume i: "i < length (msgs @ [(data, now)])"
    show "length (fst ((msgs @ [(data, now)]) ! i)) \<le> 54"
      using i assms(1,3) by (auto simp: ring_holds_def nth_append)
    show "slot_holds (sr_mmap ?ring') i ((msgs @ [(data, now)]) ! i)"
    proof (cases "i = ?n")
      case True
      then show ?thesis
        using fits big len' by (simp add: slot_holds_def window_store_head window_put_same)
    next
      case False
      then have "slot_holds ?mem i (msgs ! i)" "length (fst (msgs ! i)) \<le> 54" "i < ?n"
        using assms(1) i by (simp_all add: ring_holds_def)
      then show ?thesis
        using fits big len' by (simp add: slot_holds_def nth_append window_store_head window_put_other)
    qed
  qed (use shape big len' magic assms(4) in \<open>simp_all add: ring_shape_def header_stored header_other\<close>)
  ultimately show ?thesis by blast
qed

lemma write_all_holds:
  assumes "ring_holds j old ring" "j \<le> 50" "\<forall>m\<in>set msgs. length (fst m) \<le> 54"
    and "length old + length msgs < 2 ^ j"
  shows "\<exists>ring'. write_all b ring msgs = Inr ring' \<and> ring_holds j (old @ msgs) ring'"
  using assms
proof (induction msgs arbitrary: old ring)
  case (Cons m msgs)
  obtain data now where m: "m = (data, now)" by (cases m)
  obtain r where r: "ring_write b ring data now = Inr r" "ring_holds j (old @ [(data, now)]) r"
    using ring_write_holds [OF Cons.prems(1,2), of data b now] Cons.prems(3,4) by (auto simp: m)
  then have "\<exists>ring'. write_all b r msgs = Inr ring' \<and> ring_holds j ((old @ [(data, now)]) @ msgs) ring'"
    using Cons.prems by (intro Cons.IH) simp_all
  then show ?case using r(1) by (simp add: m)
qed simp

lemma slot_of_image:
  assumes "window bs 0 (10 + length data) = slot_image now data" "length bs = 64" "length data \<le> 54"
  shows "sl_timestamp (slot_of_bytes bs) = now" "sl_len (slot_of_bytes bs) = word_of_nat (length data)"
    "take (length data) (sl_data (slot_of_bytes bs)) = data"
proof -
  let ?w = "window bs 0 (10 + length data)"
  have "window bs 0 8 = window ?w 0 8" "window bs 8 2 = window ?w 8 2"
    "take (length data) (window bs 10 54) = window ?w 10 (length data)"
    using assms(3) by (simp_all add: window_def drop_take min_def)
  then show "sl_timestamp (slot_of_bytes bs) = now" "sl_len (slot_of_bytes bs) = word_of_nat (length data)"
    "take (length data) (sl_data (slot_of_bytes bs)) = data"
    unfolding assms(1) by (simp_all add: slot_of_bytes_def slot_image_def window_def from_to_le_bytes)
qed

text \<open>What a consumer takes out of a slot.\<close>

definition slot_message :: "slot \<Rightarrow> message" where
  "slot_message s = (take (unat (sl_len s)) (sl_data s), sl_timestamp s)"

lemma slot_message_eq:
  assumes "window bs 0 (10 + length (fst msg)) = slot_image (snd msg) (fst msg)" "length bs = 64"
    "length (fst msg) \<le> 54"
  shows "slot_message (slot_of_bytes bs) = msg"
proof -
  have "unat (word_of_nat (length (fst msg)) :: u16) = length (fst msg)"
    using assms(3) by (simp add: unat_of_nat)
  then show ?thesis using slot_of_image [OF assms] by (simp add: slot_message_def)
qed

text \<open>The three memories may be those of three moments, as long as the ring holds at least as many
  messages when the slot is copied as it did when the head was loaded.\<close>

lemma ring_read_moving:
  assumes "ring_holds j msgs1 ring1" "ring_holds j msgs2 ring2" "ring_holds j msgs3 ring3" "j \<le> 50"
    and "i < length msgs1" "length msgs1 \<le> length msgs2"
  shows "\<exists>s. ring_read_observing b (2 ^ j) (sr_mmap ring1) (sr_mmap ring2) (sr_mmap ring3) (word_of_nat i) =
    Inr (Success s) \<and> slot_message s = msgs2 ! i"
proof -
  let ?mem = "sr_mmap ring2" and ?seq = "word_of_nat i :: u64"
  have h1: "unat (header_head (sr_mmap ring1)) = length msgs1" using assms(1,4) by (rule ring_holds_head)
  have h3: "unat (header_head (sr_mmap ring3)) = length msgs3" using assms(3,4) by (rule ring_holds_head)
  have lt: "length msgs1 < 2 ^ j" "length msgs2 < 2 ^ j" "length msgs3 < 2 ^ j"
    using assms(1-3) by (simp_all add: ring_holds_def)
  have iseq: "unat ?seq = i" using unat_count(1) [OF assms(4), of i] assms(5) lt by simp
  obtain off where off: "slot_offset b (2 ^ j) ?seq = Inr off" "unat off = 64 * (1 + i)"
    using slot_offset_exact [OF assms(4), of b ?seq] iseq assms(5,6) lt by auto
  have inside: "64 * (1 + i) + 64 \<le> length ?mem"
    using assms(2,5,6) lt by (simp add: ring_holds_def ring_shape_def)
  have ahead: "\<not> header_head (sr_mmap ring1) \<le> ?seq" "\<not> header_head (sr_mmap ring1) < ?seq"
    using h1 iseq assms(5) by (simp_all add: word_le_nat_alt word_less_nat_alt)
  have cap: "unat (2 ^ j :: u64) = 2 ^ j" using assms(4) by (simp add: unat_2_power)
  have close: "\<not> 2 ^ j < saturating_sub h ?seq" if "unat h < 2 ^ j" for h :: u64
  proof -
    have "unat (saturating_sub h ?seq) \<le> unat h"
      by (auto simp: saturating_sub_def unat_sub_if' word_le_nat_alt word_less_nat_alt)
    then show ?thesis using that cap by (simp add: word_less_nat_alt)
  qed
  let ?s = "slot_of_bytes (window ?mem (64 * (1 + i)) 64)"
  have "ring_read_observing b (2 ^ j) (sr_mmap ring1) ?mem (sr_mmap ring3) ?seq = Inr (Success ?s)"
    using ahead close h1 h3 lt off inside by (simp add: ring_read_observing_def Let_def slot_size_def)
  moreover have "slot_message ?s = msgs2 ! i"
    using assms(2,5,6) inside
    by (intro slot_message_eq) (simp_all add: ring_holds_def slot_holds_def window_window)
  ultimately show ?thesis by blast
qed

lemma ring_holds_capacity: "ring_holds j msgs ring \<Longrightarrow> sr_capacity ring = 2 ^ j"
  by (simp add: ring_holds_def ring_shape_def)

lemma ring_read_holds:
  assumes "ring_holds j msgs ring" "j \<le> 50" "i < length msgs"
  shows "\<exists>s. ring_read b ring (word_of_nat i) = Inr (Success s) \<and> slot_message s = msgs ! i"
  using ring_read_moving [OF assms(1,1,1) assms(2,3)] ring_holds_capacity [OF assms(1)]
  by (simp add: ring_read_def)

lemma ring_read_end:
  assumes "ring_holds j msgs ring" "j \<le> 50"
  shows "ring_read b ring (word_of_nat (length msgs)) = Inr Empty"
  using assms by (simp add: ring_read_def ring_read_observing_def ring_holds_def)

lemma ring_holds_new:
  assumes "j \<le> 50" "create_producer (2 ^ (j + 6)) (Some bytes) = Inr (Inr ring)"
  shows "ring_holds j [] ring"
  using create_producer_shape [OF assms(1), of bytes] assms(2) by (simp add: ring_holds_def)

text \<open>C11: A ring of \<open>2 ^ j\<close> slots created on any old file delivers what it is given: as long as fewer
  messages than slots are written, every one of at most 54 bytes, each can be read back with its
  timestamp, in order, and then the ring reports that it is empty; no write panics.\<close>

theorem ring_delivers_in_order:
  assumes "j \<le> 50" "create_producer (2 ^ (j + 6)) (Some bytes) = Inr (Inr ring)"
    and "length msgs < 2 ^ j" "\<forall>m\<in>set msgs. length (fst m) \<le> 54"
  shows "\<exists>ring'. write_all b ring msgs = Inr ring' \<and>
    (\<forall>i<length msgs. \<exists>s. ring_read b ring' (word_of_nat i) = Inr (Success s) \<and> slot_message s = msgs ! i) \<and>
    ring_read b ring' (word_of_nat (length msgs)) = Inr Empty"
proof -
  obtain ring' where w: "write_all b ring msgs = Inr ring'" "ring_holds j msgs ring'"
    using write_all_holds [OF ring_holds_new [OF assms(1,2)] assms(1,4), of b] assms(3) by auto
  then show ?thesis
    using ring_read_holds [OF w(2) assms(1)] ring_read_end [OF w(2) assms(1)] by blast
qed

theorem ring_delivers_in_order_witness:
  "\<exists>ring ring' s. create_producer 128 (Some []) = Inr (Inr ring) \<and>
     write_all Debug ring [([1, 2, 3], 7)] = Inr ring' \<and>
     ring_read Debug ring' 0 = Inr (Success s) \<and> slot_message s = ([1, 2, 3], 7)"
proof -
  obtain ring where r: "create_producer 128 (Some []) = Inr (Inr ring)"
    using create_producer_shape [of 1 "[]"] by auto
  then have "create_producer (2 ^ (1 + 6)) (Some []) = Inr (Inr ring)" by simp
  from ring_delivers_in_order [OF _ this, of "[([1, 2, 3], 7)]" Debug] r show ?thesis by auto
qed

text \<open>C16: The mapping has no room for the header and all the slots: on a ring of \<open>2 ^ j\<close> slots in a file
  of \<open>64 * 2 ^ j\<close> bytes, the message with number \<open>2 ^ j\<close> is written to the 64 bytes after the end of
  the mapping (for the 64 MiB rings of the applications, the message number 1048576).\<close>

theorem last_slot_outside_mapping:
  assumes "j \<le> 50" "create_producer (2 ^ (j + 6)) (Some bytes) = Inr (Inr ring)"
    and "length msgs = 2 ^ j - 1" "\<forall>m\<in>set msgs. length (fst m) \<le> 54" "length data \<le> 54"
  shows "write_all b ring (msgs @ [(data, now)]) = Inl Wild_Pointer"
proof -
  have "0 < (2 :: nat) ^ j" by simp
  then have n: "length msgs < 2 ^ j" "length msgs mod 2 ^ j = 2 ^ j - 1" using assms(3) by simp_all
  obtain ring' where w: "write_all b ring msgs = Inr ring'" "ring_holds j msgs ring'"
    using write_all_holds [OF ring_holds_new [OF assms(1,2)] assms(1,4), of b] n(1) by auto
  have "unat (header_head (sr_mmap ring')) = length msgs" using w(2) assms(1) by (rule ring_holds_head)
  moreover have "ring_shape j ring'" using w(2) by (simp add: ring_holds_def)
  ultimately have crash: "ring_write b ring' data now = Inl Wild_Pointer"
    using ring_write_cases [of j ring' data b now] unat_count(2) [OF assms(1) n(1)] assms(1,5) n(2) by simp
  have "write_all b r (ms @ [(data, now)]) = r_bind (write_all b r ms) (\<lambda>r'. ring_write b r' data now)" for r ms
  proof (induction ms arbitrary: r)
    case Nil
    show ?case by (cases "ring_write b r data now") simp_all
  next
    case (Cons m ms)
    then show ?case by (cases m) (simp add: r_bind_assoc)
  qed
  then show ?thesis using w(1) crash by simp
qed

theorem last_slot_outside_mapping_witness:
  "\<exists>ring. create_producer 128 (Some []) = Inr (Inr ring) \<and>
     write_all Debug ring [([1], 7), ([2], 8)] = Inl Wild_Pointer"
proof -
  obtain ring where r: "create_producer 128 (Some []) = Inr (Inr ring)"
    using create_producer_shape [of 1 "[]"] by auto
  then have "create_producer (2 ^ (1 + 6)) (Some []) = Inr (Inr ring)" by simp
  from last_slot_outside_mapping [OF _ this, of "[([1], 7)]" "[2]" Debug 8] r show ?thesis by auto
qed

text \<open>A read never reports a reset: the test for a producer that started again comes after a test
  that already covers it, so a restarted producer looks like an empty ring.\<close>

lemma read_never_resets:
  "ring_read_observing b capacity mem_start mem_copy mem_end seq \<noteq> Inr Reset"
  by (auto simp: ring_read_observing_def Let_def word_le_less_eq)

lemma shm_bytes_power: "shm_bytes = 2 ^ (20 + 6)"
  by (simp add: shm_bytes_def)

text \<open>A consumer attaches to the memory of a producer, whatever has been written meanwhile.\<close>

lemma consumer_attaches:
  assumes "ring_holds j msgs ring" "j \<le> 50"
  shows "create_consumer (2 ^ (j + 6)) (Some (sr_mmap ring)) = Inr (Inr ring)"
proof -
  have shape: "ring_shape j ring" "header_magic (sr_mmap ring) = magic_num"
    using assms(1) by (simp_all add: ring_holds_def)
  have "(2 ^ (j + 6) :: u64) div 64 = sr_capacity ring"
    using assms(2) shape(1) capacity_of_size by (simp add: ring_shape_def)
  then show ?thesis
    using assms(2) shape by (simp add: create_consumer_def power_of_two_accepted ring_shape_def slot_size_def)
qed

end
