(* ===== verification/Visualiser.thy ===== *)
theory Visualiser
  imports Shm_Ring Rust_String
begin

text \<open>
  \<open>apps/visualiser/src/main.rs\<close>: the consumer of the telemetry ring. It turns every record into a
  line of the InfluxDB line protocol, collects the lines and posts them in batches. The memories a
  read sees are arguments, as in the model of the ring; the answer of the database only decides
  what is printed, so a post is its body. The CPUs found, the sightings of the ring's file and its
  contents are arguments; sleeping is not modelled.
\<close>

section \<open>One record\<close>

text \<open>\<open>ptr::read(slot.data.as_ptr() as *const TelemetryPayload)\<close>\<close>

definition telemetry_of_bytes :: "byte list \<Rightarrow> telemetry_payload" where
  "telemetry_of_bytes bs =
     \<lparr>tp_timestamp_ns = from_le_bytes (window bs 0 8), tp_realised_pnl = from_le_bytes (window bs 8 8),
      tp_midpoint_px = from_le_bytes (window bs 16 4), tp_position = from_le_bytes (window bs 20 4),
      tp_latency_ns = from_le_bytes (window bs 24 4), tp_locate_id = from_le_bytes (window bs 28 2)\<rparr>"

definition record_line :: "telemetry_payload \<Rightarrow> rstring" where
  "record_line payload =
     rstr ''strategy_state,symbol='' @
     (if tp_locate_id payload = 13 then rstr ''AAPL'' else rstr ''MSFT'') @
     rstr '' price='' @ fmt_nat (unat (tp_midpoint_px payload)) @
     rstr '',position='' @ fmt_int (sint (tp_position payload)) @
     rstr '',pnl='' @ fmt_int (sint (tp_realised_pnl payload)) @
     rstr '',latency='' @ fmt_nat (unat (tp_latency_ns payload)) @
     rstr '' '' @ fmt_nat (unat (tp_timestamp_ns payload)) @ [10]"

section \<open>Batching\<close>

text \<open>\<open>vz_posts\<close> are the bodies posted so far. The count is below the batch limit, so \<open>usize\<close> is
  modelled by natural numbers.\<close>

record visualiser =
  vz_sequence_num :: u64
  vz_batch_buffer :: rstring
  vz_records_in_batch :: nat
  vz_posts :: "rstring list"

definition new_visualiser :: visualiser where
  "new_visualiser =
     \<lparr>vz_sequence_num = 0, vz_batch_buffer = [], vz_records_in_batch = 0, vz_posts = []\<rparr>"

definition batch_size_limit :: nat where
  "batch_size_limit = 5000"

definition flush_to_influx :: "visualiser \<Rightarrow> visualiser" where
  "flush_to_influx v =
     v\<lparr>vz_posts := vz_posts v @ [vz_batch_buffer v], vz_batch_buffer := [], vz_records_in_batch := 0\<rparr>"

text \<open>The match on the result of a read.\<close>

fun handle_result :: "build \<Rightarrow> visualiser \<Rightarrow> read_result \<Rightarrow> visualiser res" where
  "handle_result b v (Success s) =
     r_bind (add_u b (vz_sequence_num v) 1) (\<lambda>n.
     let v1 = v\<lparr>vz_batch_buffer := vz_batch_buffer v @ record_line (telemetry_of_bytes (sl_data s)),
                vz_records_in_batch := vz_records_in_batch v + 1, vz_sequence_num := n\<rparr>
     in Inr (if batch_size_limit < vz_records_in_batch v1 then flush_to_influx v1 else v1))"
| "handle_result b v Empty = Inr (if 0 < vz_records_in_batch v then flush_to_influx v else v)"
| "handle_result b v Reset =
     Inr (v\<lparr>vz_sequence_num := 0, vz_batch_buffer := [], vz_records_in_batch := 0\<rparr>)"
| "handle_result b v (Overlapped new_seq_num) = Inr (v\<lparr>vz_sequence_num := new_seq_num\<rparr>)"
| "handle_result b v (Interrupted new_seq_num) = Inr (v\<lparr>vz_sequence_num := new_seq_num\<rparr>)"

type_synonym sighting = "byte list \<times> byte list \<times> byte list"

definition read_next :: "build \<Rightarrow> u64 \<Rightarrow> visualiser \<Rightarrow> sighting \<Rightarrow> read_result res" where
  "read_next b capacity v seen =
     (case seen of (mem_start, mem_copy, mem_end) \<Rightarrow>
        ring_read_observing b capacity mem_start mem_copy mem_end (vz_sequence_num v))"

fun visualise :: "build \<Rightarrow> u64 \<Rightarrow> visualiser \<Rightarrow> sighting list \<Rightarrow> visualiser res" where
  "visualise b capacity v [] = Inr v"
| "visualise b capacity v (seen # rest) =
     r_bind (read_next b capacity v seen) (\<lambda>result.
     r_bind (handle_result b v result) (\<lambda>v'. visualise b capacity v' rest))"

section \<open>Starting\<close>

text \<open>The loop that waits for the file of the ring, from round \<open>i\<close>; \<open>seen_at i\<close> tells whether the file
  exists in that round.\<close>

function wait_for_file :: "(nat \<Rightarrow> bool) \<Rightarrow> nat \<Rightarrow> bool" where
  "wait_for_file seen_at i =
     (if i < 50 then if seen_at i then True else wait_for_file seen_at (i + 1) else False)"
  by pat_completeness auto

termination
  by (relation "measure (\<lambda>(seen_at, i). 50 - i)") auto

declare wait_for_file.simps [simp del]

text \<open>\<open>main\<close> up to its loop. It says that it can do without a second CPU, and then takes it
  nevertheless (\<open>core_ids[1]\<close>).\<close>

definition visualiser_start ::
    "'core list option \<Rightarrow> (nat \<Rightarrow> bool) \<Rightarrow> byte list option \<Rightarrow> (ring_error + shm_ring) res" where
  "visualiser_start core_ids seen_at file =
     (case core_ids of
        None \<Rightarrow> Inl Unwrap_None
      | Some ids \<Rightarrow>
          r_bind (index ids 1) (\<lambda>producer_core.
          if \<not> wait_for_file seen_at 1 then Inl Explicit_Panic
          else create_consumer shm_bytes file))"

definition visualiser_main ::
    "build \<Rightarrow> 'core list option \<Rightarrow> (nat \<Rightarrow> bool) \<Rightarrow> byte list option \<Rightarrow> sighting list
     \<Rightarrow> (ring_error + visualiser) res" where
  "visualiser_main b core_ids seen_at file seen =
     r_bind (visualiser_start core_ids seen_at file) (\<lambda>started.
     case started of
       Inl e \<Rightarrow> Inr (Inl e)
     | Inr ring \<Rightarrow>
         r_bind (visualise b (sr_capacity ring) new_visualiser seen) (\<lambda>v. Inr (Inr v)))"

lemma wait_for_file_iff: "wait_for_file seen_at i \<longleftrightarrow> (\<exists>k. i \<le> k \<and> k < 50 \<and> seen_at k)"
proof (induction seen_at i rule: wait_for_file.induct)
  case (1 seen_at i)
  have "i \<le> k \<longleftrightarrow> k = i \<or> i + 1 \<le> k" for k by arith
  then have unfold: "(\<exists>k. i \<le> k \<and> k < 50 \<and> seen_at k) \<longleftrightarrow>
      i < 50 \<and> seen_at i \<or> (\<exists>k. i + 1 \<le> k \<and> k < 50 \<and> seen_at k)"
    by metis
  show ?case
  proof (cases "i < 50 \<and> \<not> seen_at i")
    case True
    then show ?thesis using 1 unfolding unfold by (subst wait_for_file.simps) simp
  next
    case False
    then show ?thesis unfolding unfold by (subst wait_for_file.simps) auto
  qed
qed

text \<open>The visualiser starts exactly when the machine has at least two CPUs, the file of the ring
  exists at one of the 49 looks, and its memory has been initialised by a producer; it then reads
  a ring of 1048576 slots.\<close>

lemma visualiser_start_iff:
  "visualiser_start (Some ids) seen_at (Some mem) = Inr (Inr ring) \<longleftrightarrow>
     2 \<le> length ids \<and> (\<exists>k. 1 \<le> k \<and> k < 50 \<and> seen_at k) \<and>
     64 \<le> length mem \<and> header_magic mem = magic_num \<and>
     ring = \<lparr>sr_mmap = mem, sr_capacity = 2 ^ 20\<rparr>"
proof -
  have "\<not> size_rejected shm_bytes" "shm_bytes div 64 = 2 ^ 20"
    using power_of_two_accepted [of 26] by (simp_all add: shm_bytes_def)
  then have "create_consumer shm_bytes (Some mem) = Inr (Inr ring) \<longleftrightarrow> 64 \<le> length mem \<and>
      header_magic mem = magic_num \<and> ring = \<lparr>sr_mmap = mem, sr_capacity = 2 ^ 20\<rparr>"
    by (auto simp: create_consumer_def slot_size_def)
  then show ?thesis
    by (auto simp: visualiser_start_def index_def wait_for_file_iff)
qed

section \<open>No record is lost between the ring and the database\<close>

text \<open>The records read successfully in a run.\<close>

fun records_read :: "build \<Rightarrow> u64 \<Rightarrow> visualiser \<Rightarrow> sighting list \<Rightarrow> telemetry_payload list" where
  "records_read b capacity v [] = []"
| "records_read b capacity v (seen # rest) =
     (case read_next b capacity v seen of
        Inl _ \<Rightarrow> []
      | Inr result \<Rightarrow>
          (case result of Success s \<Rightarrow> [telemetry_of_bytes (sl_data s)] | _ \<Rightarrow> []) @
          (case handle_result b v result of Inl _ \<Rightarrow> [] | Inr v' \<Rightarrow> records_read b capacity v' rest))"

definition vz_output :: "visualiser \<Rightarrow> rstring" where
  "vz_output v = concat (vz_posts v) @ vz_batch_buffer v"

lemma read_next_not_Reset: "read_next b capacity v seen \<noteq> Inr Reset"
  by (cases seen) (auto simp: read_next_def ring_read_observing_def Let_def)

lemma handle_result_output:
  assumes "handle_result b v result = Inr v'" "result \<noteq> Reset" "vz_records_in_batch v \<le> 5000"
  shows "vz_output v' = vz_output v @
      (case result of Success s \<Rightarrow> record_line (telemetry_of_bytes (sl_data s)) | _ \<Rightarrow> [])"
    "vz_records_in_batch v' \<le> 5000"
proof -
  have "vz_output v' = vz_output v @
      (case result of Success s \<Rightarrow> record_line (telemetry_of_bytes (sl_data s)) | _ \<Rightarrow> []) \<and>
    vz_records_in_batch v' \<le> 5000"
  proof (cases result)
    case (Success s)
    define line where "line = record_line (telemetry_of_bytes (sl_data s))"
    obtain n where "v' = (let v1 = v\<lparr>vz_batch_buffer := vz_batch_buffer v @ line,
        vz_records_in_batch := vz_records_in_batch v + 1, vz_sequence_num := n\<rparr>
      in if batch_size_limit < vz_records_in_batch v1 then flush_to_influx v1 else v1)"
      using assms(1) unfolding Success handle_result.simps r_bind_Inr_iff Let_def line_def by blast
    then have "vz_output v' = vz_output v @ line \<and> vz_records_in_batch v' \<le> 5000"
      by (simp add: Let_def vz_output_def flush_to_influx_def batch_size_limit_def)
    then show ?thesis by (simp add: Success line_def)
  next
    case Empty
    then show ?thesis
      using assms(1,3) by (cases "0 < vz_records_in_batch v") (auto simp: vz_output_def flush_to_influx_def)
  qed (use assms in \<open>auto simp: vz_output_def\<close>)
  then show "vz_output v' = vz_output v @
      (case result of Success s \<Rightarrow> record_line (telemetry_of_bytes (sl_data s)) | _ \<Rightarrow> [])"
    "vz_records_in_batch v' \<le> 5000" by blast+
qed

lemma visualise_output:
  assumes "visualise b capacity v seen = Inr v'" "vz_records_in_batch v \<le> 5000"
  shows "vz_output v' = vz_output v @ concat (map record_line (records_read b capacity v seen)) \<and>
    vz_records_in_batch v' \<le> 5000"
  using assms
proof (induction seen arbitrary: v)
  case (Cons x seen)
  obtain result v1 where r: "read_next b capacity v x = Inr result" "handle_result b v result = Inr v1"
    and rest: "visualise b capacity v1 seen = Inr v'"
    using Cons.prems(1) by auto
  have "result \<noteq> Reset" using r(1) read_next_not_Reset by metis
  note out = handle_result_output [OF r(2) this Cons.prems(2)]
  show ?case
    using Cons.IH [OF rest out(2)] out(1) r by (auto split: read_result.splits)
qed simp

text \<open>C23: Whatever the producer does meanwhile, every record read successfully is posted exactly once,
  in order: the posted bodies followed by the unposted buffer are the lines of the records read,
  and the buffer never keeps more than 5000 of them.\<close>

theorem visualiser_posts_every_record:
  assumes "visualise b capacity new_visualiser seen = Inr v"
  shows "concat (vz_posts v) @ vz_batch_buffer v =
      concat (map record_line (records_read b capacity new_visualiser seen)) \<and>
    vz_records_in_batch v \<le> 5000"
  using visualise_output [OF assms] by (simp add: vz_output_def new_visualiser_def)

section \<open>From the market handler to the database\<close>

lemma telemetry_roundtrip: "telemetry_of_bytes (telemetry_bytes t @ rest) = t"
  by (simp add: telemetry_of_bytes_def telemetry_bytes_def window_def from_to_le_bytes)

lemma telemetry_slot:
  assumes "slot_message s = (telemetry_bytes t, now)"
  shows "telemetry_of_bytes (sl_data s) = t"
proof -
  have "sl_data s = telemetry_bytes t @ drop (unat (sl_len s)) (sl_data s)"
    using assms by (metis append_take_drop_id prod.inject slot_message_def)
  then show ?thesis by (metis telemetry_roundtrip)
qed

lemma visualise_pending:
  assumes "ring_holds j msgs ring" "j \<le> 50" "map fst msgs = map telemetry_bytes ts"
    and "i + n = length msgs" "vz_sequence_num v = word_of_nat i" "vz_records_in_batch v = i"
    and "length msgs \<le> 5000" "mem = sr_mmap ring"
  shows "visualise b (sr_capacity ring) v (replicate n (mem, mem, mem)) =
    Inr (v\<lparr>vz_sequence_num := word_of_nat (length msgs), vz_records_in_batch := length msgs,
      vz_batch_buffer := vz_batch_buffer v @ concat (map record_line (drop i ts))\<rparr>)"
  using assms(4-6)
proof (induction n arbitrary: i v)
  case 0
  have "length ts = length msgs" using arg_cong [OF assms(3), of length] by simp
  with 0 show ?case by simp
next
  case (Suc n)
  have len: "length ts = length msgs" using arg_cong [OF assms(3), of length] by simp
  have i: "i < length msgs" using Suc.prems(1) by simp
  obtain s where s: "ring_read b ring (word_of_nat i) = Inr (Success s)" "slot_message s = msgs ! i"
    using ring_read_holds [OF assms(1,2) i, of b] by blast
  have "fst (msgs ! i) = telemetry_bytes (ts ! i)"
    using arg_cong [OF assms(3), of "\<lambda>xs. xs ! i"] i len by simp
  then have t: "telemetry_of_bytes (sl_data s) = ts ! i"
    using s(2) by (intro telemetry_slot [of s _ "snd (msgs ! i)"]) (simp add: prod_eq_iff)
  have "i < 2 ^ j" using assms(1) i by (simp add: ring_holds_def)
  then have "unat (word_of_nat i :: u64) = i" "i < 2 ^ 50" using unat_count [OF assms(2)] by auto
  then have "add_u b (word_of_nat i) (1 :: u64) = Inr (word_of_nat i + 1)"
    by (intro add_u_exact(1)) simp
  moreover have "read_next b (sr_capacity ring) v (mem, mem, mem) = Inr (Success s)"
    using s(1) Suc.prems(2) by (simp add: read_next_def ring_read_def assms(8))
  moreover have "drop i ts = ts ! i # drop (Suc i) ts" using i len by (simp add: Cons_nth_drop_Suc)
  ultimately show ?case
    using Suc.prems i assms(7) by (simp add: t batch_size_limit_def Let_def Suc.IH [of "Suc i"])
qed

text \<open>A ring with between 1 and 5000 records is posted as exactly one batch with one line per record, in
  order, each with the numbers of its record.\<close>

lemma pending_records_posted:
  assumes "ring_holds j msgs ring" "j \<le> 50" "map fst msgs = map telemetry_bytes ts"
    and "0 < length msgs" "length msgs \<le> 5000" "mem = sr_mmap ring"
  shows "\<exists>v. visualise b (sr_capacity ring) new_visualiser
      (replicate (length msgs) (mem, mem, mem) @ [(mem, mem, mem)]) = Inr v \<and>
    vz_posts v = [concat (map record_line ts)] \<and> vz_batch_buffer v = []"
proof -
  have append: "visualise b c v (xs @ ys) = r_bind (visualise b c v xs) (\<lambda>v'. visualise b c v' ys)" for c v xs ys
    by (induction xs arbitrary: v) (simp_all add: r_bind_assoc)
  have "read_next b (sr_capacity ring) v (mem, mem, mem) = Inr Empty"
    if "vz_sequence_num v = word_of_nat (length msgs)" for v
    using ring_read_end [OF assms(1,2), of b] that by (simp add: read_next_def ring_read_def assms(6))
  then show ?thesis
    unfolding append
    using visualise_pending [OF assms(1-3), of 0 "length msgs" new_visualiser mem b] assms(4-6)
    by (simp add: new_visualiser_def flush_to_influx_def)
qed
section \<open>Reading while the records are written\<close>

text \<open>A memory that holds the first \<open>n\<close> of the records \<open>ts\<close>; and a read whose three accesses see the
  ring at three moments, in order. The last of them may come arbitrarily later.\<close>

definition shows_records :: "telemetry_payload list \<Rightarrow> nat \<Rightarrow> byte list \<Rightarrow> bool" where
  "shows_records ts n mem \<longleftrightarrow> n \<le> length ts \<and>
     (\<exists>msgs ring. ring_holds 20 msgs ring \<and> map fst msgs = map telemetry_bytes (take n ts) \<and> mem = sr_mmap ring)"

definition sighting_of :: "telemetry_payload list \<Rightarrow> sighting \<Rightarrow> bool" where
  "sighting_of ts seen \<longleftrightarrow>
     (\<exists>n1 n2 n3. n1 \<le> n2 \<and> shows_records ts n1 (fst seen) \<and> shows_records ts n2 (fst (snd seen)) \<and>
        shows_records ts n3 (snd (snd seen)))"

text \<open>The records \<open>ts\<close> up to the \<open>i\<close>-th have gone through.\<close>

definition caught_up :: "telemetry_payload list \<Rightarrow> nat \<Rightarrow> visualiser \<Rightarrow> bool" where
  "caught_up ts i v \<longleftrightarrow> i \<le> length ts \<and> vz_sequence_num v = word_of_nat i \<and>
     vz_output v = concat (map record_line (take i ts)) \<and> vz_records_in_batch v \<le> 5000 \<and>
     (vz_records_in_batch v = 0 \<longrightarrow> vz_batch_buffer v = [])"

lemma caught_up_new: "caught_up ts 0 new_visualiser"
  by (simp add: caught_up_def new_visualiser_def vz_output_def)

lemma read_shown:
  assumes "shows_records ts n1 m1" "shows_records ts n2 m2" "shows_records ts n3 m3" "n1 \<le> n2"
    and "vz_sequence_num v = word_of_nat i" "i < 2 ^ 64"
  shows "if i < n1 then \<exists>s. read_next b (2 ^ 20) v (m1, m2, m3) = Inr (Success s) \<and>
      telemetry_of_bytes (sl_data s) = ts ! i
    else read_next b (2 ^ 20) v (m1, m2, m3) = Inr Empty"
proof -
  obtain msgs1 r1 where 1: "ring_holds 20 msgs1 r1" "map fst msgs1 = map telemetry_bytes (take n1 ts)" "m1 = sr_mmap r1"
    and "n1 \<le> length ts" using assms(1) by (auto simp: shows_records_def)
  obtain msgs2 r2 where 2: "ring_holds 20 msgs2 r2" "map fst msgs2 = map telemetry_bytes (take n2 ts)" "m2 = sr_mmap r2"
    and "n2 \<le> length ts" using assms(2) by (auto simp: shows_records_def)
  obtain msgs3 r3 where 3: "ring_holds 20 msgs3 r3" "m3 = sr_mmap r3" using assms(3) by (auto simp: shows_records_def)
  have len: "length msgs1 = n1" "length msgs2 = n2"
    using arg_cong [OF 1(2), of length] arg_cong [OF 2(2), of length] \<open>n1 \<le> length ts\<close> \<open>n2 \<le> length ts\<close> by simp_all
  show ?thesis
  proof (cases "i < n1")
    case True
    then have i: "i < length msgs1" "i < n2" using len assms(4) by simp_all
    obtain s where s: "ring_read_observing b (2 ^ 20) m1 m2 m3 (word_of_nat i) = Inr (Success s)"
      "slot_message s = msgs2 ! i"
      using ring_read_moving [OF 1(1) 2(1) 3(1) _ i(1), of b] len assms(4) by (auto simp: 1 2 3)
    have "fst (msgs2 ! i) = telemetry_bytes (ts ! i)"
      using arg_cong [OF 2(2), of "\<lambda>xs. xs ! i"] i(2) len \<open>n2 \<le> length ts\<close> by simp
    then have "telemetry_of_bytes (sl_data s) = ts ! i"
      using s(2) by (intro telemetry_slot [of s _ "snd (msgs2 ! i)"]) (simp add: prod_eq_iff)
    with True s(1) show ?thesis by (simp add: read_next_def assms(5))
  next
    case False
    have "unat (word_of_nat i :: u64) = i" using assms(6) by (simp add: unat_of_nat)
    then have "header_head m1 \<le> word_of_nat i"
      using ring_holds_head [OF 1(1)] False len by (simp add: word_le_nat_alt 1(3))
    then show ?thesis using False by (simp add: read_next_def ring_read_observing_def assms(5))
  qed
qed

text \<open>One read takes the next record if its first access sees it, and posts the batch otherwise.\<close>

lemma caught_up_read:
  assumes "shows_records ts n1 m1" "shows_records ts n2 m2" "shows_records ts n3 m3" "n1 \<le> n2"
    and "caught_up ts i v" "length ts < 2 ^ 20"
  shows "\<exists>v'. visualise b (2 ^ 20) v [(m1, m2, m3)] = Inr v' \<and>
    (if i < n1 then caught_up ts (i + 1) v' else caught_up ts i v' \<and> vz_batch_buffer v' = [])"
proof -
  have v: "vz_sequence_num v = word_of_nat i" "i \<le> length ts" using assms(5) by (simp_all add: caught_up_def)
  have n1: "n1 \<le> length ts" using assms(1) by (simp add: shows_records_def)
  have "i < 2 ^ 64" using v(2) assms(6) by simp
  note read = read_shown [OF assms(1-4) v(1) this, of b]
  show ?thesis
  proof (cases "i < n1")
    case True
    then obtain s where s: "read_next b (2 ^ 20) v (m1, m2, m3) = Inr (Success s)"
      "telemetry_of_bytes (sl_data s) = ts ! i"
      using read by auto
    have "unat (word_of_nat i :: u64) = i" "i < 2 ^ 50" using unat_count [of 20 i] v(2) assms(6) by simp_all
    then have next_seq: "add_u b (word_of_nat i) (1 :: u64) = Inr (word_of_nat i + 1)"
      by (intro add_u_exact(1)) simp
    define v1 where "v1 = v\<lparr>vz_batch_buffer := vz_batch_buffer v @ record_line (ts ! i),
      vz_records_in_batch := vz_records_in_batch v + 1, vz_sequence_num := word_of_nat (i + 1)\<rparr>"
    have step: "visualise b (2 ^ 20) v [(m1, m2, m3)] =
        Inr (if 5000 < vz_records_in_batch v1 then flush_to_influx v1 else v1)"
      using s v(1) next_seq by (simp add: Let_def v1_def batch_size_limit_def add.commute)
    have "take (Suc i) ts = take i ts @ [ts ! i]"
      using True n1 by (simp add: take_Suc_conv_app_nth)
    then have "vz_output v1 = concat (map record_line (take (i + 1) ts))"
      using assms(5) by (simp add: caught_up_def v1_def vz_output_def)
    then show ?thesis
      unfolding step using True n1 assms(5)
      by (auto simp: caught_up_def v1_def vz_output_def flush_to_influx_def)
  next
    case False
    then have "visualise b (2 ^ 20) v [(m1, m2, m3)] =
        Inr (if 0 < vz_records_in_batch v then flush_to_influx v else v)"
      using read by simp
    then show ?thesis using False assms(5) by (auto simp: caught_up_def vz_output_def flush_to_influx_def)
  qed
qed

lemma visualise_append:
  "visualise b c v (xs @ ys) = r_bind (visualise b c v xs) (\<lambda>v'. visualise b c v' ys)"
  by (induction xs arbitrary: v) (simp_all add: r_bind_assoc)

lemma caught_up_reads:
  assumes "\<forall>seen\<in>set before. sighting_of ts seen" "caught_up ts i v" "length ts < 2 ^ 20"
  shows "\<exists>i' v'. visualise b (2 ^ 20) v before = Inr v' \<and> caught_up ts i' v'"
  using assms(1,2)
proof (induction before arbitrary: i v)
  case (Cons seen before)
  obtain m1 m2 m3 where seen: "seen = (m1, m2, m3)" by (cases seen)
  obtain n1 n2 n3 where "shows_records ts n1 m1" "shows_records ts n2 m2" "shows_records ts n3 m3" "n1 \<le> n2"
    using Cons.prems(1) by (auto simp: sighting_of_def seen)
  from caught_up_read [OF this Cons.prems(2) assms(3), of b]
  obtain v1 i1 where v1: "visualise b (2 ^ 20) v [seen] = Inr v1" "caught_up ts i1 v1"
    by (auto simp only: seen split: if_splits)
  have "visualise b (2 ^ 20) v (seen # before) = visualise b (2 ^ 20) v1 before"
    using v1(1) visualise_append [of b "2 ^ 20" v "[seen]" before]
    by (simp only: append_Cons append_Nil r_bind.simps)
  then show ?case using Cons.IH [OF _ v1(2)] Cons.prems(1) by (simp del: visualise.simps)
qed auto

text \<open>Once all the records are there, one read more than there are records leaves nothing unposted.\<close>

lemma remaining_reads:
  assumes "shows_records ts (length ts) mem" "caught_up ts i v" "length ts < 2 ^ 20" "length ts < i + n"
  shows "\<exists>v'. visualise b (2 ^ 20) v (replicate n (mem, mem, mem)) = Inr v' \<and> caught_up ts (length ts) v' \<and>
    vz_batch_buffer v' = []"
  using assms(2,4)
proof (induction n arbitrary: i v)
  case 0
  then show ?case by (simp add: caught_up_def)
next
  case (Suc n)
  have i: "i \<le> length ts" using Suc.prems(1) by (simp add: caught_up_def)
  obtain v1 where v1: "visualise b (2 ^ 20) v [(mem, mem, mem)] = Inr v1"
    "if i < length ts then caught_up ts (i + 1) v1 else caught_up ts i v1 \<and> vz_batch_buffer v1 = []"
    using caught_up_read [OF assms(1,1,1) _ Suc.prems(1) assms(3), of b] by auto
  have run: "visualise b (2 ^ 20) v (replicate (Suc n) (mem, mem, mem)) =
      visualise b (2 ^ 20) v1 (replicate n (mem, mem, mem))"
    using v1(1) visualise_append [of b "2 ^ 20" v "[(mem, mem, mem)]" "replicate n (mem, mem, mem)"]
    by (simp only: replicate_Suc append_Cons append_Nil r_bind.simps)
  show ?case
  proof (cases "i < length ts")
    case True
    then show ?thesis unfolding run using Suc.IH [of "i + 1" v1] v1(2) Suc.prems(2) by simp
  next
    case False
    then have idle: "caught_up ts (length ts) v1" "vz_batch_buffer v1 = []" using v1(2) i by simp_all
    show ?thesis
    proof (cases n)
      case 0
      then show ?thesis unfolding run using idle by simp
    next
      case (Suc k)
      then show ?thesis unfolding run using Suc.IH [of "length ts" v1] idle by simp
    qed
  qed
qed
text \<open>From any position in the stream, reads of a memory that does not change take the records from there
  on and no others.\<close>

lemma visualise_from:
  assumes "shows_records ts (length ts) mem" "length ts < 2 ^ 20"
    and "vz_sequence_num v = word_of_nat k" "k < 2 ^ 64" "vz_records_in_batch v \<le> 5000"
  shows "\<exists>v'. visualise b (2 ^ 20) v (replicate n (mem, mem, mem)) = Inr v' \<and>
    vz_output v' = vz_output v @ concat (map record_line (take n (drop k ts)))"
  using assms(3-5)
proof (induction n arbitrary: k v)
  case (Suc n)
  note read = read_shown [OF assms(1,1,1) _ Suc.prems(1,2), of b]
  show ?case
  proof (cases "k < length ts")
    case True
    then obtain s where s: "read_next b (2 ^ 20) v (mem, mem, mem) = Inr (Success s)"
      "telemetry_of_bytes (sl_data s) = ts ! k"
      using read by auto
    have "unat (word_of_nat k :: u64) = k" "k < 2 ^ 50" using unat_count [of 20 k] True assms(2) by simp_all
    then have next_seq: "add_u b (word_of_nat k) (1 :: u64) = Inr (word_of_nat k + 1)"
      by (intro add_u_exact(1)) simp
    define v0 where "v0 = v\<lparr>vz_batch_buffer := vz_batch_buffer v @ record_line (telemetry_of_bytes (sl_data s)),
      vz_records_in_batch := vz_records_in_batch v + 1, vz_sequence_num := word_of_nat k + 1\<rparr>"
    define v1 where "v1 = (if batch_size_limit < vz_records_in_batch v0 then flush_to_influx v0 else v0)"
    have v1: "handle_result b v (Success s) = Inr v1" "vz_sequence_num v1 = word_of_nat (Suc k)"
      by (simp only: handle_result.simps Suc.prems(1) next_seq r_bind.simps Let_def v0_def v1_def)
        (simp add: v1_def v0_def flush_to_influx_def add.commute)
    note out = handle_result_output [OF v1(1) _ Suc.prems(3)]
    have "take (Suc n) (drop k ts) = ts ! k # take n (drop (Suc k) ts)"
      using True by (simp add: Cons_nth_drop_Suc [symmetric])
    moreover have "Suc k < 2 ^ 64" using True assms(2) by simp
    moreover have "visualise b (2 ^ 20) v (replicate (Suc n) (mem, mem, mem)) =
        visualise b (2 ^ 20) v1 (replicate n (mem, mem, mem))"
      by (simp only: replicate_Suc visualise.simps s(1) v1(1) r_bind.simps)
    ultimately show ?thesis using Suc.IH [OF v1(2) _ out(2)] s(2) out(1) by simp
  next
    case False
    then have empty: "read_next b (2 ^ 20) v (mem, mem, mem) = Inr Empty" using read by simp
    obtain v1 where v1: "handle_result b v Empty = Inr v1" "vz_sequence_num v1 = word_of_nat k"
      using Suc.prems(1) by (auto simp: flush_to_influx_def)
    note out = handle_result_output [OF v1(1) _ Suc.prems(3)]
    have "drop k ts = []" using False by simp
    moreover have "visualise b (2 ^ 20) v (replicate (Suc n) (mem, mem, mem)) =
        visualise b (2 ^ 20) v1 (replicate n (mem, mem, mem))"
      by (simp only: replicate_Suc visualise.simps empty v1(1) r_bind.simps)
    ultimately show ?thesis using Suc.IH [OF v1(2) Suc.prems(2) out(2)] out(1) by simp
  qed
qed simp

end
