(* ===== verification/Telemetry_Path.thy ===== *)
theory Telemetry_Path
  imports Replay_Engine Visualiser "HOL-Library.Sublist"
begin

text \<open>
  The telemetry writer of \<open>apps/replay-engine/src/main.rs\<close>, which puts every record into a shared
  memory ring, and the path of a record from the market handler over this ring to the database. The
  market handler is the same for every writer: a writer that simulates another one, record by
  record, gives the same session. A ring simulates the plain list of the records as long as it
  has room, so what the visualiser posts is what the market handler reported.
\<close>

section \<open>The writers\<close>

text \<open>The writer of the tests of the market handler: the list of everything written.\<close>

definition list_writer :: "byte list list writer_ops" where
  "list_writer = \<lparr>wr_write = (\<lambda>w bs. Inr (w @ [bs]))\<rparr>"

record telemetry_writer =
  tw_outbound :: shm_ring

definition new_telemetry_writer :: "byte list option \<Rightarrow> telemetry_writer res" where
  "new_telemetry_writer file =
     r_bind (expect_ok (create_producer shm_bytes file)) (\<lambda>outbound. Inr \<lparr>tw_outbound = outbound\<rparr>)"

definition telemetry_writer_ops ::
    "build \<Rightarrow> (telemetry_writer \<Rightarrow> u64) \<Rightarrow> telemetry_writer writer_ops" where
  "telemetry_writer_ops b clock =
     \<lparr>wr_write = (\<lambda>w data.
        r_bind (ring_write b (tw_outbound w) data (clock w)) (\<lambda>ring. Inr (w\<lparr>tw_outbound := ring\<rparr>)))\<rparr>"

section \<open>The market handler with another writer\<close>

definition with_writer :: "'w \<Rightarrow> ('s, 'v) market_state \<Rightarrow> ('s, 'w) market_state" where
  "with_writer w m =
     \<lparr>ms_processors = ms_processors m, ms_lookup_table = ms_lookup_table m,
      ms_global_order_id_counter = ms_global_order_id_counter m, ms_telemetry_writer = w,
      ms_current_time_ns = ms_current_time_ns m, ms_midnight_today_ns = ms_midnight_today_ns m\<rparr>"

lemma with_writer_simps [simp]:
  "ms_processors (with_writer w m) = ms_processors m"
  "ms_lookup_table (with_writer w m) = ms_lookup_table m"
  "ms_global_order_id_counter (with_writer w m) = ms_global_order_id_counter m"
  "ms_telemetry_writer (with_writer w m) = w"
  "ms_current_time_ns (with_writer w m) = ms_current_time_ns m"
  "ms_midnight_today_ns (with_writer w m) = ms_midnight_today_ns m"
  "with_writer w (m\<lparr>ms_current_time_ns := t\<rparr>) = (with_writer w m)\<lparr>ms_current_time_ns := t\<rparr>"
  "with_writer w (m\<lparr>ms_processors := ps\<rparr>) = (with_writer w m)\<lparr>ms_processors := ps\<rparr>"
  by (simp_all add: with_writer_def)

lemma with_writer_new:
  "new_market b names s v secs = Inr m \<Longrightarrow> new_market b names s w secs = Inr (with_writer w m)"
  by (auto simp: new_market_def with_writer_def Let_def)

lemma directory_with_writer:
  "handle_stock_directory (with_writer w m) loc name = with_writer w (handle_stock_directory m loc name)"
  by (simp add: handle_stock_directory_def with_writer_def split: option.split)

lemma confirm_with_writer:
  "confirm_order st (with_writer w m) r = map_sum id (with_writer w) (confirm_order st m r)"
  by (auto simp: confirm_order_def Let_def split: r_bind_split prod.split)

lemma confirm_keeps_writer:
  "confirm_order st m r = Inr m' \<Longrightarrow> ms_telemetry_writer m' = ms_telemetry_writer m"
  by (auto simp: confirm_order_def Let_def split: if_splits)

lemma poll_with_writer:
  "poll_confirmed_orders st gw m g = Some result \<Longrightarrow>
   case result of Inl e \<Rightarrow> True
   | Inr (m', g') \<Rightarrow> ms_telemetry_writer m' = ms_telemetry_writer m \<and>
       poll_confirmed_orders st gw (with_writer w m) g = Some (Inr (with_writer w m', g'))"
proof (induction rule: poll_confirmed_orders.raw_induct [rotated, consumes 1, case_names step])
  case (step poll st gw m g result)
  show ?case
    using step(2)
    by (subst poll_confirmed_orders.simps)
      (auto split: sum.splits prod.splits option.splits dest!: step(1)
        simp: confirm_with_writer confirm_keeps_writer)
qed

section \<open>A writer that simulates another\<close>

text \<open>A report writes one record or nothing, and the rest does not depend on the writer.\<close>

lemma send_telemetry_record:
  assumes "send_telemetry b gw wr p v g t = Inr (p', v')"
  shows "(\<exists>tel. wr_write wr v (telemetry_bytes tel) = Inr v' \<and>
      (\<forall>w w'. wr_write wr' w (telemetry_bytes tel) = Inr w' \<longrightarrow>
        send_telemetry b gw wr' p w g t = Inr (p', w'))) \<or>
    v' = v \<and> (\<forall>w. send_telemetry b gw wr' p w g t = Inr (p', w))"
proof -
  obtain mp where mp: "midpoint b (sp_order_book p) = Inr mp"
    using assms by (auto simp: send_telemetry_def)
  show ?thesis
  proof (cases "0 < mp \<and> mp \<noteq> sp_last_midpoint p")
    case True
    then show ?thesis
      using assms mp by (intro disjI1) (auto simp: send_telemetry_def Let_def)
  next
    case False
    then have "v' = v \<and> (\<forall>w. send_telemetry b gw wr' p w g t = Inr (p', w))"
      using assms mp unfolding send_telemetry_def by (simp only: r_bind.simps if_False) auto
    then show ?thesis ..
  qed
qed

text \<open>\<open>good\<close> is what the simulation needs of the first writer, such as a bound on what it has been
  given; it holds of every earlier state too.\<close>

locale writer_simulation =
  fixes wr1 :: "'v writer_ops" and wr2 :: "'w writer_ops"
    and R :: "'v \<Rightarrow> 'w \<Rightarrow> bool" and good :: "'v \<Rightarrow> bool"
  assumes write_good: "wr_write wr1 v bs = Inr v' \<Longrightarrow> good v' \<Longrightarrow> good v"
    and write_sim: "wr_write wr1 v bs = Inr v' \<Longrightarrow> good v' \<Longrightarrow> length bs = 32 \<Longrightarrow> R v w \<Longrightarrow>
      \<exists>w'. wr_write wr2 w bs = Inr w' \<and> R v' w'"
begin

lemma send_telemetry_sim:
  assumes "send_telemetry b gw wr1 p v g t = Inr (p', v')" "good v'"
  shows "good v" "R v w \<Longrightarrow> \<exists>w'. send_telemetry b gw wr2 p w g t = Inr (p', w') \<and> R v' w'"
  using send_telemetry_record [OF assms(1), where wr' = wr2] assms(2)
  by (fastforce intro: write_good dest: write_sim)+

lemma handle_event_sim:
  assumes "handle_event b st gw wr1 p msg v g n t = Inr (p', v', g', n')" "good v'"
  shows "good v" "R v w \<Longrightarrow> \<exists>w'. handle_event b st gw wr2 p msg w g n t = Inr (p', w', g', n') \<and> R v' w'"
proof -
  obtain p1 p2 where parts: "apply_message b p msg = Inr p1" "run_strategy b st gw p1 g n = Inr (p2, g', n')"
    "send_telemetry b gw wr1 p2 v g' t = Inr (p', v')"
    using assms(1) by (rule handle_event_parts)
  note sim = send_telemetry_sim [OF parts(3) assms(2)]
  show "good v" by (rule sim(1))
  assume "R v w"
  from sim(2) [OF this] show "\<exists>w'. handle_event b st gw wr2 p msg w g n t = Inr (p', w', g', n') \<and> R v' w'"
    by (auto simp: handle_event_def parts(1,2))
qed

lemma dispatch_event_sim:
  assumes "dispatch_event b st gw wr1 m msg g = Inr (m', g')" "good (ms_telemetry_writer m')"
  shows "good (ms_telemetry_writer m)"
    "R (ms_telemetry_writer m) w \<Longrightarrow> \<exists>w'. dispatch_event b st gw wr2 (with_writer w m) msg g =
      Inr (with_writer w' m', g') \<and> R (ms_telemetry_writer m') w'"
proof -
  let ?slot = "ms_lookup_table m (get_locate_from_msg msg)"
  have "good (ms_telemetry_writer m) \<and> (R (ms_telemetry_writer m) w \<longrightarrow>
    (\<exists>w'. dispatch_event b st gw wr2 (with_writer w m) msg g = Inr (with_writer w' m', g') \<and>
      R (ms_telemetry_writer m') w'))"
  proof (cases "?slot = - 1")
    case True
    then show ?thesis using assms by (auto simp: dispatch_event_def)
  next
    case False
    then obtain p p' v' n' where p: "index (ms_processors m) (slot_index ?slot) = Inr p"
      and ev: "handle_event b st gw wr1 p msg (ms_telemetry_writer m) g (ms_global_order_id_counter m)
        (ms_current_time_ns m) = Inr (p', v', g', n')"
      and m': "m' = m\<lparr>ms_processors := (ms_processors m)[slot_index ?slot := p'],
        ms_telemetry_writer := v', ms_global_order_id_counter := n'\<rparr>"
      using assms(1) by (auto simp: dispatch_event_def Let_def)
    have "good v'" using assms(2) by (simp add: m')
    note sim = handle_event_sim [OF ev this]
    show ?thesis
    proof (intro conjI impI)
      show "good (ms_telemetry_writer m)" by (rule sim(1))
      assume "R (ms_telemetry_writer m) w"
      then obtain w' where "handle_event b st gw wr2 p msg w g (ms_global_order_id_counter m)
          (ms_current_time_ns m) = Inr (p', w', g', n')" "R v' w'"
        using sim(2) by blast
      then show "\<exists>w'. dispatch_event b st gw wr2 (with_writer w m) msg g = Inr (with_writer w' m', g') \<and>
          R (ms_telemetry_writer m') w'"
        using False by (auto simp: dispatch_event_def Let_def p m' with_writer_def)
    qed
  qed
  then show "good (ms_telemetry_writer m)" and "R (ms_telemetry_writer m) w \<Longrightarrow>
      \<exists>w'. dispatch_event b st gw wr2 (with_writer w m) msg g = Inr (with_writer w' m', g') \<and>
        R (ms_telemetry_writer m') w'"
    by blast+
qed

text \<open>The simulation of one packet and of a session.\<close>

lemma handle_message_sim:
  assumes "handle_message b st gw wr1 m raw g = Inr (m', g')" "good (ms_telemetry_writer m')"
  shows "good (ms_telemetry_writer m)"
    "R (ms_telemetry_writer m) w \<Longrightarrow> \<exists>w'. handle_message b st gw wr2 (with_writer w m) raw g =
      Inr (with_writer w' m', g') \<and> R (ms_telemetry_writer m') w'"
proof -
  have same: "ms_telemetry_writer (handle_stock_directory m1 loc name) = ms_telemetry_writer m1"
    for m1 :: "('s, 'v) market_state" and loc name
    by (simp add: handle_stock_directory_def split: option.split)
  have filter: "good (ms_telemetry_writer m1) \<and> (R (ms_telemetry_writer m1) w \<longrightarrow>
      (\<exists>w'. filter_message_for_symbols b st gw wr2 (with_writer w m1) msg g = Inr (with_writer w' m', g') \<and>
        R (ms_telemetry_writer m') w'))"
    if "filter_message_for_symbols b st gw wr1 m1 msg g = Inr (m', g')" for m1 msg
    using that assms(2) dispatch_event_sim [OF _ assms(2)]
    by (cases msg) (auto simp: filter_message_for_symbols_def directory_with_writer same)
  obtain now parsed where now: "packet_time b (ms_midnight_today_ns m) raw = Inr now"
    "parse_itch_message raw = Inr parsed"
    using assms(1) by (auto simp: handle_message_def Let_def)
  have "good (ms_telemetry_writer m) \<and> (R (ms_telemetry_writer m) w \<longrightarrow>
      (\<exists>w'. handle_message b st gw wr2 (with_writer w m) raw g = Inr (with_writer w' m', g') \<and>
        R (ms_telemetry_writer m') w'))"
  proof (cases parsed)
    case None
    then show ?thesis using assms now by (auto simp: handle_message_def Let_def)
  next
    case (Some msg)
    then have "filter_message_for_symbols b st gw wr1 (m\<lparr>ms_current_time_ns := now\<rparr>) msg g = Inr (m', g')"
      using assms(1) now by (simp add: handle_message_def Let_def)
    from filter [OF this] show ?thesis using now Some by (simp add: handle_message_def Let_def)
  qed
  then show "good (ms_telemetry_writer m)" and "R (ms_telemetry_writer m) w \<Longrightarrow>
      \<exists>w'. handle_message b st gw wr2 (with_writer w m) raw g = Inr (with_writer w' m', g') \<and>
        R (ms_telemetry_writer m') w'"
    by blast+
qed

lemma packet_sim:
  assumes "handle_raw_packet b st gw wr1 m raw g = Some (Inr (m', g'))" "good (ms_telemetry_writer m')"
  shows "good (ms_telemetry_writer m)"
    "R (ms_telemetry_writer m) w \<Longrightarrow> \<exists>w'. handle_raw_packet b st gw wr2 (with_writer w m) raw g =
      Some (Inr (with_writer w' m', g')) \<and> R (ms_telemetry_writer m') w'"
proof -
  obtain m1 g1 where msg: "handle_message b st gw wr1 m raw g = Inr (m1, g1)"
    and poll: "poll_confirmed_orders st gw m1 g1 = Some (Inr (m', g'))"
    using assms(1) by (auto simp: handle_raw_packet_def split: sum.splits prod.splits)
  have w1: "ms_telemetry_writer m' = ms_telemetry_writer m1"
    "poll_confirmed_orders st gw (with_writer w' m1) g1 = Some (Inr (with_writer w' m', g'))" for w' :: 'w
    using poll_with_writer [OF poll, of w'] by simp_all
  note sim = handle_message_sim [OF msg assms(2) [unfolded w1(1)]]
  show "good (ms_telemetry_writer m)" by (rule sim(1))
  assume "R (ms_telemetry_writer m) w"
  from sim(2) [OF this] show "\<exists>w'. handle_raw_packet b st gw wr2 (with_writer w m) raw g =
      Some (Inr (with_writer w' m', g')) \<and> R (ms_telemetry_writer m') w'"
    by (auto simp: handle_raw_packet_def w1)
qed

lemma session_sim:
  assumes "run_packets b st gw wr1 m g packets = Some (Inr (m', g'))" "good (ms_telemetry_writer m')"
  shows "good (ms_telemetry_writer m) \<and> (R (ms_telemetry_writer m) w \<longrightarrow>
    (\<exists>w'. run_packets b st gw wr2 (with_writer w m) g packets = Some (Inr (with_writer w' m', g')) \<and>
      R (ms_telemetry_writer m') w'))"
  using assms(1)
proof (induction packets arbitrary: m g w)
  case Nil
  then show ?case using assms(2) by auto
next
  case (Cons raw packets)
  then obtain m1 g1 where step: "handle_raw_packet b st gw wr1 m raw g = Some (Inr (m1, g1))"
    and rest: "run_packets b st gw wr1 m1 g1 packets = Some (Inr (m', g'))"
    by (auto split: option.splits sum.splits)
  note IH = Cons.IH [OF rest]
  then have "good (ms_telemetry_writer m1)" by blast
  note sim = packet_sim [OF step this]
  show ?case
  proof (intro conjI impI)
    show "good (ms_telemetry_writer m)" by (rule sim(1))
    assume "R (ms_telemetry_writer m) w"
    then obtain w1 where "handle_raw_packet b st gw wr2 (with_writer w m) raw g =
        Some (Inr (with_writer w1 m1, g1))" "R (ms_telemetry_writer m1) w1"
      using sim(2) by blast
    then show "\<exists>w'. run_packets b st gw wr2 (with_writer w m) g (raw # packets) =
        Some (Inr (with_writer w' m', g')) \<and> R (ms_telemetry_writer m') w'"
      using IH [of w1] by simp
  qed
qed

end

section \<open>The ring of the replay engine\<close>

definition ring_records :: "byte list list \<Rightarrow> telemetry_writer \<Rightarrow> bool" where
  "ring_records records w \<longleftrightarrow> (\<exists>msgs. ring_holds 20 msgs (tw_outbound w) \<and> map fst msgs = records)"

interpretation telemetry: writer_simulation list_writer "telemetry_writer_ops b clock"
  ring_records "\<lambda>records. length records < 2 ^ 20"
proof unfold_locales
  fix v v' :: "byte list list" and bs
  assume "wr_write list_writer v bs = Inr v'" "length v' < 2 ^ 20"
  then show "length v < 2 ^ 20" by (auto simp: list_writer_def)
next
  fix v v' bs w
  assume v': "wr_write list_writer v bs = Inr v'" "length v' < 2 ^ 20" and bs: "length bs = 32"
    and R: "ring_records v w"
  obtain msgs where msgs: "ring_holds 20 msgs (tw_outbound w)" "map fst msgs = v"
    using R by (auto simp: ring_records_def)
  have room: "length msgs + 1 < 2 ^ 20" using v' msgs(2) by (auto simp: list_writer_def)
  obtain ring where "ring_write b (tw_outbound w) bs (clock w) = Inr ring"
    "ring_holds 20 (msgs @ [(bs, clock w)]) ring"
    using ring_write_holds [OF msgs(1) _ _ room, of bs b "clock w"] bs by auto
  then show "\<exists>w'. wr_write (telemetry_writer_ops b clock) w bs = Inr w' \<and> ring_records v' w'"
    using v'(1) msgs(2) by (auto simp: telemetry_writer_ops_def ring_records_def list_writer_def)
qed

lemma new_telemetry_writer_empty:
  assumes "new_telemetry_writer (Some old) = Inr w" shows "ring_records [] w"
proof -
  obtain ring where "create_producer shm_bytes (Some old) = Inr (Inr ring)" "w = \<lparr>tw_outbound = ring\<rparr>"
    using assms by (auto simp: new_telemetry_writer_def)
  then show ?thesis
    using ring_holds_new [of 20 old ring] by (simp add: ring_records_def shm_bytes_power)
qed

text \<open>Whatever is written is a telemetry record.\<close>

lemma step_writes_records:
  assumes "market_step b st gw list_writer x y" "\<exists>ts. ms_telemetry_writer (fst x) = map telemetry_bytes ts"
  shows "\<exists>ts. ms_telemetry_writer (fst y) = map telemetry_bytes ts"
  using assms
proof (induction rule: market_step.induct)
  case (event m msg slot g p' w' g' next_id)
  obtain ts where ts: "ms_telemetry_writer m = map telemetry_bytes ts" using event by auto
  obtain p2 where "send_telemetry b gw list_writer p2 (ms_telemetry_writer m) g' (ms_current_time_ns m) =
      Inr (p', w')"
    using event(4) by (auto elim: handle_event_parts)
  then have "w' = ms_telemetry_writer m \<or> (\<exists>tel. w' = ms_telemetry_writer m @ [telemetry_bytes tel])"
    using send_telemetry_record by (fastforce simp: list_writer_def)
  then show ?case
    by (elim disjE exE) (auto simp: ts intro: exI [of _ ts] exI [of _ "ts @ [_]"])
qed (auto simp: confirm_keeps_writer handle_stock_directory_def split: option.splits)

lemma run_packets_records:
  assumes "run_packets b st gw list_writer m g packets = Some (Inr (m', g'))" "ms_telemetry_writer m = []"
  shows "\<exists>ts. ms_telemetry_writer m' = map telemetry_bytes ts"
  using step_invariant [OF run_packets_steps [OF assms(1)],
      of "\<lambda>x. \<exists>ts. ms_telemetry_writer (fst x) = map telemetry_bytes ts"]
    step_writes_records assms(2) by fastforce

text \<open>The list only grows.\<close>

lemma step_keeps_records:
  assumes "market_step b st gw list_writer x y" "prefix old (ms_telemetry_writer (fst x))"
  shows "prefix old (ms_telemetry_writer (fst y))"
  using assms
proof (induction rule: market_step.induct)
  case (event m msg slot g p' w' g' next_id)
  obtain p2 where "send_telemetry b gw list_writer p2 (ms_telemetry_writer m) g' (ms_current_time_ns m) =
      Inr (p', w')"
    using event(4) by (auto elim: handle_event_parts)
  then have "w' = ms_telemetry_writer m \<or> (\<exists>tel. w' = ms_telemetry_writer m @ [telemetry_bytes tel])"
    using send_telemetry_record by (fastforce simp: list_writer_def)
  then show ?case using event by auto
qed (auto simp: confirm_keeps_writer handle_stock_directory_def split: option.splits)

lemma run_packets_prefix:
  assumes "run_packets b st gw list_writer m g packets = Some (Inr (m', g'))"
  shows "prefix (ms_telemetry_writer m) (ms_telemetry_writer m')"
  using step_invariant [OF run_packets_steps [OF assms],
      of "\<lambda>x. prefix (ms_telemetry_writer m) (ms_telemetry_writer (fst x))", OF _ step_keeps_records]
  by simp

lemma run_packets_append:
  "run_packets b st gw wr m g (xs @ ys) = Some (Inr (m', g')) \<longleftrightarrow>
     (\<exists>m1 g1. run_packets b st gw wr m g xs = Some (Inr (m1, g1)) \<and>
        run_packets b st gw wr m1 g1 ys = Some (Inr (m', g')))"
  by (induction xs arbitrary: m g) (auto split: option.splits sum.splits)

section \<open>The visualiser beside the replay\<close>

text \<open>The ring's memory after the first \<open>k\<close> packets; and a read of the visualiser whose three accesses
  happen at three such moments, in order. (Moments within one write are the subject of the ring
  protocol.)\<close>

definition replay_memory ::
    "build \<Rightarrow> 's strategy_ops \<Rightarrow> 'g gateway_ops \<Rightarrow> (telemetry_writer \<Rightarrow> u64) \<Rightarrow> byte list
     \<Rightarrow> ('s, telemetry_writer) market_state \<Rightarrow> 'g \<Rightarrow> nat \<Rightarrow> byte list option" where
  "replay_memory b st gw clock data m g k =
     (case run_packets b st gw (telemetry_writer_ops b clock) m g (take k (frames data 0)) of
        Some (Inr (m', _)) \<Rightarrow> Some (sr_mmap (tw_outbound (ms_telemetry_writer m')))
      | _ \<Rightarrow> None)"

definition read_beside_replay :: "(nat \<Rightarrow> byte list option) \<Rightarrow> sighting \<Rightarrow> bool" where
  "read_beside_replay memory seen \<longleftrightarrow>
     (\<exists>k1 k2 k3. k1 \<le> k2 \<and> k2 \<le> k3 \<and> memory k1 = Some (fst seen) \<and> memory k2 = Some (fst (snd seen)) \<and>
        memory k3 = Some (snd (snd seen)))"

text \<open>Whatever is in the ring after some packets is what the list of records had then.\<close>

lemma replay_memory_shows:
  assumes "ring_records [] w" "ms_telemetry_writer m = []"
    and "run_packets b st gw list_writer m g (frames data 0) = Some (Inr (m', g'))"
    and "ms_telemetry_writer m' = map telemetry_bytes ts" "length ts < 2 ^ 20"
  obtains count where "mono count"
    "\<And>k mem. replay_memory b st gw clock data (with_writer w m) g k = Some mem \<Longrightarrow> shows_records ts (count k) mem"
proof -
  have part: "\<exists>mk gk. run_packets b st gw list_writer m g (take k (frames data 0)) = Some (Inr (mk, gk)) \<and>
      run_packets b st gw list_writer mk gk (drop k (frames data 0)) = Some (Inr (m', g'))" for k
    using assms(3) run_packets_append [of b st gw list_writer m g "take k (frames data 0)" "drop k (frames data 0)"]
    by (simp only: append_take_drop_id) blast
  then obtain mk gk where run: "\<And>k. run_packets b st gw list_writer m g (take k (frames data 0)) = Some (Inr (mk k, gk k))"
    and rest: "\<And>k. run_packets b st gw list_writer (mk k) (gk k) (drop k (frames data 0)) = Some (Inr (m', g'))"
    by metis
  let ?count = "\<lambda>k. length (ms_telemetry_writer (mk k))"
  have pre: "prefix (ms_telemetry_writer (mk k)) (map telemetry_bytes ts)" for k
    using run_packets_prefix [OF rest [of k]] assms(4) by simp
  have "?count k \<le> ?count l" if "k \<le> l" for k l
  proof -
    have "take l (frames data 0) = take k (frames data 0) @ drop k (take l (frames data 0))"
      using that by (metis append_take_drop_id min.absorb1 take_take)
    then obtain m1 g1 where "run_packets b st gw list_writer m g (take k (frames data 0)) = Some (Inr (m1, g1))"
      "run_packets b st gw list_writer m1 g1 (drop k (take l (frames data 0))) = Some (Inr (mk l, gk l))"
      using run [of l] run_packets_append by metis
    then show ?thesis using run [of k] run_packets_prefix prefix_length_le by fastforce
  qed
  then have "mono ?count" by (rule monoI)
  moreover have "shows_records ts (?count k) mem"
    if mem: "replay_memory b st gw clock data (with_writer w m) g k = Some mem" for k mem
  proof -
    have take_count: "ms_telemetry_writer (mk k) = map telemetry_bytes (take (?count k) ts)" "?count k \<le> length ts"
      using pre [of k] prefix_length_le [OF pre [of k]] by (auto simp: prefix_def simp flip: take_map)
    have "?count k < 2 ^ 20" using take_count(2) assms(5) by simp
    from telemetry.session_sim [OF run this, of w b clock] obtain w' where
      "run_packets b st gw (telemetry_writer_ops b clock) (with_writer w m) g (take k (frames data 0)) =
        Some (Inr (with_writer w' (mk k), gk k))" "ring_records (ms_telemetry_writer (mk k)) w'"
      using assms(1,2) by auto
    then show ?thesis
      using mem take_count unfolding shows_records_def ring_records_def replay_memory_def by auto
  qed
  ultimately show thesis by (rule that)
qed

text \<open>C4: Telemetry end to end, for a replay that reports fewer than 1048576 records (as the market
  handler with a writer that only collects them shows). With the shared memory ring as its writer
  the replay runs in the same way. The visualiser runs beside it: it attaches after any number of
  packets, and makes any number of reads whose accesses fall between the packets. When the replay
  is over and the visualiser has made more reads than there are records, the bodies it has posted,
  put together, are one line per record, in order, each with the numbers of its record, and
  nothing is left unposted.\<close>

theorem replayed_telemetry_reaches_database:
  assumes "new_telemetry_writer (Some old) = Inr w" "new_market b names s [] secs = Inr m"
    and "replay_loop b st gw list_writer data 0 m g = Some (Inr (m', g'))"
    and "length (ms_telemetry_writer m') < 2 ^ 20"
    and "2 \<le> length ids" "seen_at 1"
    and "replay_memory b st gw clock data (with_writer w m) g k0 = Some attached"
    and "\<forall>seen\<in>set before. read_beside_replay (replay_memory b st gw clock data (with_writer w m) g) seen"
    and "length (ms_telemetry_writer m') < n"
  shows "\<exists>w' ts v.
    replay_loop b st gw (telemetry_writer_ops b clock) data 0 (with_writer w m) g =
      Some (Inr (with_writer w' m', g')) \<and>
    ms_telemetry_writer m' = map telemetry_bytes ts \<and>
    (let mem = sr_mmap (tw_outbound w')
     in visualiser_main b (Some ids) seen_at (Some attached) (before @ replicate n (mem, mem, mem)) =
          Inr (Inr v)) \<and>
    concat (vz_posts v) = concat (map record_line ts) \<and> vz_batch_buffer v = []"
proof -
  have early: "wait_for_file seen_at 1" using assms(6) by (subst wait_for_file.simps) simp
  have session: "run_packets b st gw list_writer m g (frames data 0) = Some (Inr (m', g'))"
    using assms(3) by (simp add: replay_loop_frames)
  have start: "ms_telemetry_writer m = []" using assms(2) by (auto simp: new_market_def Let_def)
  obtain ts where ts: "ms_telemetry_writer m' = map telemetry_bytes ts"
    using run_packets_records [OF session start] by blast
  have n: "length ts < 2 ^ 20" "length ts < n" using assms(4,9) by (simp_all add: ts)
  note empty = new_telemetry_writer_empty [OF assms(1)]
  from telemetry.session_sim [OF session assms(4), of w b clock] obtain w' where
    run: "run_packets b st gw (telemetry_writer_ops b clock) (with_writer w m) g (frames data 0) =
      Some (Inr (with_writer w' m', g'))" and w': "ring_records (map telemetry_bytes ts) w'"
    using empty by (auto simp: start ts)
  obtain count where count: "mono count"
    "\<And>k mem. replay_memory b st gw clock data (with_writer w m) g k = Some mem \<Longrightarrow> shows_records ts (count k) mem"
    using replay_memory_shows [OF empty start session ts n(1)] by blast
  define mem where "mem = sr_mmap (tw_outbound w')"
  have final: "shows_records ts (length ts) mem"
    using w' by (auto simp: shows_records_def ring_records_def mem_def)
  have "\<forall>seen\<in>set before. sighting_of ts seen"
  proof
    fix seen assume "seen \<in> set before"
    then obtain k1 k2 k3 where "k1 \<le> k2" and
      "replay_memory b st gw clock data (with_writer w m) g k1 = Some (fst seen)"
      "replay_memory b st gw clock data (with_writer w m) g k2 = Some (fst (snd seen))"
      "replay_memory b st gw clock data (with_writer w m) g k3 = Some (snd (snd seen))"
      using assms(8) by (auto simp: read_beside_replay_def)
    then show "sighting_of ts seen"
      using count(2) monoD [OF count(1)] unfolding sighting_of_def by blast
  qed
  from caught_up_reads [OF this caught_up_new n(1), of b] obtain i v1 where
    v1: "visualise b (2 ^ 20) new_visualiser before = Inr v1" "caught_up ts i v1" by blast
  obtain v where v: "visualise b (2 ^ 20) v1 (replicate n (mem, mem, mem)) = Inr v" "caught_up ts (length ts) v"
    "vz_batch_buffer v = []"
    using remaining_reads [OF final v1(2) n(1), of n b] n(2) by auto
  have "visualise b (2 ^ 20) new_visualiser (before @ replicate n (mem, mem, mem)) = Inr v"
    using v1(1) v(1) visualise_append [of b "2 ^ 20" new_visualiser before] by (simp del: visualise.simps)
  moreover obtain msgs ring where ring: "ring_holds 20 msgs ring" "attached = sr_mmap ring"
    using count(2) [OF assms(7)] by (auto simp: shows_records_def)
  have "visualiser_start (Some ids) seen_at (Some attached) = Inr (Inr ring)" "sr_capacity ring = 2 ^ 20"
    using consumer_attaches [OF ring(1)] ring(2) ring_holds_capacity [OF ring(1)] assms(5) early
    by (simp_all add: visualiser_start_def index_def shm_bytes_power)
  ultimately have "visualiser_main b (Some ids) seen_at (Some attached) (before @ replicate n (mem, mem, mem)) =
      Inr (Inr v)"
    by (simp add: visualiser_main_def)
  moreover have "concat (vz_posts v) = concat (map record_line ts)"
    using v(2,3) by (simp add: caught_up_def vz_output_def)
  ultimately show ?thesis
    using run ts v(3) by (auto simp: replay_loop_frames mem_def Let_def)
qed
section \<open>A replay started again\<close>

text \<open>C15: A visualiser does not notice that the replay is started again, although its \<open>read\<close> has an
  answer for that case: the new producer sets the head to 0, the visualiser stays where it was, at
  its \<open>k\<close>-th record, and finds the ring empty until the new producer is past that point. So of the
  records of the new run the first \<open>k\<close> are never posted, however often the visualiser reads.\<close>

theorem restart_loses_records:
  assumes "new_telemetry_writer (Some old) = Inr w" "length recs < 2 ^ 20"
    and "vz_sequence_num v = word_of_nat k" "k < 2 ^ 64" "vz_records_in_batch v \<le> 5000"
  shows "\<exists>ring v'. write_all b (tw_outbound w) (map (\<lambda>(t, now). (telemetry_bytes t, now)) recs) = Inr ring \<and>
    visualise b (sr_capacity ring) v (replicate n (sr_mmap ring, sr_mmap ring, sr_mmap ring)) = Inr v' \<and>
    concat (vz_posts v') @ vz_batch_buffer v' =
      concat (vz_posts v) @ vz_batch_buffer v @ concat (map record_line (take n (drop k (map fst recs))))"
proof -
  let ?msgs = "map (\<lambda>(t, now). (telemetry_bytes t, now)) recs"
  have "ring_holds 20 [] (tw_outbound w)"
    using new_telemetry_writer_empty [OF assms(1)] by (auto simp: ring_records_def)
  moreover have "\<forall>m\<in>set ?msgs. length (fst m) \<le> 54" by auto
  ultimately obtain ring where ring: "write_all b (tw_outbound w) ?msgs = Inr ring" "ring_holds 20 ?msgs ring"
    using write_all_holds [of 20 "[]" "tw_outbound w" ?msgs b] assms(2) by auto
  have "map fst ?msgs = map telemetry_bytes (map fst recs)" by auto
  then have "shows_records (map fst recs) (length (map fst recs)) (sr_mmap ring)"
    using ring(2) unfolding shows_records_def by (metis order_refl take_all_iff)
  from visualise_from [OF this _ assms(3-5), of b n] ring show ?thesis
    using assms(2) ring_holds_capacity [OF ring(2)] by (auto simp: vz_output_def)
qed

end
