(* ===== verification/Demo_Session.thy ===== *)
theory Demo_Session
  imports Telemetry_Path
begin

text \<open>
  One session evaluated step by step, with the strategy and the gateway of the replay engine: the
  directory message of AAPL, a bid of 90 shares at 100 and an offer of 10 shares at 102. The
  imbalance makes the strategy buy 100 shares at 102; the fill comes back, and one telemetry
  record is written. The properties of sessions are instantiated on it.
\<close>

definition aapl :: rstring where "aapl = [65, 65, 80, 76]"

definition demo_market :: "(simple_mid_point, byte list list) market_state" where
  "demo_market = \<lparr>ms_processors = [new_processor (new_mid_point threshold_08) aapl],
     ms_lookup_table = (\<lambda>_. - 1), ms_global_order_id_counter = 0, ms_telemetry_writer = [],
     ms_current_time_ns = 0, ms_midnight_today_ns = 86400000000000\<rparr>"

lemma demo_market_new: "new_market Debug [aapl] (new_mid_point threshold_08) [] 86400 = Inr demo_market"
  by (simp add: new_market_def demo_market_def sub_u_def mul_u_def Let_def)

definition packet_R :: "byte list" where
  "packet_R = [82, 0, 7, 0, 0,  0, 0, 0, 0, 0, 9,  65, 65, 80, 76, 32, 32, 32, 32]"
definition packet_bid :: "byte list" where
  "packet_bid = [65, 0, 7, 0, 0,  0, 0, 0, 0, 1, 0,  0, 0, 0, 0, 0, 0, 0, 1,  66,  0, 0, 0, 90,
      0, 0, 0, 0, 0, 0, 0, 0,  0, 0, 0, 100]"
definition packet_ask :: "byte list" where
  "packet_ask = [65, 0, 7, 0, 0,  0, 0, 0, 0, 2, 0,  0, 0, 0, 0, 0, 0, 0, 2,  83,  0, 0, 0, 10,
      0, 0, 0, 0, 0, 0, 0, 0,  0, 0, 0, 102]"

lemmas parse_eval = parse_itch_message_def parse_defs char_at_def code_of_values be_field_def sub_slice_def 
  index_def from_be_bytes_def  side_of_char_def trim_def trim_by_def is_whitespace_def from_utf8_lossy.simps decode_one.simps

lemma parse_demo:
  "parse_itch_message packet_R = Inr (Some (StockDirectory 7 aapl))"
  "parse_itch_message packet_bid = Inr (Some (AddOrder 7 1 Buy 90 100))"
  "parse_itch_message packet_ask = Inr (Some (AddOrder 7 2 Sell 10 102))"
  by (simp_all add: packet_R_def packet_bid_def packet_ask_def parse_eval aapl_def)

lemma time_demo:
  "packet_time Debug 86400000000000 packet_R = Inr 86400000000009"
  "packet_time Debug 86400000000000 packet_bid = Inr 86400000000256"
  "packet_time Debug 86400000000000 packet_ask = Inr 86400000000512"
  by (simp_all add: packet_R_def packet_bid_def packet_ask_def parse_eval packet_time_def add_u_def)


lemma slot_0: "slot_index 0 = 0"
  by (simp add: slot_index_def)

lemmas fl_eval = fl_of_nat_def round_dyadic_def round_frac_def fl_sub_def
  ulp_exp_def expo_def scaled_rne_def pow2_le_def rne_def f64_def f32_def bitlen.simps

text \<open>The three states of the session.\<close>

definition demo_processor :: "l3_order_book \<Rightarrow> simple_mid_point \<Rightarrow> local_risk \<Rightarrow> u32 \<Rightarrow> simple_mid_point symbol_processor" where
  "demo_processor bk s r mp =
     \<lparr>sp_symbol = aapl, sp_stock_locate = 7, sp_order_book = bk, sp_strategy = s,
      sp_ticker = new_ticker, sp_order_tracker = {}, sp_risk_engine = r, sp_last_midpoint = mp\<rparr>"

definition demo_state ::
    "simple_mid_point symbol_processor \<Rightarrow> u64 \<Rightarrow> byte list list \<Rightarrow> u64 \<Rightarrow> (simple_mid_point, byte list list) market_state" where
  "demo_state p n w now =
     \<lparr>ms_processors = [p], ms_lookup_table = (\<lambda>_. - 1)(7 := 0), ms_global_order_id_counter = n,
      ms_telemetry_writer = w, ms_current_time_ns = now, ms_midnight_today_ns = 86400000000000\<rparr>"

definition bid_book :: l3_order_book where
  "bid_book = \<lparr>ob_orders = [1 \<mapsto> \<lparr>or_price = 100, or_quantity = 90, or_side = Buy\<rparr>],
     ob_bids = [(100, 90)], ob_asks = []\<rparr>"

definition ask_book :: l3_order_book where
  "ask_book = \<lparr>ob_orders = [1 \<mapsto> \<lparr>or_price = 100, or_quantity = 90, or_side = Buy\<rparr>,
       2 \<mapsto> \<lparr>or_price = 102, or_quantity = 10, or_side = Sell\<rparr>],
     ob_bids = [(100, 90)], ob_asks = [(102, 10)]\<rparr>"

abbreviation "demo_risk \<equiv> new_risk 1000 band_002 3500"

lemma bid_added: "add_order Debug new_book 1 Buy 100 90 = Inr bid_book"
  by (simp add: add_order_def new_book_def bid_book_def add_u_def Let_def)

lemma ask_added: "add_order Debug bid_book 2 Sell 102 10 = Inr ask_book"
  by (simp add: add_order_def ask_book_def bid_book_def add_u_def Let_def)

lemma demo_quotes:
  "get_best_bid bid_book = Some (100, 90)" "get_best_ask bid_book = None"
  "get_best_bid ask_book = Some (100, 90)" "get_best_ask ask_book = Some (102, 10)"
  by (simp_all add: get_best_bid_def get_best_ask_def bid_book_def ask_book_def)

lemma poll_none:
  "rg_pending_fills g = [] \<Longrightarrow>
   poll_confirmed_orders st (logged (replay_ops b)) m (g, sends) = Some (Inr (m, (g, sends)))"
  by (subst poll_confirmed_orders.simps) (simp add: logged_def replay_ops_def replay_poll_def)

abbreviation "demo_packet \<equiv> handle_raw_packet Debug (mid_point_ops Debug) (logged (replay_ops Debug)) list_writer"

definition demo1 where "demo1 = demo_state (demo_processor new_book (new_mid_point threshold_08) demo_risk 0) 0 [] 86400000000009"
definition demo2 where "demo2 = demo_state (demo_processor bid_book (new_mid_point threshold_08) demo_risk 0) 0 [] 86400000000256"

lemma demo_R: "demo_packet demo_market packet_R (new_replay_gateway, sends) = Some (Inr (demo1, (new_replay_gateway, sends)))"
  by (simp add: handle_raw_packet_def handle_message_def parse_demo time_demo demo_market_def Let_def
     filter_message_for_symbols_def handle_stock_directory_def new_processor_def clean_symbol_def aapl_def
     trim_matches_def trim_def trim_by_def is_whitespace_def poll_none new_replay_gateway_def demo1_def demo_state_def demo_processor_def)

lemma demo_bid: "demo_packet demo1 packet_bid (new_replay_gateway, sends) = Some (Inr (demo2, (new_replay_gateway, sends)))"
  by (simp add: handle_raw_packet_def handle_message_def parse_demo time_demo demo1_def demo2_def demo_state_def demo_processor_def Let_def
     filter_message_for_symbols_def dispatch_event_def slot_0 handle_event_def bid_added run_strategy_def mid_point_ops_def
     demo_quotes on_book_update_def send_telemetry_def midpoint_def quote_price_def poll_none new_replay_gateway_def)

definition demo_order :: order_command where
  "demo_order = \<lparr>oc_symbol_locate = 7, oc_order_id = 0, oc_price = 102, oc_quantity = 100, oc_side = OrderBuy\<rparr>"


definition demo_strategy :: simple_mid_point where
  "demo_strategy = \<lparr>sm_mid_price = fl_div f64 (fl_of_nat f64 202) (fl_of_nat f64 2), sm_prev_mid_price = Fin 0 0,
     sm_trade_count = 0, sm_position = 0, sm_next_order_id = 2, sm_imbalance_threshold = threshold_08\<rparr>"

lemma demo_signal:
  "on_book_update Debug (new_mid_point threshold_08) (Some (100, 90)) (Some (102, 10)) =
   Inr (demo_strategy, Some (demo_order\<lparr>oc_symbol_locate := 0, oc_order_id := 1\<rparr>))"
  by (simp add: on_book_update_def new_mid_point_def threshold_08_value fl_eval add_u_def send_ioc_def generate_id_def
     demo_order_def demo_strategy_def)

lemma demo_check:
  "check Debug demo_risk (demo_order\<lparr>oc_order_id := n\<rparr>) (Some (100, 90)) (Some (102, 10)) = Inr (demo_risk\<lparr>lr_current_position := 100\<rparr>, Pass)"
proof -
  have "band_violation band_002 demo_order (Some (100, 90)) (Some (102, 10)) = None"
    by (rule inside_band_passes) (simp_all add: inside_band_def demo_order_def)
  then show ?thesis
    by (simp add: check_def new_risk_def demo_order_def add_s_def abs_s_def fits_s_def Let_def band_violation_def)
qed

definition demo_gateway :: replay_gateway where
  "demo_gateway = \<lparr>rg_pending_fills = [], rg_cash_balances = [7 \<mapsto> - 10200], rg_positions = [7 \<mapsto> 100],
     rg_last_prices = [7 \<mapsto> 102]\<rparr>"

lemma demo_send:
  "replay_send_order Debug new_replay_gateway demo_order = Inr (demo_gateway\<lparr>rg_pending_fills := [fake_fill demo_order]\<rparr>)"
  by (simp add: replay_send_order_def new_replay_gateway_def demo_order_def demo_gateway_def mul_s_def add_s_def
    sub_s_def fits_s_def Let_def entry_or_0_def fake_fill_def)

definition demo_processor' where
 "demo_processor' = (demo_processor ask_book demo_strategy (demo_risk\<lparr>lr_current_position := 100\<rparr>) 0)\<lparr>sp_order_tracker := {0}\<rparr>"

lemma demo_run_strategy_with:
  assumes "gw_send_order gw g demo_order = Inr g'"
  shows "run_strategy Debug (mid_point_ops Debug) gw
     (demo_processor ask_book (new_mid_point threshold_08) demo_risk 0) g 0 = Inr (demo_processor', g', 1)"
  using demo_check [of 1] assms
  by (simp add: run_strategy_def demo_processor_def demo_quotes mid_point_ops_def demo_signal Let_def
      add_u_def demo_processor'_def demo_order_def)

lemma demo_run_strategy:
  "run_strategy Debug (mid_point_ops Debug) (logged (replay_ops Debug))
     (demo_processor ask_book (new_mid_point threshold_08) demo_risk 0) (new_replay_gateway, []) 0 =
   Inr (demo_processor', (demo_gateway\<lparr>rg_pending_fills := [fake_fill demo_order]\<rparr>, [demo_order]), 1)"
  by (rule demo_run_strategy_with) (simp add: logged_def replay_ops_def demo_send)

lemma demo_telemetry:
  "send_telemetry Debug (logged (replay_ops Debug)) list_writer demo_processor' []
    (demo_gateway\<lparr>rg_pending_fills := [fake_fill demo_order]\<rparr>, sends) now =
   Inr (demo_processor'\<lparr>sp_last_midpoint := 101\<rparr>, [telemetry_bytes
     \<lparr>tp_timestamp_ns = now, tp_realised_pnl = - 100, tp_midpoint_px = 101, tp_position = 100,
      tp_latency_ns = 30, tp_locate_id = 7\<rparr>])"
  by (simp add: send_telemetry_def demo_processor'_def demo_processor_def midpoint_def demo_quotes quote_price_def
     add_u_def logged_def replay_ops_def replay_get_position_def replay_get_cash_balance_def demo_gateway_def
     mul_s_def add_s_def fits_s_def Let_def list_writer_def)


definition demo_report where
  "demo_report = telemetry_bytes
     \<lparr>tp_timestamp_ns = 86400000000512, tp_realised_pnl = - 100, tp_midpoint_px = 101, tp_position = 100,
      tp_latency_ns = 30, tp_locate_id = 7\<rparr>"

definition demo3 where
  "demo3 = demo_state (demo_processor ask_book (demo_strategy\<lparr>sm_trade_count := 1, sm_position := 100\<rparr>)
     (demo_risk\<lparr>lr_current_position := 100\<rparr>) 101) 1 [demo_report] 86400000000512"

lemma poll_one:
  assumes "confirm_order st m r = Inr m'"
  shows "poll_confirmed_orders st (logged (replay_ops b)) m (g\<lparr>rg_pending_fills := [r]\<rparr>, sends) =
    Some (Inr (m', (g\<lparr>rg_pending_fills := []\<rparr>, sends)))"
proof -
  have "gw_poll_confirmed_orders (logged (replay_ops b)) (g\<lparr>rg_pending_fills := [r]\<rparr>, sends) =
      Inr ((g\<lparr>rg_pending_fills := []\<rparr>, sends), Some r)"
    by (simp add: logged_def replay_ops_def replay_poll_def)
  then show ?thesis by (subst poll_confirmed_orders.simps) (simp add: assms poll_none)
qed

lemma demo_confirm:
  "confirm_order (mid_point_ops Debug) (demo_state (demo_processor'\<lparr>sp_last_midpoint := 101\<rparr>) 1 w now) (fake_fill demo_order) =
   Inr (demo_state (demo_processor ask_book (demo_strategy\<lparr>sm_trade_count := 1, sm_position := 100\<rparr>)
     (demo_risk\<lparr>lr_current_position := 100\<rparr>) 101) 1 w now)"
  by (simp add: confirm_order_def demo_state_def demo_processor'_def demo_processor_def fake_fill_def demo_order_def Let_def
    slot_0 mid_point_ops_def on_trade_def add_u_def add_s_def fits_s_def demo_strategy_def)

lemma demo_gateway_idle: "demo_gateway\<lparr>rg_pending_fills := []\<rparr> = demo_gateway"
  by (simp add: demo_gateway_def)

lemma demo_ask_event:
  "handle_event Debug (mid_point_ops Debug) (logged (replay_ops Debug)) list_writer
     (demo_processor bid_book (new_mid_point threshold_08) demo_risk 0) (AddOrder 7 2 Sell 10 102) []
     (new_replay_gateway, []) 0 86400000000512 =
   Inr (demo_processor'\<lparr>sp_last_midpoint := 101\<rparr>, [demo_report],
     (demo_gateway\<lparr>rg_pending_fills := [fake_fill demo_order]\<rparr>, [demo_order]), 1)"
  using demo_run_strategy demo_telemetry [of "[demo_order]" 86400000000512]
  by (simp add: handle_event_def ask_added demo_report_def demo_processor_def)

lemma demo_ask_message:
  "handle_message Debug (mid_point_ops Debug) (logged (replay_ops Debug)) list_writer demo2 packet_ask (new_replay_gateway, []) =
   Inr (demo_state (demo_processor'\<lparr>sp_last_midpoint := 101\<rparr>) 1 [demo_report] 86400000000512,
     (demo_gateway\<lparr>rg_pending_fills := [fake_fill demo_order]\<rparr>, [demo_order]))"
  using demo_ask_event
  by (simp add: handle_message_def parse_demo time_demo demo2_def demo_state_def Let_def
      filter_message_for_symbols_def dispatch_event_def slot_0)

lemma demo_ask:
  "demo_packet demo2 packet_ask (new_replay_gateway, []) = Some (Inr (demo3, (demo_gateway, [demo_order])))"
  by (simp add: handle_raw_packet_def demo_ask_message poll_one [OF demo_confirm] demo_gateway_idle demo3_def)

lemma demo_session:
  "run_packets Debug (mid_point_ops Debug) (logged (replay_ops Debug)) list_writer demo_market
     (new_replay_gateway, []) [packet_R, packet_bid, packet_ask] =
   Some (Inr (demo3, (demo_gateway, [demo_order])))"
  by (simp add: demo_R demo_bid demo_ask)

section \<open>The properties of sessions on this session\<close>

theorem orders_numbered_and_small_witness:
  "map oc_order_id [demo_order] = [0] \<and> unat (oc_quantity demo_order) \<le> 1000"
  using orders_numbered_and_small [OF demo_market_new demo_session] by simp

theorem position_is_sum_of_orders_witness:
  "total_position demo3 = 100 \<and> \<bar>total_position demo3\<bar> \<le> 3500"
  using position_is_sum_of_orders [OF demo_market_new demo_session]
  by (simp add: signed_qty_def demo_order_def)

theorem slots_in_range_witness:
  "is_ok (index (ms_processors demo3) (slot_index (ms_lookup_table demo3 7)))"
proof -
  have "ms_lookup_table demo3 7 \<noteq> - 1" by (simp add: demo3_def demo_state_def)
  then show ?thesis
    using slots_in_range [OF demo_market_new _ demo_session, of 7] by simp
qed

theorem book_depends_on_feed_only_witness:
  "map_sum id (\<lambda>q. (sp_order_book q, sp_ticker q))
     (apply_message Debug (demo_processor bid_book (new_mid_point threshold_08) demo_risk 0)
       (AddOrder 7 2 Sell 10 102)) = Inr (ask_book, new_ticker)"
  using book_depends_on_feed_only [OF demo_ask_event] by (simp add: demo_processor'_def demo_processor_def)

theorem strategy_orders_pass_limits_witness:
  "check Debug demo_risk (demo_order\<lparr>oc_order_id := 1\<rparr>) (Some (100, 90)) (Some (102, 10)) =
     Inr (demo_risk\<lparr>lr_current_position := 100\<rparr>, Pass)"
  using strategy_orders_pass_limits [OF demo_signal risk_ok_new, where loc = 7]
  by (simp add: quote_fits_32_def demo_order_def signed_qty_def new_risk_def)

theorem apply_message_refines_witness:
  "\<exists>p'. apply_message Debug (new_processor () aapl) (AddOrder 7 1 Buy 90 100) = Inr p' \<and>
     book_exact (sp_order_book p') \<and>
     ob_orders (sp_order_book p') 1 = Some \<lparr>or_price = 100, or_quantity = 90, or_side = Buy\<rparr>"
proof -
  let ?p = "new_processor () aapl"
  have "message_ok ?p (AddOrder 7 1 Buy 90 100)"
    by (simp add: message_ok_def new_processor_def add_ok_new tape_volume_def new_ticker_def)
  then show ?thesis
    using apply_message_refines [of ?p "AddOrder 7 1 Buy 90 100" Debug]
    by (auto simp: new_processor_def book_exact_new ticker_inv_new)
qed

theorem telemetry_reports_equity_witness:
  "send_telemetry Debug (replay_ops Debug) list_writer demo_processor' [] demo_gateway 86400000000512 =
   Inr (demo_processor'\<lparr>sp_last_midpoint := 101\<rparr>, [demo_report])"
proof -
  have mp: "midpoint_spec (sp_order_book demo_processor') = 101"
    by (simp add: midpoint_spec_def demo_processor'_def demo_processor_def demo_quotes quote_price_def)
  have eq: "equity (replay_ops Debug) demo_gateway 7 101 = - 100"
    by (simp add: equity_def replay_ops_def replay_get_position_def replay_get_cash_balance_def
        entry_or_0_def demo_gateway_def)
  have acc: "gw_get_position (replay_ops Debug) demo_gateway 7 = 100" "wr_write list_writer [] bs = Inr [bs]" for bs
    by (simp_all add: replay_ops_def replay_get_position_def entry_or_0_def demo_gateway_def list_writer_def)
  have loc: "sp_stock_locate demo_processor' = 7" "sp_last_midpoint demo_processor' = 0"
    by (simp_all add: demo_processor'_def demo_processor_def)
  have q: "quotes_fit_32 (sp_order_book demo_processor')"
    by (simp add: quotes_fit_32_def quote_fits_32_def demo_processor'_def demo_processor_def demo_quotes)
  show ?thesis
    using telemetry_reports_equity [OF q, of "replay_ops Debug" demo_gateway Debug list_writer "[]" 86400000000512]
    by (simp add: telemetry_spec_def mp loc eq acc fits_s_def demo_report_def)
qed

definition demo_packets :: "byte list list" where
  "demo_packets = [packet_R, packet_bid, packet_ask]"

lemma demo_packets_sizes: "\<forall>p\<in>set demo_packets. 0 < length p \<and> length p < 2 ^ 16"
  by (simp add: demo_packets_def packet_R_def packet_bid_def packet_ask_def)

theorem replay_recording_witness:
  "replay_loop Debug (mid_point_ops Debug) (logged (replay_ops Debug)) list_writer
     (concat (map frame demo_packets)) 0 demo_market (new_replay_gateway, []) =
   Some (Inr (demo3, (demo_gateway, [demo_order])))"
  unfolding replay_recording [OF demo_packets_sizes]
  using demo_session by (simp add: demo_packets_def)

lemma demo_replay:
  "replay_loop Debug (mid_point_ops Debug) (logged (replay_ops Debug)) list_writer
     (concat (map frame demo_packets)) 0 demo_market (new_replay_gateway, []) =
   Some (Inr (demo3, (demo_gateway, [demo_order])))"
  using frames_after [OF demo_packets_sizes, of "[]"] demo_session
  by (simp add: replay_loop_frames demo_packets_def)

theorem order_keeps_equity_at_its_price_witness:
  "equity (replay_ops Debug) (demo_gateway\<lparr>rg_pending_fills := [fake_fill demo_order]\<rparr>) 7 102 = 0"
  using order_keeps_equity_at_its_price [OF demo_send, of 7]
  by (simp add: demo_order_def equity_def replay_ops_def replay_get_position_def
      replay_get_cash_balance_def new_replay_gateway_def entry_or_0_def)

lemma demo_sell:
  "\<exists>g'. replay_send_order Debug new_replay_gateway (demo_order\<lparr>oc_side := OrderSell\<rparr>) = Inr g'"
  by (simp add: replay_send_order_def new_replay_gateway_def demo_order_def mul_s_def add_s_def
    sub_s_def fits_s_def Let_def entry_or_0_def fake_fill_def)

theorem sell_fill_raises_strategy_position_witness:
  "\<exists>g' m'. replay_send_order Debug new_replay_gateway (demo_order\<lparr>oc_side := OrderSell\<rparr>) = Inr g' \<and>
     confirm_order (mid_point_ops Debug) (demo_state (demo_processor'\<lparr>sp_last_midpoint := 101\<rparr>) 1 [] 0)
       (fake_fill (demo_order\<lparr>oc_side := OrderSell\<rparr>)) = Inr m' \<and>
     replay_get_position g' 7 = - 100 \<and> sm_position (sp_strategy (ms_processors m' ! 0)) = 100"
proof -
  let ?cmd = "demo_order\<lparr>oc_side := OrderSell\<rparr>"
  let ?m = "demo_state (demo_processor'\<lparr>sp_last_midpoint := 101\<rparr>) 1 [] 0"
  have fill: "fake_fill ?cmd = fake_fill demo_order" by (simp add: fake_fill_def)
  obtain g' where g': "replay_send_order Debug new_replay_gateway ?cmd = Inr g'" using demo_sell by blast
  obtain m' where m': "confirm_order (mid_point_ops Debug) ?m (fake_fill ?cmd) = Inr m'"
    unfolding fill demo_confirm by blast
  have m: "ms_lookup_table ?m 7 = 0" "length (ms_processors ?m) = 1"
    "sp_order_tracker (ms_processors ?m ! 0) = {0}" "sm_position (sp_strategy (ms_processors ?m ! 0)) = 0"
    by (simp_all add: demo_state_def demo_processor'_def demo_processor_def demo_strategy_def)
  have c: "oc_symbol_locate ?cmd = 7" "oc_order_id ?cmd = 0" "oc_quantity ?cmd = 100"
    by (simp_all add: demo_order_def)
  have "replay_get_position g' 7 = - 100 \<and> sm_position (sp_strategy (ms_processors m' ! 0)) = 100"
    using sell_fill_raises_strategy_position [OF _ g' m', of 0] m c
    by (simp add: slot_0 replay_get_position_def new_replay_gateway_def entry_or_0_def)
  with g' m' show ?thesis by blast
qed

end
