(* ===== verification/Live_Engine.thy ===== *)
theory Live_Engine
  imports Market_Properties Shm_Ring
begin

text \<open>
  \<open>apps/live-engine/src/main.rs\<close>: the gateway that sends orders to the execution engine through one
  shared memory ring and takes fills from another, and the loop over the UDP socket. What the
  socket returns is a sequence of events. The environment of the gateway moves on by itself: the time
  and the memory the exchange writes into (as the three accesses of a read see it) are functions of
  the number of calls the gateway has had, so a poll may find the inbound ring empty and the next
  poll find a fill there. The CPU pinning is not modelled.
\<close>

section \<open>The gateway\<close>

record shm_gateway =
  lg_outbound_shm :: shm_ring
  lg_inbound_shm :: shm_ring
  lg_next_seq :: u64

definition new_shm_gateway :: "byte list option \<Rightarrow> byte list option \<Rightarrow> shm_gateway res" where
  "new_shm_gateway outbound_file inbound_file =
     r_bind (expect_ok (create_producer shm_bytes outbound_file)) (\<lambda>outbound.
     r_bind (expect_ok (create_consumer shm_bytes inbound_file)) (\<lambda>inbound.
     Inr \<lparr>lg_outbound_shm = outbound, lg_inbound_shm = inbound, lg_next_seq = 0\<rparr>))"

definition live_send_order :: "build \<Rightarrow> u64 \<Rightarrow> shm_gateway \<Rightarrow> order_command \<Rightarrow> shm_gateway res" where
  "live_send_order b now g cmd =
     r_bind (ring_write b (lg_outbound_shm g) (order_command_as_bytes cmd) now) (\<lambda>ring.
     Inr (g\<lparr>lg_outbound_shm := ring\<rparr>))"

type_synonym observation = "byte list \<times> byte list \<times> byte list"

text \<open>\<open>read_unaligned\<close> takes the report from the first 19 bytes of the data.\<close>

definition live_poll ::
    "build \<Rightarrow> observation \<Rightarrow> shm_gateway \<Rightarrow> (shm_gateway \<times> execution_report option) res" where
  "live_poll b seen g =
     (case seen of (mem_start, mem_copy, mem_end) \<Rightarrow>
        r_bind (ring_read_observing b (sr_capacity (lg_inbound_shm g)) mem_start mem_copy mem_end
                  (lg_next_seq g)) (\<lambda>result.
        case result of
          Success slot \<Rightarrow>
            r_bind (add_u b (lg_next_seq g) 1) (\<lambda>n.
            Inr (g\<lparr>lg_next_seq := n\<rparr>, Some (execution_report_of_bytes (sl_data slot))))
        | Empty \<Rightarrow> Inr (g, None)
        | Reset \<Rightarrow> Inl Explicit_Panic
        | Overlapped _ \<Rightarrow> Inl Explicit_Panic
        | Interrupted _ \<Rightarrow> Inl Explicit_Panic))"

text \<open>The gateway with the number of calls it has had: \<open>clock k\<close> and \<open>seen k\<close> are the time and the
  memory of the exchange at call \<open>k\<close>.\<close>

type_synonym live_gateway = "shm_gateway \<times> nat"

definition live_ops ::
    "build \<Rightarrow> (nat \<Rightarrow> u64) \<Rightarrow> (nat \<Rightarrow> observation) \<Rightarrow> live_gateway gateway_ops" where
  "live_ops b clock seen =
     \<lparr>gw_send_order = (\<lambda>(g, k) cmd.
        r_bind (live_send_order b (clock k) g cmd) (\<lambda>g'. Inr (g', Suc k))),
      gw_poll_confirmed_orders = (\<lambda>(g, k).
        r_bind (live_poll b (seen k) g) (\<lambda>(g', r). Inr ((g', Suc k), r))),
      gw_get_position = (\<lambda>_ _. 0), gw_get_cash_balance = (\<lambda>_ _. 0)\<rparr>"

text \<open>What a poll can do when it does not panic.\<close>

lemma live_poll_cases:
  assumes "live_poll b seen g = Inr (g', r)"
  obtains (empty) "g' = g" "r = None"
  | (report) slot where "ring_read_observing b (sr_capacity (lg_inbound_shm g)) (fst seen) (fst (snd seen))
        (snd (snd seen)) (lg_next_seq g) = Inr (Success slot)"
      "g' = g\<lparr>lg_next_seq := lg_next_seq g + 1\<rparr>" "r = Some (execution_report_of_bytes (sl_data slot))"
proof -
  obtain a c e where seen: "seen = (a, c, e)" by (cases seen)
  obtain result where result: "ring_read_observing b (sr_capacity (lg_inbound_shm g)) a c e (lg_next_seq g) =
      Inr result"
    using assms by (auto simp: live_poll_def seen)
  note poll = assms [unfolded live_poll_def seen prod.case result r_bind.simps]
  show thesis
  proof (cases result)
    case (Success slot)
    then have "g' = g\<lparr>lg_next_seq := lg_next_seq g + 1\<rparr>" "r = Some (execution_report_of_bytes (sl_data slot))"
      using poll by (auto dest: add_u_InrD)
    with result show thesis by (intro report) (simp_all add: seen Success)
  qed (use poll empty in simp_all)
qed

definition dummy_writer :: "unit writer_ops" where
  "dummy_writer = \<lparr>wr_write = (\<lambda>w _. Inr w)\<rparr>"

section \<open>The loop\<close>

datatype socket_event = Datagram "byte list" | Would_Block | Socket_Error

text \<open>One round of the loop of \<open>main\<close>; a datagram is cut at the buffer of 1024 bytes.\<close>

definition live_round ::
    "build \<Rightarrow> 's strategy_ops \<Rightarrow> 'g gateway_ops \<Rightarrow> 'w writer_ops \<Rightarrow> ('s, 'w) market_state \<Rightarrow> 'g
     \<Rightarrow> socket_event \<Rightarrow> (('s, 'w) market_state \<times> 'g) res option" where
  "live_round b st gw wr market gateway ev =
     (case ev of
        Datagram bytes \<Rightarrow> handle_raw_packet b st gw wr market (take 1024 bytes) gateway
      | Would_Block \<Rightarrow> poll_confirmed_orders st gw market gateway
      | Socket_Error \<Rightarrow> Some (Inr (market, gateway)))"

fun live_loop ::
    "build \<Rightarrow> 's strategy_ops \<Rightarrow> 'g gateway_ops \<Rightarrow> 'w writer_ops \<Rightarrow> ('s, 'w) market_state \<Rightarrow> 'g
     \<Rightarrow> socket_event list \<Rightarrow> (('s, 'w) market_state \<times> 'g) res option" where
  "live_loop b st gw wr market gateway [] = Some (Inr (market, gateway))"
| "live_loop b st gw wr market gateway (ev # evs) =
     (case live_round b st gw wr market gateway ev of
        None \<Rightarrow> None
      | Some (Inl e) \<Rightarrow> Some (Inl e)
      | Some (Inr (market', gateway')) \<Rightarrow> live_loop b st gw wr market' gateway' evs)"

lemma live_round_steps:
  assumes "live_round b st gw wr m g ev = Some (Inr (m', g'))"
  shows "(market_step b st gw wr)\<^sup>*\<^sup>* (m, g) (m', g')"
  using assms handle_raw_packet_steps poll_steps
  by (auto simp: live_round_def split: socket_event.splits)

lemma live_loop_steps:
  "live_loop b st gw wr m g evs = Some (Inr (m', g')) \<Longrightarrow>
   (market_step b st gw wr)\<^sup>*\<^sup>* (m, g) (m', g')"
proof (induction b st gw wr m g evs rule: live_loop.induct)
  case (2 b st gw wr m g ev evs)
  then obtain m1 g1 where "live_round b st gw wr m g ev = Some (Inr (m1, g1))"
    and "live_loop b st gw wr m1 g1 evs = Some (Inr (m', g'))"
    by (auto split: option.splits sum.splits)
  then show ?case using 2(1) live_round_steps by (metis rtranclp_trans)
qed simp

text \<open>\<open>main\<close>. It says that it can do without a third CPU, and then takes it nevertheless
  (\<open>core_ids[2]\<close>). The socket is assumed to bind.\<close>

definition live_market :: "build \<Rightarrow> u64 \<Rightarrow> (simple_mid_point, unit) market_state res" where
  "live_market b now_secs =
     new_market b [rstr ''AAPL'', rstr ''MSFT''] (new_mid_point threshold_08) () now_secs"

definition live_main ::
    "build \<Rightarrow> 'core list option \<Rightarrow> byte list option \<Rightarrow> byte list option \<Rightarrow> u64 \<Rightarrow> (nat \<Rightarrow> u64)
     \<Rightarrow> (nat \<Rightarrow> observation) \<Rightarrow> socket_event list
     \<Rightarrow> ((simple_mid_point, unit) market_state \<times> live_gateway) res option" where
  "live_main b core_ids outbound_file inbound_file now_secs clock seen evs =
     (case core_ids of
        None \<Rightarrow> Some (Inl Unwrap_None)
      | Some ids \<Rightarrow>
          (case r_bind (index ids 2) (\<lambda>producer_core.
                r_bind (new_shm_gateway outbound_file inbound_file) (\<lambda>gateway.
                r_bind (live_market b now_secs) (\<lambda>market. Inr (market, gateway)))) of
             Inl e \<Rightarrow> Some (Inl e)
           | Inr (market, gateway) \<Rightarrow>
               live_loop b (mid_point_ops b) (live_ops b clock seen) dummy_writer market (gateway, 0) evs))"

section \<open>Malformed datagrams\<close>

text \<open>C38: A datagram of fewer than 11 bytes stops the engine: the time stamp is read by indexing before
  the message type is looked at, so even a message type the parser ignores panics.\<close>

theorem short_datagram_panics:
  assumes "length bytes < 11"
  shows "live_round b st gw wr m g (Datagram bytes) = Some (Inl Index_Out_Of_Bounds)"
proof -
  have "packet_time b t (take 1024 bytes) = Inl Index_Out_Of_Bounds" for t
    using assms by (auto simp: packet_time_def index_def)
  then show ?thesis by (simp add: live_round_def handle_raw_packet_def handle_message_def)
qed

section \<open>Orders and fills on the wire\<close>

text \<open>What the C++ execution engine sees of an order.\<close>

definition cpp_view :: "order_command \<Rightarrow> cpp_order_command" where
  "cpp_view cmd =
     \<lparr>cpp_symbol_locate = oc_symbol_locate cmd, cpp_order_id = oc_order_id cmd,
      cpp_price = oc_price cmd, cpp_quantity = oc_quantity cmd,
      cpp_side = (case oc_side cmd of OrderBuy \<Rightarrow> 0 | OrderSell \<Rightarrow> 1)\<rparr>"

lemma slot_order:
  assumes "fst (slot_message s) = order_command_as_bytes cmd"
  shows "cpp_order_command_of_bytes (take 19 (sl_data s)) = cpp_view cmd"
proof -
  have data: "take (unat (sl_len s)) (sl_data s) = order_command_as_bytes cmd"
    using assms by (simp add: slot_message_def)
  then have "length (take (unat (sl_len s)) (sl_data s)) = 22" by simp
  then have "22 \<le> unat (sl_len s)" by (auto simp: min_def split: if_splits)
  then have "take 19 (sl_data s) = take 19 (take (unat (sl_len s)) (sl_data s))" by (simp add: min_def)
  then show ?thesis by (simp add: data cpp_reads_rust_order cpp_view_def)
qed

text \<open>The outbound ring holds exactly the orders sent.\<close>

definition orders_on_wire :: "shm_gateway \<Rightarrow> order_command list \<Rightarrow> bool" where
  "orders_on_wire g sends \<longleftrightarrow>
     (\<exists>msgs. ring_holds 20 msgs (lg_outbound_shm g) \<and> map fst msgs = map order_command_as_bytes sends)"

lemma live_send_on_wire:
  assumes "live_send_order b now g cmd = Inr g'" "orders_on_wire g sends"
  shows "orders_on_wire g' (sends @ [cmd])"
proof -
  obtain msgs where msgs: "ring_holds 20 msgs (lg_outbound_shm g)"
    "map fst msgs = map order_command_as_bytes sends"
    using assms(2) by (auto simp: orders_on_wire_def)
  obtain ring where ring: "ring_write b (lg_outbound_shm g) (order_command_as_bytes cmd) now = Inr ring"
    "g' = g\<lparr>lg_outbound_shm := ring\<rparr>"
    using assms(1) by (auto simp: live_send_order_def)
  have "length msgs \<noteq> 2 ^ 20 - 1"
  proof
    assume full: "length msgs = 2 ^ 20 - 1"
    moreover have "unat (header_head (sr_mmap (lg_outbound_shm g))) = length msgs"
      using msgs(1) by (rule ring_holds_head) simp
    ultimately have "ring_write b (lg_outbound_shm g) (order_command_as_bytes cmd) now = Inl Wild_Pointer"
      using ring_write_cases [of 20 "lg_outbound_shm g" "order_command_as_bytes cmd" b now] msgs(1)
      by (simp add: ring_holds_def)
    with ring(1) show False by simp
  qed
  moreover have "length msgs < 2 ^ 20" using msgs(1) by (simp add: ring_holds_def)
  ultimately have room: "length msgs + 1 < 2 ^ 20" by linarith
  have "ring_holds 20 (msgs @ [(order_command_as_bytes cmd, now)]) ring"
    using ring_write_holds [OF msgs(1) _ _ room, of "order_command_as_bytes cmd" b now] ring(1) by auto
  then show ?thesis
    using msgs(2) by (auto simp: orders_on_wire_def ring(2) intro!: exI [of _ "msgs @ [_]"])
qed

lemma live_poll_on_wire:
  assumes "live_poll b seen g = Inr (g', r)" shows "lg_outbound_shm g' = lg_outbound_shm g"
  using assms by (rule live_poll_cases) simp_all

lemma live_step_on_wire:
  assumes "market_step b st (logged (live_ops b' clock seen)) wr x y"
    and "orders_on_wire (fst (fst (snd x))) (snd (snd x))"
  shows "orders_on_wire (fst (fst (snd y))) (snd (snd y))"
  using assms
proof (induction rule: market_step.induct)
  case (event m msg slot g p' w' g' next_id)
  obtain p1 p2 where "run_strategy b st (logged (live_ops b' clock seen)) p1 g (ms_global_order_id_counter m) =
      Inr (p2, g', next_id)"
    using event(4) by (rule handle_event_parts)
  then show ?case
    using event(5)
    by (cases rule: run_strategy_cases)
      (auto simp: sent_run_def logged_def live_ops_def live_send_on_wire split: prod.splits)
next
  case (confirm g g' r m m')
  then show ?case
    by (auto simp: logged_def live_ops_def orders_on_wire_def live_poll_on_wire split: prod.splits)
next
  case (drained g g' m)
  then show ?case
    by (auto simp: logged_def live_ops_def orders_on_wire_def live_poll_on_wire split: prod.splits)
qed simp_all

lemma live_orders_end:
  assumes "orders_on_wire g sends"
  shows "ring_read b (lg_outbound_shm g) (word_of_nat (length sends)) = Inr Empty"
proof -
  obtain msgs where msgs: "ring_holds 20 msgs (lg_outbound_shm g)"
    "map fst msgs = map order_command_as_bytes sends"
    using assms by (auto simp: orders_on_wire_def)
  have "length msgs = length sends" using arg_cong [OF msgs(2), of length] by simp
  then show ?thesis using ring_read_end [OF msgs(1), of b] by simp
qed

lemma live_orders_read:
  assumes "orders_on_wire g sends" "i < length sends"
  shows "\<exists>s. ring_read b (lg_outbound_shm g) (word_of_nat i) = Inr (Success s) \<and>
    cpp_order_command_of_bytes (take 19 (sl_data s)) = cpp_view (sends ! i)"
proof -
  obtain msgs where msgs: "ring_holds 20 msgs (lg_outbound_shm g)"
    "map fst msgs = map order_command_as_bytes sends"
    using assms(1) by (auto simp: orders_on_wire_def)
  have len: "length msgs = length sends" using arg_cong [OF msgs(2), of length] by simp
  obtain s where s: "ring_read b (lg_outbound_shm g) (word_of_nat i) = Inr (Success s)" "slot_message s = msgs ! i"
    using ring_read_holds [OF msgs(1), of i b] assms(2) len by auto
  have "fst (slot_message s) = order_command_as_bytes (sends ! i)"
    using arg_cong [OF msgs(2), of "\<lambda>xs. xs ! i"] assms(2) len s(2) by simp
  with s(1) show ?thesis using slot_order by blast
qed

lemma live_poll_report:
  assumes "ring_holds j msgs ring" "j \<le> 50" "i < length msgs" "lg_next_seq g = word_of_nat i"
    and "fst (msgs ! i) = execution_report_bytes r" "mem = sr_mmap ring"
    and "sr_capacity (lg_inbound_shm g) = sr_capacity ring"
  shows "live_poll b (mem, mem, mem) g = Inr (g\<lparr>lg_next_seq := word_of_nat (i + 1)\<rparr>, Some r)"
proof -
  obtain s where s: "ring_read b ring (word_of_nat i) = Inr (Success s)" "slot_message s = msgs ! i"
    using ring_read_holds [OF assms(1-3), of b] by blast
  have "sl_data s = execution_report_bytes r @ drop (unat (sl_len s)) (sl_data s)"
    using s(2) assms(5) by (metis append_take_drop_id fst_conv slot_message_def)
  then have "execution_report_of_bytes (sl_data s) = r" by (metis execution_report_roundtrip)
  moreover have "i < 2 ^ j" using assms(1,3) by (simp add: ring_holds_def)
  then have "unat (word_of_nat i :: u64) = i" "i < 2 ^ 50" using unat_count [OF assms(2)] by auto
  then have "add_u b (word_of_nat i) (1 :: u64) = Inr (word_of_nat i + 1)"
    by (intro add_u_exact(1)) simp
  ultimately show ?thesis
    using s(1) by (simp add: live_poll_def assms(4,6,7) ring_read_def add.commute)
qed

text \<open>C25: A fill report the exchange has put into the inbound ring is handed to the market handler as it
  was written, and the gateway moves on to the next one.\<close>

theorem polled_fill_is_report:
  assumes "ring_holds j msgs (lg_inbound_shm g)" "j \<le> 50" "i < length msgs" "lg_next_seq g = word_of_nat i"
    and "fst (msgs ! i) = execution_report_bytes r" "mem = sr_mmap (lg_inbound_shm g)"
  shows "live_poll b (mem, mem, mem) g = Inr (g\<lparr>lg_next_seq := word_of_nat (i + 1)\<rparr>, Some r)"
  by (rule live_poll_report [OF assms refl])

section \<open>The engine as a whole\<close>

lemma new_shm_gateway_wire:
  assumes "new_shm_gateway (Some old) inbound_file = Inr g"
  shows "orders_on_wire g []"
proof -
  obtain ring where "create_producer shm_bytes (Some old) = Inr (Inr ring)" "lg_outbound_shm g = ring"
    using assms by (auto simp: new_shm_gateway_def)
  then show ?thesis
    using ring_holds_new [of 20 old ring] by (simp add: orders_on_wire_def shm_bytes_power)
qed

text \<open>C2: The live engine from start to now, whatever arrives on the socket and whatever the exchange
  writes between any two calls of the gateway: if it has not panicked, there is a list of orders with
  the ids 0, 1, 2, ... whose signed quantities add up to the committed positions, no symbol is beyond
  3500 shares long or short, and the shared memory holds exactly these orders for the C++ execution
  engine: at each of their sequence numbers it reads that order, and at the next one nothing yet.\<close>

theorem live_engine_session:
  assumes "live_main b core_ids (Some old) inbound_file now_secs clock seen evs = Some (Inr (m, (g, k)))"
  shows "\<exists>sends. map oc_order_id sends = map word_of_nat [0..<length sends] \<and>
    sum_list (map signed_qty sends) = total_position m \<and>
    (\<forall>p\<in>set (ms_processors m). \<bar>processor_position p\<bar> \<le> 3500) \<and>
    (\<forall>i<length sends. \<exists>s. ring_read b (lg_outbound_shm g) (word_of_nat i) = Inr (Success s) \<and>
      cpp_order_command_of_bytes (take 19 (sl_data s)) = cpp_view (sends ! i)) \<and>
    ring_read b (lg_outbound_shm g) (word_of_nat (length sends)) = Inr Empty"
proof -
  obtain g0 m0 where g0: "new_shm_gateway (Some old) inbound_file = Inr g0" and m0: "live_market b now_secs = Inr m0"
    and run: "live_loop b (mid_point_ops b) (live_ops b clock seen) dummy_writer m0 (g0, 0) evs = Some (Inr (m, (g, k)))"
    using assms by (auto simp: live_main_def split: option.splits sum.splits)
  obtain sends where steps: "(market_step b (mid_point_ops b) (logged (live_ops b clock seen)) dummy_writer)\<^sup>*\<^sup>*
      (m0, ((g0, 0), [])) (m, ((g, k), sends))"
    using logged_steps [OF live_loop_steps [OF run]] by blast
  have inv: "session_inv [rstr ''AAPL'', rstr ''MSFT''] (m, (g, k), sends)"
    using m0 [unfolded live_market_def] steps by (rule session_inv_steps)
  have "orders_on_wire (fst (fst (snd (m, ((g, k), sends))))) (snd (snd (m, ((g, k), sends))))"
    using new_shm_gateway_wire [OF g0]
    by (intro step_invariant [OF steps, of "\<lambda>x. orders_on_wire (fst (fst (snd x))) (snd (snd x))"])
      (auto intro: live_step_on_wire)
  then have wire: "orders_on_wire g sends" by simp
  show ?thesis
    using inv live_orders_read [OF wire, of _ b] live_orders_end [OF wire, of b] session_inv_position [OF inv]
    by (intro exI [of _ sends]) (auto simp: session_inv_def)
qed

text \<open>A fill may arrive after a poll that found nothing: the poll leaves the gateway as it was, and the
  next one returns the report.\<close>

lemma fill_after_empty_poll:
  assumes "ring_holds j msgs ring" "j \<le> 50" "i < length msgs" "lg_next_seq g = word_of_nat i"
    and "fst (msgs ! i) = execution_report_bytes r" "mem = sr_mmap ring"
    and "sr_capacity (lg_inbound_shm g) = sr_capacity ring"
    and "header_head before = word_of_nat i" "seen k = (before, before, before)" "seen (Suc k) = (mem, mem, mem)"
  shows "gw_poll_confirmed_orders (live_ops b clock seen) (g, k) = Inr ((g, Suc k), None)"
    and "gw_poll_confirmed_orders (live_ops b clock seen) (g, Suc k) =
      Inr ((g\<lparr>lg_next_seq := word_of_nat (Suc i)\<rparr>, Suc (Suc k)), Some r)"
proof -
  have "live_poll b (before, before, before) g = Inr (g, None)"
    using assms(4,8) by (simp add: live_poll_def ring_read_observing_def Let_def)
  then show "gw_poll_confirmed_orders (live_ops b clock seen) (g, k) = Inr ((g, Suc k), None)"
    by (simp add: live_ops_def assms(9))
  have "live_poll b (mem, mem, mem) g = Inr (g\<lparr>lg_next_seq := word_of_nat (Suc i)\<rparr>, Some r)"
    using live_poll_report [OF assms(1-7), of b] by (simp del: of_nat_Suc)
  then show "gw_poll_confirmed_orders (live_ops b clock seen) (g, Suc k) =
      Inr ((g\<lparr>lg_next_seq := word_of_nat (Suc i)\<rparr>, Suc (Suc k)), Some r)"
    by (simp add: live_ops_def assms(10) del: of_nat_Suc)
qed

section \<open>Polling ends when the exchange pauses\<close>

lemma live_poll_advances:
  assumes "live_poll b (mem_start, mem_copy, mem_end) g = Inr (g', Some r)"
  shows "unat (header_head mem_start) - unat (lg_next_seq g') <
    unat (header_head mem_start) - unat (lg_next_seq g)"
proof -
  obtain slot where "ring_read_observing b (sr_capacity (lg_inbound_shm g)) mem_start mem_copy mem_end
      (lg_next_seq g) = Inr (Success slot)" and g': "g' = g\<lparr>lg_next_seq := lg_next_seq g + 1\<rparr>"
    using assms by (cases rule: live_poll_cases) auto
  then have "lg_next_seq g < header_head mem_start"
    by (auto simp: ring_read_observing_def Let_def split: if_splits)
  then have lt: "unat (lg_next_seq g) < unat (header_head mem_start)" by (simp add: word_less_nat_alt)
  then have "unat (lg_next_seq g + 1) = unat (lg_next_seq g) + 1"
    using unat_u64_bound [of "header_head mem_start"] add_u_exact(2) [of "lg_next_seq g" 1] by simp
  then show ?thesis using lt by (simp add: g')
qed

text \<open>While the memory the exchange writes into does not change, the gateway drains.\<close>

interpretation live: draining_gateway "live_ops b clock (\<lambda>_. seen)"
  "\<lambda>(g, k). unat (header_head (fst seen)) - unat (lg_next_seq g)"
  by unfold_locales (cases seen, auto simp: live_ops_def dest: live_poll_advances)

text \<open>C32: While the exchange writes nothing more, polling for fills comes to an end: every round takes one
  report out of the backlog of the ring, whatever its memory holds, or panics.\<close>

theorem live_poll_terminates:
  "\<exists>result. poll_confirmed_orders st (live_ops b clock (\<lambda>_. seen)) m g = Some result"
  using live.poll_terminates [of st b clock seen m g] by auto

end
