(* ===== verification/Rust_Float_Signed.thy ===== *)
theory Rust_Float_Signed
  imports Rust_Float
begin

text \<open>
  Floating-point operations on numbers of either sign: rounding is symmetric, so the operations round
  correctly without the sign conditions of \<open>Rust_Float\<close>; and an absolute bound on the rounding error
  in terms of the size of the exact result, which survives cancellation.
\<close>

section \<open>Rounding is symmetric\<close>

lemma round_frac_flip: "round_frac f (\<not> neg) n d = fl_neg (round_frac f neg n d)"
  by (simp add: round_frac_def Let_def)

lemma fl_neg_neg: "fl_neg (fl_neg v) = v"
  by (cases v) simp_all

lemma round_dyadic_minus: "round_dyadic f (- m) e = fl_neg (round_dyadic f m e)"
proof (cases "m = 0")
  case True
  then show ?thesis by (simp add: round_dyadic_def round_frac_def)
next
  case False
  then have "(- m < 0) = (\<not> m < 0)" by linarith
  then show ?thesis by (simp add: round_dyadic_def round_frac_flip)
qed

lemma representable_minus: "representable f y \<Longrightarrow> representable f (- y)"
  unfolding representable_def by (metis abs_minus_cancel mult_minus_left of_int_minus)

lemma rounds_minus: "rounds f x v \<Longrightarrow> rounds f (- x) (fl_neg v)"
  unfolding rounds_def
proof (intro conjI allI impI)
  fix y
  assume v: "is_fin v \<and> (\<forall>y. representable f y \<longrightarrow> \<bar>fval v - x\<bar> \<le> \<bar>y - x\<bar>)" and y: "representable f y"
  then have "\<bar>fval v - x\<bar> \<le> \<bar>- y - x\<bar>" using representable_minus by blast
  then show "\<bar>fval (fl_neg v) - - x\<bar> \<le> \<bar>y - - x\<bar>" by simp
qed simp

lemma srounds_dyadic:
  assumes f: "format_ok f" and x: "\<bar>real_of_int m * p2 e\<bar> \<le> p2 (ff_emax f - 1)"
  shows "rounds f (real_of_int m * p2 e) (round_dyadic f m e)"
proof (cases "0 \<le> m")
  case True
  then show ?thesis using rounds_round_dyadic [OF f True, of e] x by simp
next
  case False
  then have "rounds f (real_of_int (- m) * p2 e) (round_dyadic f (- m) e)"
    using x by (intro rounds_round_dyadic [OF f]) simp_all
  from rounds_minus [OF this] show ?thesis
    using round_dyadic_minus [of f "- m" e] by simp
qed

section \<open>The operations\<close>

definition fl_of_int :: "float_format \<Rightarrow> int \<Rightarrow> fl" where
  "fl_of_int f i = round_dyadic f i 0"

lemma srounds_of_int:
  "format_ok f \<Longrightarrow> \<bar>real_of_int i\<bar> \<le> p2 (ff_emax f - 1) \<Longrightarrow> rounds f (real_of_int i) (fl_of_int f i)"
  using srounds_dyadic [of f i 0] by (simp add: fl_of_int_def)

lemma srounds_add:
  assumes f: "format_ok f" and a: "is_fin a" "is_fin b"
    and x: "\<bar>fval a + fval b\<bar> \<le> p2 (ff_emax f - 1)"
  shows "rounds f (fval a + fval b) (fl_add f a b)"
proof -
  from a obtain m1 e1 m2 e2 where ab: "a = Fin m1 e1" "b = Fin m2 e2"
    by (elim is_finE) blast
  let ?e = "min e1 e2"
  let ?m = "m1 * 2 ^ nat (e1 - ?e) + m2 * 2 ^ nat (e2 - ?e)"
  have v: "fval a + fval b = real_of_int ?m * p2 ?e"
    by (simp only: ab fval.simps of_int_add distrib_right align_fval min.cobounded1 min.cobounded2)
  show ?thesis using srounds_dyadic [OF f, of ?m ?e] x unfolding v by (simp add: ab Let_def)
qed

lemma srounds_mul:
  assumes f: "format_ok f" and a: "is_fin a" "is_fin b"
    and x: "\<bar>fval a * fval b\<bar> \<le> p2 (ff_emax f - 1)"
  shows "rounds f (fval a * fval b) (fl_mul f a b)"
proof -
  from a obtain m1 e1 m2 e2 where ab: "a = Fin m1 e1" "b = Fin m2 e2"
    by (elim is_finE) blast
  have v: "fval a * fval b = real_of_int (m1 * m2) * p2 (e1 + e2)" by (simp add: ab p2_add)
  show ?thesis using srounds_dyadic [OF f, of "m1 * m2" "e1 + e2"] x unfolding v by (simp add: ab)
qed

lemma fl_div_minus:
  assumes "is_fin a" "is_fin b" "0 < fval b"
  shows "fl_div f (fl_neg a) b = fl_neg (fl_div f a b)"
proof -
  from assms(1,2) obtain m1 e1 m2 e2 where ab: "a = Fin m1 e1" "b = Fin m2 e2"
    by (elim is_finE) blast
  have m2: "0 < m2" using assms(3) p2_pos [of e2] by (simp add: ab zero_less_mult_iff)
  show ?thesis
  proof (cases "m1 = 0")
    case True
    then show ?thesis using m2 by (simp add: ab round_frac_def)
  next
    case False
    then have "(- m1 < 0) = (\<not> m1 < 0)" by linarith
    then show ?thesis using m2 by (simp add: ab round_frac_flip)
  qed
qed

lemma srounds_div:
  assumes f: "format_ok f" and a: "is_fin a" "is_fin b"
    and x: "0 < fval b" "\<bar>fval a / fval b\<bar> \<le> p2 (ff_emax f - 1)"
  shows "rounds f (fval a / fval b) (fl_div f a b)"
proof (cases "0 \<le> fval a")
  case True
  then have "fval a / fval b \<le> p2 (ff_emax f - 1)" using x(2) abs_ge_self order_trans by blast
  then show ?thesis using rounds_div [OF f a True x(1)] by simp
next
  case False
  then have "rounds f (fval (fl_neg a) / fval b) (fl_div f (fl_neg a) b)"
    using a x by (intro rounds_div [OF f]) simp_all
  from rounds_minus [OF this] show ?thesis by (simp add: fl_div_minus [OF a x(1)] fl_neg_neg)
qed

section \<open>Absolute error\<close>

text \<open>An exact result of at most \<open>2 ^ k\<close> is rounded by at most \<open>2 ^ (k - prec)\<close>.\<close>

lemma rounds_abs_error:
  assumes v: "rounds f x v" and x: "\<bar>x\<bar> \<le> p2 k"
    and k: "ff_emin f \<le> k - int (ff_prec f)" "k < ff_emax f"
  shows "\<bar>fval v - x\<bar> \<le> p2 (k - int (ff_prec f))"
proof -
  define q where "q = k - int (ff_prec f)"
  define j where "j = \<lfloor>x / p2 q\<rfloor>"
  have pk: "p2 k = 2 ^ ff_prec f * p2 q"
    using p2_add [of "int (ff_prec f)" q] by (simp add: q_def)
  have "real_of_int (- (2 ^ ff_prec f)) \<le> x / p2 q" "x / p2 q \<le> real_of_int (2 ^ ff_prec f)"
    using x unfolding pk by (simp_all add: field_simps abs_le_iff)
  then have "- (2 ^ ff_prec f) \<le> j" "j \<le> 2 ^ ff_prec f"
    unfolding j_def by (simp_all only: le_floor_iff) (metis floor_mono floor_of_int)
  then have j: "\<bar>j\<bar> \<le> 2 ^ ff_prec f" by simp
  have "real_of_int j \<le> x / p2 q" "x / p2 q < real_of_int j + 1" unfolding j_def by linarith+
  then have near: "\<bar>real_of_int j * p2 q - x\<bar> \<le> p2 q"
    using p2_pos [of q] by (simp add: field_simps abs_le_iff)
  have "\<bar>real_of_int j\<bar> \<le> 2 ^ ff_prec f" using j by (metis of_int_abs of_int_le_iff of_int_numeral of_int_power)
  then have "\<bar>real_of_int j * p2 q\<bar> \<le> p2 k" unfolding pk by (simp add: abs_mult)
  also have "p2 k < p2 (ff_emax f)" using k(2) by (simp add: power_int_strict_increasing)
  finally have "representable f (real_of_int j * p2 q)"
    unfolding representable_def using j k(1) q_def by blast
  from rounds_error [OF v this] near show ?thesis by (simp add: q_def)
qed

lemma rounds_abs_error_f64:
  "rounds f64 x v \<Longrightarrow> \<bar>x\<bar> \<le> 2 ^ k \<Longrightarrow> k \<le> 53 \<Longrightarrow> \<bar>fval v - x\<bar> \<le> 1 / 2 ^ (53 - k)"
proof -
  assume a: "rounds f64 x v" "\<bar>x\<bar> \<le> 2 ^ k" "k \<le> 53"
  then have "\<bar>fval v - x\<bar> \<le> p2 (int k - 53)"
    using rounds_abs_error [OF a(1), of "int k"] by (simp add: f64_def)
  also have "\<dots> = 1 / 2 ^ (53 - k)" using a(3) by (simp add: p2_neg_nat nat_diff_distrib')
  finally show ?thesis .
qed

lemma of_int_f64:
  assumes "\<bar>i\<bar> \<le> 2 ^ 53"
  shows "is_fin (fl_of_int f64 i)" "fval (fl_of_int f64 i) = real_of_int i"
proof -
  have "\<bar>real_of_int i\<bar> \<le> 2 ^ 53" using assms by (metis of_int_abs of_int_le_iff of_int_numeral of_int_power)
  also have "(2 :: real) ^ 53 \<le> p2 1023" by (rule p2_large [of _ 53]) simp_all
  finally have le: "\<bar>real_of_int i\<bar> \<le> p2 1023" .
  then have r: "rounds f64 (real_of_int i) (fl_of_int f64 i)"
    by (intro srounds_of_int) (simp_all add: f64_def format_ok_def)
  have "representable f64 (real_of_int i)"
  proof -
    have "\<bar>real_of_int i\<bar> < p2 1024"
      using le power_int_strict_increasing [of 1023 1024 "2 :: real"] by simp
    then show ?thesis
      using assms unfolding representable_def f64_def
      by (intro conjI exI [of _ i] exI [of _ 0]) simp_all
  qed
  with r show "is_fin (fl_of_int f64 i)" "fval (fl_of_int f64 i) = real_of_int i"
    by (auto intro: rounds_fin rounds_exact)
qed

end
