(* ===== verification/Final_Balance.thy ===== *)
theory Final_Balance
  imports Telemetry_Path Rust_Float_Signed
begin

text \<open>
  \<open>ReplayGateway::print_final_pnl\<close> of \<open>apps/replay-engine/src/main.rs\<close>: the numbers it prints, as \<open>f64\<close>
  values; and \<open>main\<close> of the replay engine as a whole. The source iterates over two hash maps in an
  order it does not control; the walks are arguments, arbitrary lists of keys. The real ones meet
  every key once, and then the exact sums do not depend on the order. The printing with two decimals
  is not modelled: where it prints a number, the model has the \<open>f64\<close> value handed to the printing.
\<close>

section \<open>The numbers\<close>

record balance_line =
  bl_locate :: u16
  bl_pos :: i32
  bl_market_price :: fl
  bl_pos_value :: fl

record final_balance =
  fb_cash_dollars :: fl
  fb_lines :: "balance_line list"
  fb_inventory_value :: fl
  fb_total_equity :: fl

text \<open>\<open>values().sum()\<close> in \<open>i64\<close>.\<close>

fun sum_cash :: "build \<Rightarrow> i64 \<Rightarrow> i64 list \<Rightarrow> i64 res" where
  "sum_cash b acc [] = Inr acc"
| "sum_cash b acc (x # xs) = r_bind (add_s b acc x) (\<lambda>acc'. sum_cash b acc' xs)"

definition ten_thousand :: fl where
  "ten_thousand = fl_of_nat f64 10000"

definition balance_line_of :: "replay_gateway \<Rightarrow> u16 \<Rightarrow> balance_line option" where
  "balance_line_of g locate =
     (case rg_last_prices g locate of
        None \<Rightarrow> None
      | Some price \<Rightarrow>
          let pos = entry_or_0 (rg_positions g) locate;
              market_price = fl_div f64 (fl_of_nat f64 (unat price)) ten_thousand;
              pos_value = fl_mul f64 (fl_of_int f64 (sint pos)) market_price
          in Some \<lparr>bl_locate = locate, bl_pos = pos, bl_market_price = market_price, bl_pos_value = pos_value\<rparr>)"

definition final_pnl :: "build \<Rightarrow> u16 list \<Rightarrow> u16 list \<Rightarrow> replay_gateway \<Rightarrow> final_balance res" where
  "final_pnl b cash_order pos_order g =
     r_bind (sum_cash b 0 (map (entry_or_0 (rg_cash_balances g)) cash_order)) (\<lambda>total_cash.
     let cash_dollars = fl_div f64 (fl_of_int f64 (sint total_cash)) ten_thousand;
         balance_lines = List.map_filter (balance_line_of g) pos_order;
         inventory_value = fold (\<lambda>line acc. fl_add f64 acc (bl_pos_value line)) balance_lines (Fin 0 0);
         total_equity = fl_add f64 cash_dollars inventory_value
     in Inr \<lparr>fb_cash_dollars = cash_dollars, fb_lines = balance_lines,
             fb_inventory_value = inventory_value, fb_total_equity = total_equity\<rparr>)"

section \<open>The exact balance\<close>

text \<open>In units of a ten thousandth of a dollar.\<close>

definition exact_cash :: "u16 list \<Rightarrow> replay_gateway \<Rightarrow> int" where
  "exact_cash cash_order g = sum_list (map (\<lambda>loc. sint (replay_get_cash_balance g loc)) cash_order)"

definition exact_value :: "replay_gateway \<Rightarrow> u16 \<Rightarrow> int" where
  "exact_value g loc =
     (case rg_last_prices g loc of None \<Rightarrow> 0 | Some price \<Rightarrow> sint (replay_get_position g loc) * uint price)"

definition exact_inventory :: "u16 list \<Rightarrow> replay_gateway \<Rightarrow> int" where
  "exact_inventory pos_order g = sum_list (map (exact_value g) pos_order)"

lemma sum_cash_exact:
  assumes "\<bar>sint acc\<bar> + sum_list (map (\<lambda>x. \<bar>sint x\<bar>) xs) \<le> 10 ^ 15"
  shows "\<exists>t. sum_cash b acc xs = Inr t \<and> sint t = sint acc + sum_list (map sint xs)"
  using assms
proof (induction xs arbitrary: acc)
  case (Cons x xs)
  have nonneg: "0 \<le> sum_list (map (\<lambda>x. \<bar>sint x\<bar>) xs)" by (intro sum_list_nonneg) auto
  then have "\<bar>sint acc + sint x\<bar> \<le> 10 ^ 15" using Cons.prems by simp
  then have fits: "fits_s acc (sint acc + sint x)" by (simp add: fits_s_def abs_le_iff)
  then have s: "sint (acc + x) = sint acc + sint x" by (rule sint_add_exact)
  have "\<exists>t. sum_cash b (acc + x) xs = Inr t \<and> sint t = sint (acc + x) + sum_list (map sint xs)"
    using Cons.prems s by (intro Cons.IH) simp
  then show ?case using fits s by (simp add: add_s_def add.assoc)
qed simp

section \<open>Rounding errors\<close>

lemma near_trans: "\<bar>v - x\<bar> \<le> d \<Longrightarrow> \<bar>x - y\<bar> \<le> d' \<Longrightarrow> \<bar>v - y\<bar> \<le> d + (d' :: real)"
  by linarith

lemma near_size: "\<bar>v - x\<bar> \<le> d \<Longrightarrow> \<bar>x\<bar> \<le> d' \<Longrightarrow> \<bar>v\<bar> \<le> d + (d' :: real)"
  by linarith

lemma ten_thousand: "is_fin ten_thousand" "fval ten_thousand = 10000"
  using of_nat_f64 [of 10000] by (simp_all add: ten_thousand_def)

lemma fits_f64: "\<bar>x\<bar> \<le> 2 ^ 60 \<Longrightarrow> \<bar>x :: real\<bar> \<le> p2 (ff_emax f64 - 1)"
  by (erule p2_large) (simp add: f64_def)

lemma f64_op:
  assumes "rounds f64 x v" "\<bar>x\<bar> \<le> 2 ^ k" "k \<le> 53"
  shows "is_fin v" "\<bar>fval v - x\<bar> \<le> 1 / 2 ^ (53 - k)"
  using assms by (auto intro: rounds_fin rounds_abs_error_f64)

lemma div_10000:
  assumes "is_fin a" "\<bar>fval a / 10000\<bar> \<le> 2 ^ k" "k \<le> 53"
  shows "is_fin (fl_div f64 a ten_thousand)"
    "\<bar>fval (fl_div f64 a ten_thousand) - fval a / 10000\<bar> \<le> 1 / 2 ^ (53 - k)"
proof -
  have "(2 :: real) ^ k \<le> 2 ^ 60" using assms(3) by (intro power_increasing) auto
  then have "rounds f64 (fval a / 10000) (fl_div f64 a ten_thousand)"
    using srounds_div [of f64 a ten_thousand] assms ten_thousand fits_f64 [of "fval a / 10000"] by simp
  then show "is_fin (fl_div f64 a ten_thousand)"
    "\<bar>fval (fl_div f64 a ten_thousand) - fval a / 10000\<bar> \<le> 1 / 2 ^ (53 - k)"
    using f64_op assms(2,3) by blast+
qed

text \<open>The value of one stock with at most 3500 shares.\<close>

lemma line_error:
  assumes "balance_line_of g loc = Some line" "\<bar>sint (replay_get_position g loc)\<bar> \<le> 3500"
  shows "is_fin (bl_pos_value line)"
    "\<bar>fval (bl_pos_value line) - real_of_int (exact_value g loc) / 10000\<bar> \<le> 1 / 2 ^ 20"
    "\<bar>real_of_int (exact_value g loc) / 10000\<bar> \<le> 2 ^ 31"
proof -
  obtain price where price: "rg_last_prices g loc = Some price"
    using assms(1) by (auto simp: balance_line_of_def split: option.splits)
  define n where "n = unat price"
  let ?p = "real n" and ?pos = "real_of_int (sint (replay_get_position g loc))"
  let ?a = "fl_of_nat f64 n" and ?q = "fl_of_int f64 (sint (replay_get_position g loc))"
  let ?m = "fl_div f64 ?a ten_thousand"
  have val: "bl_pos_value line = fl_mul f64 ?q ?m"
    using assms(1) price by (auto simp: balance_line_of_def replay_get_position_def Let_def n_def)
  have "uint price = int n" by (simp add: n_def)
  then have exact: "real_of_int (exact_value g loc) = ?pos * ?p" by (simp add: exact_value_def price)
  have pos: "\<bar>?pos\<bar> \<le> 3500" using assms(2) by linarith
  have n: "n < 2 ^ 32" unfolding n_def by (rule unat_u32_bound)
  then have p: "0 \<le> ?p" "?p \<le> 2 ^ 32" by simp_all
  have a: "is_fin ?a" "fval ?a = ?p" using of_nat_f64 [of n] n by simp_all
  have q: "is_fin ?q" "fval ?q = ?pos" using of_int_f64 [of "sint (replay_get_position g loc)"] assms(2) by simp_all
  have m: "is_fin ?m" "\<bar>fval ?m - ?p / 10000\<bar> \<le> 1 / 2 ^ 34"
    using div_10000 [of ?a 19] a p by simp_all
  have "\<bar>?pos * fval ?m - ?pos * ?p / 10000\<bar> = \<bar>?pos\<bar> * \<bar>fval ?m - ?p / 10000\<bar>"
    by (simp add: abs_mult [symmetric] algebra_simps)
  also have "\<dots> \<le> 3500 * (1 / 2 ^ 34)" using pos m(2) by (intro mult_mono) auto
  finally have prod: "\<bar>?pos * fval ?m - ?pos * ?p / 10000\<bar> \<le> 1 / 2 ^ 22" by simp
  have "\<bar>?pos * ?p\<bar> \<le> 3500 * 2 ^ 32" unfolding abs_mult using pos p by (intro mult_mono) auto
  then have small: "\<bar>?pos * ?p / 10000\<bar> \<le> 2 ^ 31" by simp
  have prod_small: "\<bar>?pos * fval ?m\<bar> \<le> 2 ^ 32" using near_size [OF prod small] by simp
  then have "rounds f64 (fval ?q * fval ?m) (fl_mul f64 ?q ?m)"
    using srounds_mul [of f64 ?q ?m] q m(1) fits_f64 [of "?pos * fval ?m"] by simp
  from f64_op [OF this, of 32] prod_small
  have v: "is_fin (bl_pos_value line)" "\<bar>fval (bl_pos_value line) - ?pos * fval ?m\<bar> \<le> 1 / 2 ^ 21"
    by (simp_all add: val q(2))
  show "is_fin (bl_pos_value line)" by (rule v(1))
  show "\<bar>fval (bl_pos_value line) - real_of_int (exact_value g loc) / 10000\<bar> \<le> 1 / 2 ^ 20"
    using near_trans [OF v(2) prod] unfolding exact by simp
  show "\<bar>real_of_int (exact_value g loc) / 10000\<bar> \<le> 2 ^ 31" using small by (simp add: exact)
qed

text \<open>The inventory of up to 64 stocks: every line adds at most \<open>2 ^ - 14\<close> to the error.\<close>

lemma inventory_error:
  fixes acc :: fl and exact :: real
  assumes "\<forall>loc\<in>set order. \<bar>sint (replay_get_position g loc)\<bar> \<le> 3500" "n + length order \<le> 64"
    and "is_fin acc" "\<bar>fval acc - exact\<bar> \<le> real n / 2 ^ 14" "\<bar>exact\<bar> \<le> real n * 2 ^ 31"
  defines "r \<equiv> fold (\<lambda>line acc. fl_add f64 acc (bl_pos_value line)) (List.map_filter (balance_line_of g) order) acc"
    and "exact' \<equiv> exact + real_of_int (exact_inventory order g) / 10000"
  shows "is_fin r \<and> \<bar>fval r - exact'\<bar> \<le> real (n + length order) / 2 ^ 14 \<and>
    \<bar>exact'\<bar> \<le> real (n + length order) * 2 ^ 31"
  using assms(1-5) unfolding r_def exact'_def
proof (induction order arbitrary: acc exact n)
  case Nil
  then show ?case by (simp add: exact_inventory_def map_filter_simps)
next
  case (Cons loc order)
  let ?x = "real_of_int (exact_value g loc) / 10000"
  have n: "real n \<le> 63" using Cons.prems(2) by simp
  show ?case
  proof (cases "balance_line_of g loc")
    case None
    then have "exact_value g loc = 0"
      by (auto simp: balance_line_of_def exact_value_def Let_def split: option.splits)
    moreover have "real n / 2 ^ 14 \<le> real (Suc n) / 2 ^ 14" "real n * 2 ^ 31 \<le> real (Suc n) * 2 ^ 31"
      by simp_all
    ultimately show ?thesis
      using Cons.IH [of "Suc n" acc exact] Cons.prems None by (simp add: map_filter_simps exact_inventory_def)
  next
    case (Some line)
    note line = line_error [OF Some]
    let ?v = "bl_pos_value line" and ?acc = "fl_add f64 acc (bl_pos_value line)"
    have pos: "\<bar>sint (replay_get_position g loc)\<bar> \<le> 3500" using Cons.prems(1) by simp
    have "\<bar>fval acc + fval ?v - (exact + ?x)\<bar> \<le> real n / 2 ^ 14 + 1 / 2 ^ 20"
      using Cons.prems(4) line(2) [OF pos] by linarith
    moreover have exact: "\<bar>exact + ?x\<bar> \<le> real (Suc n) * 2 ^ 31"
      using Cons.prems(5) line(3) [OF pos] by (simp add: algebra_simps)
    moreover have "real (Suc n) * 2 ^ 31 \<le> 64 * 2 ^ 31" "real n / 2 ^ 14 \<le> 1" using n by simp_all
    ultimately have near: "\<bar>fval acc + fval ?v - (exact + ?x)\<bar> \<le> real n / 2 ^ 14 + 1 / 2 ^ 20"
      and sum: "\<bar>fval acc + fval ?v\<bar> \<le> 2 ^ 38"
      using near_size [of "fval acc + fval ?v" "exact + ?x" 2 "64 * 2 ^ 31"] by simp_all
    have "rounds f64 (fval acc + fval ?v) ?acc"
      using srounds_add [of f64 acc ?v] Cons.prems(3) line(1) [OF pos] fits_f64 [of "fval acc + fval ?v"] sum by simp
    from f64_op [OF this sum] have acc: "is_fin ?acc" "\<bar>fval ?acc - (fval acc + fval ?v)\<bar> \<le> 1 / 2 ^ 15"
      by simp_all
    have "\<bar>fval ?acc - (exact + ?x)\<bar> \<le> real (Suc n) / 2 ^ 14"
      using near_trans [OF acc(2) near] by (simp add: field_simps)
    from Cons.IH [OF _ _ acc(1) this exact] Cons.prems(1,2) Some show ?thesis
      by (simp add: map_filter_simps exact_inventory_def add_divide_distrib add.assoc)
  qed
qed

text \<open>For a walk that meets every key of the map once, as the walk of a hash map does, the exact sums do not
  depend on the order.\<close>

lemma exact_sums_of_walks:
  assumes "distinct xs"
  shows "exact_cash xs g = (\<Sum>loc\<in>set xs. sint (replay_get_cash_balance g loc))"
    "exact_inventory xs g = (\<Sum>loc\<in>set xs. exact_value g loc)"
  using assms by (simp_all add: exact_cash_def exact_inventory_def sum_list_distinct_conv_sum_set)

text \<open>C24: The total equity the replay engine computes at its end, before it formats it, is right: for up to
  64 stocks with positions within 3500 shares and cash accounts of at most 100 billion dollars
  together, in either build and whatever lists of stocks the walks of the two maps are, it is within
  half a cent of the exact sum of the cash and of the positions at their last prices on these walks.\<close>

theorem final_pnl_within_half_a_cent:
  assumes "sum_list (map (\<lambda>loc. \<bar>sint (replay_get_cash_balance g loc)\<bar>) cash_order) \<le> 10 ^ 15"
    and "length pos_order \<le> 64" "\<forall>loc\<in>set pos_order. \<bar>sint (replay_get_position g loc)\<bar> \<le> 3500"
  shows "\<exists>fb. final_pnl b cash_order pos_order g = Inr fb \<and> is_fin (fb_total_equity fb) \<and>
    \<bar>fval (fb_total_equity fb) - real_of_int (exact_cash cash_order g + exact_inventory pos_order g) / 10000\<bar>
      \<le> 1 / 200"
proof -
  define c where "c = exact_cash cash_order g"
  have "sum_list (map (\<lambda>x. \<bar>sint x\<bar>) (map (entry_or_0 (rg_cash_balances g)) cash_order)) \<le> 10 ^ 15"
    using assms(1) by (simp add: comp_def replay_get_cash_balance_def)
  then have "\<bar>sint (0 :: i64)\<bar> + sum_list (map (\<lambda>x. \<bar>sint x\<bar>)
      (map (entry_or_0 (rg_cash_balances g)) cash_order)) \<le> 10 ^ 15" by simp
  from sum_cash_exact [OF this, of b] obtain t where t: "sum_cash b 0 (map (entry_or_0 (rg_cash_balances g)) cash_order) = Inr t" "sint t = c"
    by (auto simp: c_def exact_cash_def replay_get_cash_balance_def comp_def)
  have "\<bar>c\<bar> \<le> sum_list (map (\<lambda>loc. \<bar>sint (replay_get_cash_balance g loc)\<bar>) cash_order)"
    unfolding c_def exact_cash_def by (induction cash_order) auto
  then have c: "\<bar>c\<bar> \<le> 10 ^ 15" using assms(1) by simp
  then have "real_of_int \<bar>c\<bar> \<le> real_of_int (10 ^ 15)" by (simp only: of_int_le_iff)
  then have c_real: "\<bar>real_of_int c\<bar> \<le> 10 ^ 15" by simp
  let ?cash = "fl_div f64 (fl_of_int f64 c) ten_thousand"
  have cash: "is_fin ?cash" "\<bar>fval ?cash - real_of_int c / 10000\<bar> \<le> 1 / 2 ^ 16"
    using div_10000 [of "fl_of_int f64 c" 37] of_int_f64 [of c] c c_real by simp_all
  define inv where "inv = fold (\<lambda>line acc. fl_add f64 acc (bl_pos_value line))
    (List.map_filter (balance_line_of g) pos_order) (Fin 0 0)"
  define x where "x = real_of_int (exact_inventory pos_order g) / 10000"
  have inv: "is_fin inv" "\<bar>fval inv - x\<bar> \<le> real (length pos_order) / 2 ^ 14" "\<bar>x\<bar> \<le> real (length pos_order) * 2 ^ 31"
    using inventory_error [of pos_order g 0 "Fin 0 0" 0] assms(2,3) by (simp_all add: inv_def x_def)
  have len: "real (length pos_order) \<le> 64" using assms(2) by simp
  then have "real (length pos_order) / 2 ^ 14 \<le> 64 / 2 ^ 14" "real (length pos_order) * 2 ^ 31 \<le> 64 * 2 ^ 31"
    by simp_all
  then have inv': "\<bar>fval inv - x\<bar> \<le> 64 / 2 ^ 14" "\<bar>x\<bar> \<le> 64 * 2 ^ 31" using inv(2,3) by linarith+
  have near: "\<bar>fval ?cash + fval inv - (real_of_int c / 10000 + x)\<bar> \<le> 1 / 2 ^ 16 + 64 / 2 ^ 14"
    using cash(2) inv'(1) by linarith
  have sum: "\<bar>fval ?cash + fval inv\<bar> \<le> 2 ^ 39"
    using near_size [OF near, of "2 ^ 38"] near_size [of "real_of_int c / 10000 + x" x "2 ^ 37" "64 * 2 ^ 31"]
      inv'(2) c_real by simp
  have "rounds f64 (fval ?cash + fval inv) (fl_add f64 ?cash inv)"
    using srounds_add [of f64 ?cash inv] cash(1) inv(1) fits_f64 [of "fval ?cash + fval inv"] sum by simp
  from f64_op [OF this sum] have "is_fin (fl_add f64 ?cash inv)"
    "\<bar>fval (fl_add f64 ?cash inv) - (real_of_int c / 10000 + x)\<bar> \<le> 1 / 200"
    using near_trans [OF _ near] by fastforce+
  then show ?thesis
    by (simp add: final_pnl_def t Let_def inv_def x_def c_def add_divide_distrib)
qed

section \<open>The replay engine as a whole\<close>

text \<open>\<open>main\<close>; \<open>cash_walk\<close> and \<open>pos_walk\<close> are the orders in which the hash maps of the gateway are walked.
  The recording is assumed to open; the CPUs do not matter, beyond being known.\<close>

definition replay_market :: "build \<Rightarrow> telemetry_writer \<Rightarrow> u64 \<Rightarrow> (simple_mid_point, telemetry_writer) market_state res" where
  "replay_market b writer now_secs =
     new_market b [rstr ''AAPL'', rstr ''MSFT''] (new_mid_point threshold_08) writer now_secs"

definition replay_main ::
    "build \<Rightarrow> 'core list option \<Rightarrow> byte list \<Rightarrow> byte list option \<Rightarrow> u64 \<Rightarrow> (telemetry_writer \<Rightarrow> u64)
     \<Rightarrow> (replay_gateway \<Rightarrow> u16 list) \<Rightarrow> (replay_gateway \<Rightarrow> u16 list)
     \<Rightarrow> ((simple_mid_point, telemetry_writer) market_state \<times> replay_gateway \<times> final_balance) res option" where
  "replay_main b core_ids data telemetry_file now_secs clock cash_walk pos_walk =
     (case core_ids of
        None \<Rightarrow> Some (Inl Unwrap_None)
      | Some _ \<Rightarrow>
          (case r_bind (new_telemetry_writer telemetry_file) (\<lambda>writer. replay_market b writer now_secs) of
             Inl e \<Rightarrow> Some (Inl e)
           | Inr market \<Rightarrow>
               (case replay_loop b (mid_point_ops b) (replay_ops b) (telemetry_writer_ops b clock) data 0
                       market new_replay_gateway of
                  None \<Rightarrow> None
                | Some (Inl e) \<Rightarrow> Some (Inl e)
                | Some (Inr (market', gateway)) \<Rightarrow>
                    Some (r_bind (final_pnl b (cash_walk gateway) (pos_walk gateway) gateway)
                      (\<lambda>fb. Inr (market', gateway, fb))))))"

lemma replay_main_ends:
  "\<exists>result. replay_main b core_ids data telemetry_file now_secs clock cash_walk pos_walk = Some result"
proof (cases "r_bind (new_telemetry_writer telemetry_file) (\<lambda>writer. replay_market b writer now_secs)")
  case (Inl e)
  then show ?thesis by (simp add: replay_main_def split: option.split)
next
  case (Inr m0)
  obtain result where "replay_loop b (mid_point_ops b) (replay_ops b) (telemetry_writer_ops b clock) data 0 m0
      new_replay_gateway = Some result"
    using replay_loop_ends by blast
  then show ?thesis by (auto simp: replay_main_def Inr split: option.split sum.split)
qed

lemma replay_main_InrE:
  assumes "replay_main b core_ids data telemetry_file now_secs clock cash_walk pos_walk = Some (Inr (m, g, fb))"
  obtains writer m0 where "new_telemetry_writer telemetry_file = Inr writer" "replay_market b writer now_secs = Inr m0"
    "replay_loop b (mid_point_ops b) (replay_ops b) (telemetry_writer_ops b clock) data 0 m0 new_replay_gateway =
      Some (Inr (m, g))"
    "final_pnl b (cash_walk g) (pos_walk g) g = Inr fb"
  using assms
  by (auto simp: replay_main_def split: option.splits sum.splits prod.splits)

text \<open>The balance as a function of the account.\<close>

lemma sum_cash_InrD: "sum_cash b acc xs = Inr t \<Longrightarrow> t = acc + sum_list xs"
  by (induction xs arbitrary: acc) (auto dest!: add_s_InrD, metis add.assoc)

lemma sum_list_words: "(\<Sum>x\<leftarrow>xs. word_of_int (f x)) = (word_of_int (\<Sum>x\<leftarrow>xs. f x) :: 'a :: len word)"
  by (induction xs) simp_all

lemma final_pnl_account:
  assumes "final_pnl b cash_order pos_order g = Inr fb" "account_of sends g"
  shows "fb_cash_dollars fb =
      fl_div f64 (fl_of_int f64 (sint (word_of_int (\<Sum>loc\<leftarrow>cash_order. cash_flow loc sends) :: i64))) ten_thousand"
    "map (\<lambda>line. (bl_locate line, bl_pos line)) (fb_lines fb) =
      map (\<lambda>loc. (loc, word_of_int (share_flow loc sends))) (filter (\<lambda>loc. last_price loc sends \<noteq> None) pos_order)"
proof -
  obtain t where t: "sum_cash b 0 (map (entry_or_0 (rg_cash_balances g)) cash_order) = Inr t"
    and fb: "fb_cash_dollars fb = fl_div f64 (fl_of_int f64 (sint t)) ten_thousand"
      "fb_lines fb = List.map_filter (balance_line_of g) pos_order"
    using assms(1) by (auto simp: final_pnl_def Let_def)
  have "entry_or_0 (rg_cash_balances g) = (\<lambda>loc. word_of_int (cash_flow loc sends))"
    using assms(2) by (auto simp: account_of_def replay_get_cash_balance_def)
  then have "t = word_of_int (\<Sum>loc\<leftarrow>cash_order. cash_flow loc sends)"
    using sum_cash_InrD [OF t] by (simp add: sum_list_words)
  then show "fb_cash_dollars fb = fl_div f64 (fl_of_int f64
      (sint (word_of_int (\<Sum>loc\<leftarrow>cash_order. cash_flow loc sends) :: i64))) ten_thousand"
    by (simp add: fb)
  have "entry_or_0 (rg_positions g) loc = word_of_int (share_flow loc sends)"
    "rg_last_prices g loc = last_price loc sends" for loc
    using assms(2) by (simp_all add: account_of_def replay_get_position_def)
  then show "map (\<lambda>line. (bl_locate line, bl_pos line)) (fb_lines fb) =
      map (\<lambda>loc. (loc, word_of_int (share_flow loc sends))) (filter (\<lambda>loc. last_price loc sends \<noteq> None) pos_order)"
    unfolding fb
    by (induction pos_order) (auto simp: map_filter_simps balance_line_of_def Let_def split: option.splits)
qed

text \<open>C3: The replay engine as a whole, on any recording and in either build. If it ends without a panic,
  the run of its market handler with the gateway that logs the orders it is handed is the same run,
  and the log tells everything: its orders carry the ids 0, 1, 2, ...; their signed quantities sum to
  the committed positions, and no symbol is beyond 3500 shares long or short; per stock, the shares,
  the cash (each order at its own price) and the last price of the gateway are those of the logged
  orders; and the final balance is computed from this account: the cash of the stocks walked, and a
  line for every stock walked that was traded, with the shares of the log.\<close>

theorem replay_session:
  assumes "replay_main b core_ids data telemetry_file now_secs clock cash_walk pos_walk = Some (Inr (m, g, fb))"
  shows "\<exists>writer m0 sends.
    new_telemetry_writer telemetry_file = Inr writer \<and> replay_market b writer now_secs = Inr m0 \<and>
    replay_loop b (mid_point_ops b) (logged (replay_ops b)) (telemetry_writer_ops b clock) data 0 m0
      (new_replay_gateway, []) = Some (Inr (m, (g, sends))) \<and>
    map oc_order_id sends = map word_of_nat [0..<length sends] \<and>
    sum_list (map signed_qty sends) = total_position m \<and>
    (\<forall>p\<in>set (ms_processors m). \<bar>processor_position p\<bar> \<le> 3500) \<and>
    (\<forall>loc. replay_get_position g loc = word_of_int (share_flow loc sends) \<and>
      replay_get_cash_balance g loc = word_of_int (cash_flow loc sends) \<and>
      rg_last_prices g loc = last_price loc sends) \<and>
    final_pnl b (cash_walk g) (pos_walk g) g = Inr fb \<and>
    fb_cash_dollars fb =
      fl_div f64 (fl_of_int f64 (sint (word_of_int (\<Sum>loc\<leftarrow>cash_walk g. cash_flow loc sends) :: i64))) ten_thousand \<and>
    map (\<lambda>line. (bl_locate line, bl_pos line)) (fb_lines fb) =
      map (\<lambda>loc. (loc, word_of_int (share_flow loc sends)))
        (filter (\<lambda>loc. last_price loc sends \<noteq> None) (pos_walk g))"
proof -
  let ?st = "mid_point_ops b" and ?wr = "telemetry_writer_ops b clock"
  obtain writer m0 where new: "new_telemetry_writer telemetry_file = Inr writer" "replay_market b writer now_secs = Inr m0"
    and run: "replay_loop b ?st (replay_ops b) ?wr data 0 m0 new_replay_gateway = Some (Inr (m, g))"
    and pnl: "final_pnl b (cash_walk g) (pos_walk g) g = Inr fb"
    using assms by (rule replay_main_InrE)
  obtain sends where logged_run: "replay_loop b ?st (logged (replay_ops b)) ?wr data 0 m0 (new_replay_gateway, []) =
      Some (Inr (m, (g, sends)))"
    using logged_replay_loop [OF run] by blast
  then have steps:
    "(market_step b ?st (logged (replay_ops b)) ?wr)\<^sup>*\<^sup>* (m0, (new_replay_gateway, [])) (m, (g, sends))"
    using run_packets_steps by (simp add: replay_loop_frames)
  have inv: "session_inv [rstr ''AAPL'', rstr ''MSFT''] (m, g, sends)"
    using new(2) [unfolded replay_market_def] steps by (rule session_inv_steps)
  have account: "account_of sends g"
    using step_invariant [OF steps, of "\<lambda>x. account_of (snd (snd x)) (fst (snd x))", OF _ account_step]
    by (simp add: account_of_new)
  show ?thesis
    using new logged_run inv session_inv_position [OF inv] account pnl final_pnl_account [OF pnl account]
    by (intro exI [of _ writer] exI [of _ m0] exI [of _ sends] conjI) (auto simp: session_inv_def account_of_def)
qed

end
