(* ===== verification/Demo_Live.thy ===== *)
theory Demo_Live
  imports Demo_Session Live_Engine Final_Balance
begin

text \<open>
  The live engine and the replay engine, from \<open>main\<close> on, evaluated on the session of \<open>Demo_Session\<close>, with
  AAPL and MSFT as their symbols. The live engine starts on an empty outbound file and a fresh inbound
  memory and sends one order over the outbound ring; the replay engine writes one record into the
  telemetry ring. The properties of the two programs and of the telemetry path are instantiated.
\<close>

definition fresh_memory :: "byte list" where
  "fresh_memory = to_le_bytes magic_num @ replicate 56 0"

lemma fresh_memory_attaches:
  "create_consumer shm_bytes (Some fresh_memory) = Inr (Inr \<lparr>sr_mmap = fresh_memory, sr_capacity = 2 ^ 20\<rparr>)"
  using power_of_two_accepted [of 26]
  by (simp add: create_consumer_def shm_bytes_def slot_size_def fresh_memory_def header_magic_def window_def
      from_to_le_bytes)

lemma fresh_memory_head: "header_head fresh_memory = 0"
proof -
  have "window fresh_memory 8 8 = to_le_bytes (0 :: u64)"
    by (simp add: fresh_memory_def window_def to_le_bytes_def) (simp add: numeral_eq_Suc)
  then show ?thesis by (simp add: header_head_def from_to_le_bytes)
qed

definition demo_fill :: execution_report where
  "demo_fill = fake_fill demo_order"

text \<open>The exchange of the session: its memory is fresh up to call 5 of the gateway, and holds the fill of
  the order sent at call 3 from then on.\<close>

definition filled_memory :: "byte list \<Rightarrow> bool" where
  "filled_memory mem \<longleftrightarrow> (\<exists>ring. ring_holds 20 [(execution_report_bytes demo_fill, 7)] ring \<and> mem = sr_mmap ring)"

definition demo_exchange :: "byte list \<Rightarrow> nat \<Rightarrow> observation" where
  "demo_exchange mem k = (if k < 5 then (fresh_memory, fresh_memory, fresh_memory) else (mem, mem, mem))"

abbreviation "live_demo_ops mem \<equiv> live_ops Debug (\<lambda>_. 7) (demo_exchange mem)"

lemma empty_poll:
  assumes "lg_next_seq g = 0" "k < 5"
  shows "poll_confirmed_orders st (live_demo_ops mem) m (g, k) = Some (Inr (m, (g, Suc k)))"
proof -
  have "live_poll Debug (fresh_memory, fresh_memory, fresh_memory) g = Inr (g, None)"
    using assms(1) by (simp add: live_poll_def ring_read_observing_def fresh_memory_head Let_def)
  then show ?thesis
    using assms(2) by (subst poll_confirmed_orders.simps) (simp add: live_ops_def demo_exchange_def)
qed

lemma filled_poll:
  assumes "lg_next_seq g = 0" "sr_capacity (lg_inbound_shm g) = 2 ^ 20" "filled_memory mem" "5 \<le> k"
    and "confirm_order st m demo_fill = Inr m'"
  shows "poll_confirmed_orders st (live_demo_ops mem) m (g, k) =
    Some (Inr (m', (g\<lparr>lg_next_seq := 1\<rparr>, Suc (Suc k))))"
proof -
  obtain ring where ring: "ring_holds 20 [(execution_report_bytes demo_fill, 7)] ring" "mem = sr_mmap ring"
    using assms(3) by (auto simp: filled_memory_def)
  have cap: "sr_capacity (lg_inbound_shm g) = sr_capacity ring"
    using ring(1) assms(2) by (simp add: ring_holds_def ring_shape_def)
  have "live_poll Debug (mem, mem, mem) g = Inr (g\<lparr>lg_next_seq := 1\<rparr>, Some demo_fill)"
    using live_poll_report [OF ring(1) _ _ _ _ ring(2) cap, of 0 demo_fill Debug] assms(1) by simp
  moreover have "live_poll Debug (mem, mem, mem) (g\<lparr>lg_next_seq := 1\<rparr>) = Inr (g\<lparr>lg_next_seq := 1\<rparr>, None)"
    using ring by (simp add: live_poll_def ring_read_observing_def ring_holds_def Let_def)
  ultimately show ?thesis
    using assms(4,5)
    by (subst poll_confirmed_orders.simps, subst poll_confirmed_orders.simps)
      (simp add: live_ops_def demo_exchange_def)
qed

section \<open>The session with two symbols\<close>

definition duo_state ::
    "'w \<Rightarrow> simple_mid_point symbol_processor \<Rightarrow> u64 \<Rightarrow> u64 \<Rightarrow> (simple_mid_point, 'w) market_state" where
  "duo_state w p n now =
     \<lparr>ms_processors = [p, new_processor (new_mid_point threshold_08) (rstr ''MSFT'')],
      ms_lookup_table = (\<lambda>_. - 1)(7 := 0), ms_global_order_id_counter = n,
      ms_telemetry_writer = w, ms_current_time_ns = now, ms_midnight_today_ns = 86400000000000\<rparr>"

lemma rstr_aapl: "rstr ''AAPL'' = aapl"
  by (simp add: rstr_def code_of_def aapl_def)

definition duo_market0 :: "'w \<Rightarrow> (simple_mid_point, 'w) market_state" where
  "duo_market0 w = (duo_state w (new_processor (new_mid_point threshold_08) aapl) 0 0)
     \<lparr>ms_lookup_table := \<lambda>_. - 1\<rparr>"

lemma duo_market_new:
  "new_market Debug [rstr ''AAPL'', rstr ''MSFT''] (new_mid_point threshold_08) w 86400 = Inr (duo_market0 w)"
  by (simp add: duo_market0_def duo_state_def new_market_def sub_u_def mul_u_def Let_def rstr_aapl)

abbreviation "duo_packet \<equiv> handle_raw_packet Debug (mid_point_ops Debug)"
abbreviation "quiet_processor bk \<equiv> demo_processor bk (new_mid_point threshold_08) demo_risk 0"
abbreviation "sent_processor \<equiv> demo_processor'\<lparr>sp_last_midpoint := 101\<rparr>"

text \<open>The first two packets are quiet, with any gateway that has nothing to confirm.\<close>

lemma duo_R:
  fixes w :: 'w
  assumes "\<And>m :: (simple_mid_point, 'w) market_state.
      poll_confirmed_orders (mid_point_ops Debug) gw m g = Some (Inr (m, g'))"
  shows "duo_packet gw wr (duo_market0 w) packet_R g =
    Some (Inr (duo_state w (quiet_processor new_book) 0 86400000000009, g'))"
  using assms
  by (simp add: handle_raw_packet_def handle_message_def parse_demo time_demo duo_market0_def duo_state_def Let_def
     filter_message_for_symbols_def handle_stock_directory_def new_processor_def clean_symbol_def aapl_def
     trim_matches_def trim_def trim_by_def is_whitespace_def demo_processor_def)

lemma duo_bid:
  fixes w :: 'w
  assumes "\<And>m :: (simple_mid_point, 'w) market_state.
      poll_confirmed_orders (mid_point_ops Debug) gw m g = Some (Inr (m, g'))"
  shows "duo_packet gw wr (duo_state w (quiet_processor new_book) 0 t) packet_bid g =
    Some (Inr (duo_state w (quiet_processor bid_book) 0 86400000000256, g'))"
  using assms
  by (simp add: handle_raw_packet_def handle_message_def parse_demo time_demo duo_state_def demo_processor_def Let_def
     filter_message_for_symbols_def dispatch_event_def slot_0 handle_event_def bid_added run_strategy_def mid_point_ops_def
     demo_quotes on_book_update_def send_telemetry_def midpoint_def quote_price_def)



text \<open>The third one sends the order.\<close>

lemma duo_ask:
  assumes "gw_send_order gw g demo_order = Inr g1"
    and "send_telemetry Debug gw wr demo_processor' w g1 86400000000512 = Inr (sent_processor, w')"
    and "poll_confirmed_orders (mid_point_ops Debug) gw (duo_state w' sent_processor 1 86400000000512) g1 =
      Some (Inr (m', g'))"
  shows "duo_packet gw wr (duo_state w (quiet_processor bid_book) 0 t) packet_ask g = Some (Inr (m', g'))"
proof -
  have "handle_event Debug (mid_point_ops Debug) gw wr (quiet_processor bid_book)
      (AddOrder 7 2 Sell 10 102) w g 0 86400000000512 = Inr (sent_processor, w', g1, 1)"
    using demo_run_strategy_with [of gw, OF assms(1)] assms(2)
    by (simp add: handle_event_def ask_added demo_processor_def)
  then show ?thesis
    using assms(3)
    by (simp add: handle_raw_packet_def handle_message_def parse_demo time_demo duo_state_def Let_def
        filter_message_for_symbols_def dispatch_event_def slot_0)
qed

abbreviation "filled_processor \<equiv>
  demo_processor ask_book (demo_strategy\<lparr>sm_trade_count := 1, sm_position := 100\<rparr>)
    (demo_risk\<lparr>lr_current_position := 100\<rparr>) 101"

lemma duo_confirm:
  "confirm_order (mid_point_ops Debug) (duo_state w sent_processor 1 now) (fake_fill demo_order) =
   Inr (duo_state w filled_processor 1 now)"
  by (simp add: confirm_order_def duo_state_def demo_processor'_def demo_processor_def fake_fill_def demo_order_def Let_def
    slot_0 mid_point_ops_def on_trade_def add_u_def add_s_def fits_s_def demo_strategy_def)

text \<open>A ring with one message.\<close>

lemma one_message_ring:
  assumes "length data \<le> 54" "0 < j" "j \<le> 50"
  shows "\<exists>ring. ring_holds j [(data, 7)] ring"
proof -
  obtain ring where "create_producer (2 ^ (j + 6)) (Some []) = Inr (Inr ring)"
    using create_producer_shape [of j "[]"] assms(3) by auto
  moreover have "0 + 1 < (2 :: nat) ^ j" using assms(2) one_less_power [of "2 :: nat" j] by simp
  ultimately show ?thesis
    using ring_write_holds [OF ring_holds_new, of j "[]" ring data Debug 7] assms by auto
qed

section \<open>The live engine\<close>

lemma live_telemetry:
  "send_telemetry Debug (live_demo_ops mem) dummy_writer demo_processor' () g now = Inr (sent_processor, ())"
  by (simp add: send_telemetry_def demo_processor'_def demo_processor_def midpoint_def demo_quotes quote_price_def
     add_u_def live_ops_def mul_s_def add_s_def fits_s_def Let_def dummy_writer_def)

text \<open>The poll after the order is sent finds nothing; the next time the socket has nothing to read, the
  fill is there.\<close>

abbreviation "live_demo_events \<equiv>
  [Datagram packet_R, Would_Block, Datagram packet_bid, Socket_Error, Datagram packet_ask, Would_Block]"

lemma live_demo_session:
  assumes "filled_memory mem"
  shows "\<exists>m g. live_main Debug (Some [(), (), ()]) (Some []) (Some fresh_memory) 86400 (\<lambda>_. 7) (demo_exchange mem)
      live_demo_events = Some (Inr (m, (g, 7))) \<and> total_position m = 100 \<and> lg_next_seq g = 1 \<and>
      sm_position (sp_strategy (ms_processors m ! 0)) = 100"
proof -
  obtain ring where ring: "create_producer (2 ^ (20 + 6)) (Some []) = Inr (Inr ring)"
    using create_producer_shape [of 20 "[]"] by auto
  define g where "g = \<lparr>lg_outbound_shm = ring, lg_inbound_shm =
    \<lparr>sr_mmap = fresh_memory, sr_capacity = 2 ^ 20\<rparr>, lg_next_seq = 0\<rparr>"
  have "expect_ok (create_producer shm_bytes (Some [])) = Inr ring"
    "expect_ok (create_consumer shm_bytes (Some fresh_memory)) =
      Inr \<lparr>sr_mmap = fresh_memory, sr_capacity = 2 ^ 20\<rparr>"
    using ring fresh_memory_attaches by (simp_all only: expect_ok_Inr shm_bytes_power)
  then have new: "new_shm_gateway (Some []) (Some fresh_memory) = Inr g"
    by (simp add: new_shm_gateway_def g_def)
  obtain ring' where "ring_write Debug ring (order_command_as_bytes demo_order) 7 = Inr ring'"
    using ring_write_holds [OF ring_holds_new [OF _ ring], of "order_command_as_bytes demo_order" Debug 7] by auto
  then have sent: "live_send_order Debug 7 g demo_order = Inr (g\<lparr>lg_outbound_shm := ring'\<rparr>)"
    by (simp add: live_send_order_def g_def)
  let ?g = "g\<lparr>lg_outbound_shm := ring'\<rparr>" and ?m = "duo_state () filled_processor 1 86400000000512"
  have send: "gw_send_order (live_demo_ops mem) (g, 3) demo_order = Inr (?g, 4)"
    using sent by (simp add: live_ops_def)
  have seq: "lg_next_seq g = 0" "lg_next_seq ?g = 0" "sr_capacity (lg_inbound_shm ?g) = 2 ^ 20"
    by (simp_all add: g_def)
  have sizes: "length packet_R \<le> 1024" "length packet_bid \<le> 1024" "length packet_ask \<le> 1024"
    by (simp_all add: packet_R_def packet_bid_def packet_ask_def)
  have empty: "poll_confirmed_orders st (live_demo_ops mem) m (g, 0) = Some (Inr (m, (g, 1)))"
    "poll_confirmed_orders st (live_demo_ops mem) m (g, 1) = Some (Inr (m, (g, 2)))"
    "poll_confirmed_orders st (live_demo_ops mem) m (g, 2) = Some (Inr (m, (g, 3)))"
    "poll_confirmed_orders st (live_demo_ops mem) m (?g, 4) = Some (Inr (m, (?g, 5)))"
    for st and m :: "(simple_mid_point, unit) market_state"
    using empty_poll [OF seq(1), of 0] empty_poll [OF seq(1), of 1] empty_poll [OF seq(1), of 2]
      empty_poll [OF seq(2), of 4] by (simp_all add: eval_nat_numeral)
  have fill: "poll_confirmed_orders (mid_point_ops Debug) (live_demo_ops mem)
      (duo_state () sent_processor 1 86400000000512) (?g, 5) = Some (Inr (?m, (?g\<lparr>lg_next_seq := 1\<rparr>, 7)))"
    using filled_poll [OF seq(2,3) assms _ duo_confirm [folded demo_fill_def], of 5] by simp
  have "live_main Debug (Some [(), (), ()]) (Some []) (Some fresh_memory) 86400 (\<lambda>_. 7) (demo_exchange mem)
      live_demo_events = Some (Inr (?m, (?g\<lparr>lg_next_seq := 1\<rparr>, 7)))"
    by (simp add: live_main_def new live_market_def duo_market_new live_round_def sizes empty empty(2) [unfolded One_nat_def]
        duo_R [OF empty(1)] duo_bid [OF empty(3)] duo_ask [OF send live_telemetry empty(4)] fill index_def)
  moreover have "total_position ?m = 100" "sm_position (sp_strategy (ms_processors ?m ! 0)) = 100"
    by (simp_all add: total_position_def processor_position_def duo_state_def demo_processor_def
        new_processor_def new_risk_def)
  ultimately show ?thesis by (intro exI conjI) auto
qed

lemma filled_memory_exists: "\<exists>mem. filled_memory mem"
proof -
  obtain ring where "ring_holds 20 [(execution_report_bytes demo_fill, 7)] ring"
    using one_message_ring [of "execution_report_bytes demo_fill" 20] by auto
  then show ?thesis by (auto simp: filled_memory_def)
qed

theorem live_engine_session_witness:
  "\<exists>mem m g sends s. live_main Debug (Some [(), (), ()]) (Some []) (Some fresh_memory) 86400 (\<lambda>_. 7)
      (demo_exchange mem) live_demo_events = Some (Inr (m, (g, 7))) \<and> lg_next_seq g = 1 \<and>
    sum_list (map signed_qty sends) = 100 \<and>
    ring_read Debug (lg_outbound_shm g) 0 = Inr (Success s) \<and>
    cpp_order_command_of_bytes (take 19 (sl_data s)) = cpp_view (sends ! 0) \<and>
    ring_read Debug (lg_outbound_shm g) (word_of_nat (length sends)) = Inr Empty"
proof -
  obtain mem where mem: "filled_memory mem" using filled_memory_exists by blast
  obtain m g where run: "live_main Debug (Some [(), (), ()]) (Some []) (Some fresh_memory) 86400 (\<lambda>_. 7)
      (demo_exchange mem) live_demo_events = Some (Inr (m, (g, 7)))" and pos: "total_position m = 100"
    and seq: "lg_next_seq g = 1"
    using live_demo_session [OF mem] by blast
  obtain sends where sends: "sum_list (map signed_qty sends) = total_position m"
    and read: "\<forall>i<length sends. \<exists>s. ring_read Debug (lg_outbound_shm g) (word_of_nat i) = Inr (Success s) \<and>
      cpp_order_command_of_bytes (take 19 (sl_data s)) = cpp_view (sends ! i)"
    and last: "ring_read Debug (lg_outbound_shm g) (word_of_nat (length sends)) = Inr Empty"
    using live_engine_session [OF run] by blast
  have "sends \<noteq> []" using sends pos by auto
  then have "0 < length sends" by simp
  with read have "\<exists>s. ring_read Debug (lg_outbound_shm g) (word_of_nat 0) = Inr (Success s) \<and>
    cpp_order_command_of_bytes (take 19 (sl_data s)) = cpp_view (sends ! 0)" by blast
  then obtain s where "ring_read Debug (lg_outbound_shm g) 0 = Inr (Success s)"
    "cpp_order_command_of_bytes (take 19 (sl_data s)) = cpp_view (sends ! 0)" by auto
  moreover have "sum_list (map signed_qty sends) = 100" using sends pos by simp
  ultimately show ?thesis using run seq last by blast
qed

theorem short_datagram_panics_witness:
  "live_round Debug (mid_point_ops Debug) (replay_ops Debug) list_writer demo_market new_replay_gateway
     (Datagram [90]) = Some (Inl Index_Out_Of_Bounds)"
  by (rule short_datagram_panics) simp

section \<open>The replay engine\<close>

lemma replay_poll_none:
  "rg_pending_fills g = [] \<Longrightarrow> poll_confirmed_orders st (replay_ops b) m g = Some (Inr (m, g))"
  by (subst poll_confirmed_orders.simps) (simp add: replay_ops_def replay_poll_def)

lemma replay_poll_one:
  assumes "confirm_order st m r = Inr m'"
  shows "poll_confirmed_orders st (replay_ops b) m (g\<lparr>rg_pending_fills := [r]\<rparr>) =
    Some (Inr (m', g\<lparr>rg_pending_fills := []\<rparr>))"
proof -
  have "gw_poll_confirmed_orders (replay_ops b) (g\<lparr>rg_pending_fills := [r]\<rparr>) =
      Inr (g\<lparr>rg_pending_fills := []\<rparr>, Some r)"
    by (simp add: replay_ops_def replay_poll_def)
  then show ?thesis by (subst poll_confirmed_orders.simps) (simp add: assms replay_poll_none)
qed

lemma replay_telemetry:
  assumes "new_telemetry_writer (Some []) = Inr w"
  shows "\<exists>w'. send_telemetry Debug (replay_ops Debug) (telemetry_writer_ops Debug (\<lambda>_. 7)) demo_processor' w
    (demo_gateway\<lparr>rg_pending_fills := [fake_fill demo_order]\<rparr>) now = Inr (sent_processor, w')"
proof -
  have "send_telemetry Debug (replay_ops Debug) list_writer demo_processor' []
      (demo_gateway\<lparr>rg_pending_fills := [fake_fill demo_order]\<rparr>) now = Inr (sent_processor, [telemetry_bytes
     \<lparr>tp_timestamp_ns = now, tp_realised_pnl = - 100, tp_midpoint_px = 101, tp_position = 100,
      tp_latency_ns = 30, tp_locate_id = 7\<rparr>])"
    using demo_telemetry [of "[]" now] by (simp add: logged_telemetry)
  from telemetry.send_telemetry_sim(2) [OF this _ new_telemetry_writer_empty [OF assms], of Debug "\<lambda>_. 7"]
  show ?thesis by auto
qed

lemma replay_main_demo:
  "\<exists>w fb. replay_main Debug (Some [()]) (concat (map frame demo_packets)) (Some []) 86400 (\<lambda>_. 7) (\<lambda>_. [7]) (\<lambda>_. [7]) =
    Some (Inr (duo_state w filled_processor 1 86400000000512, demo_gateway, fb))"
proof -
  obtain ring where "create_producer shm_bytes (Some []) = Inr (Inr ring)"
    using create_producer_shape [of 20 "[]"] by (auto simp: shm_bytes_power)
  then have new: "new_telemetry_writer (Some []) = Inr \<lparr>tw_outbound = ring\<rparr>"
    using expect_ok_Inr [of "create_producer shm_bytes (Some [])" ring] by (simp add: new_telemetry_writer_def)
  let ?w = "\<lparr>tw_outbound = ring\<rparr>" and ?wr = "telemetry_writer_ops Debug (\<lambda>_. 7)"
  obtain w' where tel: "send_telemetry Debug (replay_ops Debug) ?wr demo_processor' ?w
    (demo_gateway\<lparr>rg_pending_fills := [fake_fill demo_order]\<rparr>) 86400000000512 = Inr (sent_processor, w')"
    using replay_telemetry [OF new] by blast
  have send: "gw_send_order (replay_ops Debug) new_replay_gateway demo_order =
      Inr (demo_gateway\<lparr>rg_pending_fills := [fake_fill demo_order]\<rparr>)"
    by (simp add: replay_ops_def demo_send)
  have idle: "rg_pending_fills new_replay_gateway = []" by (simp add: new_replay_gateway_def)
  have "run_packets Debug (mid_point_ops Debug) (replay_ops Debug) ?wr (duo_market0 ?w) new_replay_gateway demo_packets =
    Some (Inr (duo_state w' filled_processor 1 86400000000512, demo_gateway))"
    by (simp add: demo_packets_def duo_R [OF replay_poll_none [OF idle]] duo_bid [OF replay_poll_none [OF idle]]
        duo_ask [OF send tel replay_poll_one [OF duo_confirm]] demo_gateway_idle)
  then have loop: "replay_loop Debug (mid_point_ops Debug) (replay_ops Debug) ?wr (concat (map frame demo_packets)) 0
      (duo_market0 ?w) new_replay_gateway = Some (Inr (duo_state w' filled_processor 1 86400000000512, demo_gateway))"
    using frames_after [OF demo_packets_sizes, of "[]"] by (simp add: replay_loop_frames)
  have "\<exists>fb. final_pnl Debug [7] [7] demo_gateway = Inr fb"
    by (simp add: final_pnl_def demo_gateway_def entry_or_0_def add_s_def fits_s_def Let_def)
  then show ?thesis
    using loop by (auto simp: replay_main_def new replay_market_def duo_market_new)
qed

theorem replay_session_witness:
  "\<exists>m g fb sends. replay_main Debug (Some [()]) (concat (map frame demo_packets)) (Some []) 86400 (\<lambda>_. 7) (\<lambda>_. [7])
      (\<lambda>_. [7]) = Some (Inr (m, g, fb)) \<and>
    map oc_order_id sends = map word_of_nat [0..<length sends] \<and> sum_list (map signed_qty sends) = 100 \<and>
    (100 :: i32) = word_of_int (share_flow 7 sends) \<and> map bl_pos (fb_lines fb) = [100]"
proof -
  obtain w fb where run: "replay_main Debug (Some [()]) (concat (map frame demo_packets)) (Some []) 86400 (\<lambda>_. 7) (\<lambda>_. [7])
      (\<lambda>_. [7]) = Some (Inr (duo_state w filled_processor 1 86400000000512, demo_gateway, fb))"
    using replay_main_demo by blast
  have total: "total_position (duo_state w filled_processor 1 86400000000512) = 100"
    by (simp add: total_position_def processor_position_def duo_state_def demo_processor_def new_processor_def new_risk_def)
  have pos: "replay_get_position demo_gateway 7 = 100" "rg_last_prices demo_gateway 7 \<noteq> None"
    by (simp_all add: replay_get_position_def demo_gateway_def entry_or_0_def)
  obtain sends where sends: "map oc_order_id sends = map word_of_nat [0..<length sends]"
    "sum_list (map signed_qty sends) = 100"
    "replay_get_position demo_gateway 7 = word_of_int (share_flow 7 sends)"
    "rg_last_prices demo_gateway 7 = last_price 7 sends"
    "map (\<lambda>line. (bl_locate line, bl_pos line)) (fb_lines fb) =
      map (\<lambda>loc. (loc, word_of_int (share_flow loc sends))) (filter (\<lambda>loc. last_price loc sends \<noteq> None) [7])"
    using replay_session [OF run] total by auto
  have "map (\<lambda>line. (bl_locate line, bl_pos line)) (fb_lines fb) = [(7, 100)]"
    using sends(3-5) pos by (auto split: if_splits)
  then have "map bl_pos (fb_lines fb) = [100]" by (auto simp: map_eq_Cons_conv)
  with run sends(1-3) pos(1) show ?thesis by auto
qed

theorem final_pnl_within_half_a_cent_witness:
  "\<exists>fb. final_pnl Debug [7] [7] demo_gateway = Inr fb \<and> \<bar>fval (fb_total_equity fb)\<bar> \<le> 1 / 200"
proof -
  have "sum_list (map (\<lambda>loc. \<bar>sint (replay_get_cash_balance demo_gateway loc)\<bar>) [7]) \<le> 10 ^ 15"
    and "\<forall>loc\<in>set [7]. \<bar>sint (replay_get_position demo_gateway loc)\<bar> \<le> 3500"
    and exact: "exact_cash [7] demo_gateway + exact_inventory [7] demo_gateway = 0"
    by (simp_all add: exact_cash_def exact_inventory_def exact_value_def replay_get_cash_balance_def
        replay_get_position_def demo_gateway_def entry_or_0_def)
  from final_pnl_within_half_a_cent [OF this(1) _ this(2), of Debug] show ?thesis by (auto simp: exact)
qed

section \<open>Polled fills and posted records\<close>

theorem polled_fill_is_report_witness:
  "\<exists>g mem. live_poll Debug (mem, mem, mem) g = Inr (g\<lparr>lg_next_seq := 1\<rparr>, Some demo_fill)"
proof -
  obtain ring where "ring_holds 1 [(execution_report_bytes demo_fill, 7)] ring"
    using one_message_ring [of "execution_report_bytes demo_fill" 1] by auto
  then have "ring_holds 1 [(execution_report_bytes demo_fill, 7)]
      (lg_inbound_shm \<lparr>lg_outbound_shm = ring, lg_inbound_shm = ring, lg_next_seq = 0\<rparr>)"
    by simp
  from polled_fill_is_report [OF this, of 0 demo_fill "sr_mmap ring" Debug]
  have "live_poll Debug (sr_mmap ring, sr_mmap ring, sr_mmap ring)
      \<lparr>lg_outbound_shm = ring, lg_inbound_shm = ring, lg_next_seq = 0\<rparr> =
    Inr (\<lparr>lg_outbound_shm = ring, lg_inbound_shm = ring, lg_next_seq = 0\<rparr>\<lparr>lg_next_seq := 1\<rparr>, Some demo_fill)"
    by simp
  then show ?thesis by blast
qed

definition demo_payload :: telemetry_payload where
  "demo_payload =
     \<lparr>tp_timestamp_ns = 86400000000512, tp_realised_pnl = - 100, tp_midpoint_px = 101, tp_position = 100,
      tp_latency_ns = 30, tp_locate_id = 7\<rparr>"

theorem visualiser_posts_every_record_witness:
  "\<exists>capacity mem v. visualise Debug capacity new_visualiser [(mem, mem, mem), (mem, mem, mem)] = Inr v \<and>
     vz_posts v = [record_line demo_payload] \<and>
     concat (map record_line (records_read Debug capacity new_visualiser [(mem, mem, mem), (mem, mem, mem)])) =
       record_line demo_payload"
proof -
  obtain ring where ring: "ring_holds 1 [(telemetry_bytes demo_payload, 7)] ring"
    using one_message_ring [of "telemetry_bytes demo_payload" 1] by auto
  define mem where "mem = sr_mmap ring"
  obtain v where v: "visualise Debug (sr_capacity ring) new_visualiser [(mem, mem, mem), (mem, mem, mem)] = Inr v"
    "vz_posts v = [record_line demo_payload]" "vz_batch_buffer v = []"
    using pending_records_posted [OF ring, of "[demo_payload]" mem Debug]
    by (auto simp del: visualise.simps simp: mem_def)
  have "concat (map record_line (records_read Debug (sr_capacity ring) new_visualiser
      [(mem, mem, mem), (mem, mem, mem)])) = record_line demo_payload"
    using visualiser_posts_every_record [OF v(1)] by (simp only: v(2,3) concat.simps append_Nil2)
  with v(1,2) show ?thesis by blast
qed

theorem replayed_telemetry_reaches_database_witness:
  "\<exists>(fresh :: byte list) (mem :: byte list) v. concat (vz_posts v) = record_line demo_payload \<and>
     vz_batch_buffer v = [] \<and>
     visualiser_main Debug (Some [(), ()]) (\<lambda>_. True) (Some fresh)
       ([(fresh, fresh, fresh)] @ replicate 2 (mem, mem, mem)) = Inr (Inr v)"
proof -
  obtain ring where "create_producer shm_bytes (Some []) = Inr (Inr ring)"
    using create_producer_shape [of 20 "[]"] by (auto simp: shm_bytes_power)
  then have new: "new_telemetry_writer (Some []) = Inr \<lparr>tw_outbound = ring\<rparr>"
    using expect_ok_Inr [of "create_producer shm_bytes (Some [])" ring] by (simp add: new_telemetry_writer_def)
  have recorded: "ms_telemetry_writer demo3 = [telemetry_bytes demo_payload]"
    by (simp add: demo3_def demo_state_def demo_report_def demo_payload_def)
  have size: "length (ms_telemetry_writer demo3) < 2 ^ 20" "length (ms_telemetry_writer demo3) < 2"
    by (simp_all add: recorded)
  have cores: "2 \<le> length [(), ()]" by simp
  let ?fresh = "sr_mmap ring"
  have early: "replay_memory b st gw clock data (with_writer \<lparr>tw_outbound = ring\<rparr> m) g 0 = Some ?fresh"
    for b st gw clock data g and m :: "('s, byte list list) market_state"
    by (simp add: replay_memory_def)
  then have before: "\<forall>seen\<in>set [(?fresh, ?fresh, ?fresh)].
      read_beside_replay (replay_memory b st gw clock data (with_writer \<lparr>tw_outbound = ring\<rparr> m) g) seen"
    for b st gw clock data g and m :: "('s, byte list list) market_state"
    by (auto simp: read_beside_replay_def intro!: exI [of _ 0] early)
  obtain w :: telemetry_writer and ts v where ts: "ms_telemetry_writer demo3 = map telemetry_bytes ts"
    and main: "let mem = sr_mmap (tw_outbound w)
      in visualiser_main Debug (Some [(), ()]) (\<lambda>_. True) (Some ?fresh)
          ([(?fresh, ?fresh, ?fresh)] @ replicate 2 (mem, mem, mem)) = Inr (Inr v)"
    and posts: "concat (vz_posts v) = concat (map record_line ts)" "vz_batch_buffer v = []"
    using replayed_telemetry_reaches_database [OF new demo_market_new demo_replay size(1) cores TrueI early before
        size(2), of "\<lambda>_. 7"]
    by blast
  obtain t where "ts = [t]" "telemetry_bytes t = telemetry_bytes demo_payload"
    using ts unfolding recorded by (auto simp: Cons_eq_map_conv)
  then have "ts = [demo_payload]" using telemetry_roundtrip [of _ "[]"] by (metis append_Nil2)
  then have "concat (vz_posts v) = record_line demo_payload" using posts by simp
  with main posts(2) show ?thesis unfolding Let_def by blast
qed
text \<open>The visualiser had taken one record when the replay was started again; the one record of the new
  run is then lost, however often it looks.\<close>

theorem restart_loses_records_witness:
  "\<exists>w ring v'. new_telemetry_writer (Some []) = Inr w \<and>
     write_all Debug (tw_outbound w) [(telemetry_bytes demo_payload, 7)] = Inr ring \<and>
     visualise Debug (sr_capacity ring) (new_visualiser\<lparr>vz_sequence_num := 1\<rparr>)
       (replicate 5 (sr_mmap ring, sr_mmap ring, sr_mmap ring)) = Inr v' \<and>
     concat (vz_posts v') @ vz_batch_buffer v' = []"
proof -
  obtain ring where "create_producer shm_bytes (Some []) = Inr (Inr ring)"
    using create_producer_shape [of 20 "[]"] by (auto simp: shm_bytes_power)
  then have new: "new_telemetry_writer (Some []) = Inr \<lparr>tw_outbound = ring\<rparr>"
    using expect_ok_Inr [of "create_producer shm_bytes (Some [])" ring] by (simp add: new_telemetry_writer_def)
  let ?v = "new_visualiser\<lparr>vz_sequence_num := 1\<rparr>"
  have hyps: "length [(demo_payload, 7 :: u64)] < 2 ^ 20" "vz_sequence_num ?v = word_of_nat 1"
    "(1 :: nat) < 2 ^ 64" "vz_records_in_batch ?v \<le> 5000"
    by (simp_all add: new_visualiser_def)
  from restart_loses_records [OF new hyps, of Debug 5] new show ?thesis
    by (auto simp: new_visualiser_def simp del: visualise.simps write_all.simps replicate.simps replicate_Suc)
qed

end
