(* ===== verification/Ring_Protocol.thy ===== *)
theory Ring_Protocol
  imports Shm_Ring
begin

text \<open>
  The ring of \<open>crates/shm-ring-buffer/src/lib.rs\<close> with the producer running while a consumer reads.
  The producer stores the bytes of a message one by one, in any order, and then publishes it by
  storing the head; the consumer loads the head, copies the slot byte by byte at any moments in
  between, and loads the head again. All accesses happen in one global order, an interleaving of the
  two programs. The orderings the source asks for are weaker than that: a release store of the head
  does not keep the stores of the next message behind it, so on a machine with weak stores the
  slot may be overwritten before the head says so. The model is that of x86, where stores become
  visible in program order and loads are not reordered with loads.

  A slot outside the mapping is never written: that store would be undefined behaviour, and the
  model of the producer stops there. With the file size \<open>create_producer\<close> chooses this is the last
  slot of the ring; with a larger mapping the producer goes on for ever.
\<close>

section \<open>The producer, store by store\<close>

record producer =
  pr_mem :: "byte list"
  pr_sent :: "message list"
  pr_pending :: "message option"

definition slot_at :: "nat \<Rightarrow> nat \<Rightarrow> nat" where
  "slot_at j k = 64 * (1 + k mod 2 ^ j)"

definition slot_is :: "nat \<Rightarrow> byte list \<Rightarrow> nat \<Rightarrow> message \<Rightarrow> bool" where
  "slot_is j mem k msg \<longleftrightarrow>
     window mem (slot_at j k) (10 + length (fst msg)) = slot_image (snd msg) (fst msg)"

text \<open>\<open>write\<close> in its single stores: \<open>start\<close> is its entry with a slot inside the mapping, \<open>store\<close> one
  byte of the timestamp, the length or the data, \<open>publish\<close> the store of the head after all bytes are in place.\<close>

inductive produce :: "nat \<Rightarrow> producer \<Rightarrow> producer \<Rightarrow> bool" for j where
  start: "pr_pending x = None \<Longrightarrow> length (fst msg) \<le> 54 \<Longrightarrow>
    slot_at j (length (pr_sent x)) + 64 \<le> length (pr_mem x) \<Longrightarrow>
    produce j x (x\<lparr>pr_pending := Some msg\<rparr>)"
| store: "pr_pending x = Some msg \<Longrightarrow> i < 10 + length (fst msg) \<Longrightarrow>
    produce j x (x\<lparr>pr_mem := put (pr_mem x) (slot_at j (length (pr_sent x)) + i)
                    [slot_image (snd msg) (fst msg) ! i]\<rparr>)"
| publish: "pr_pending x = Some msg \<Longrightarrow> slot_is j (pr_mem x) (length (pr_sent x)) msg \<Longrightarrow>
    produce j x (x\<lparr>pr_mem := store_head (word_of_nat (length (pr_sent x) + 1)) (pr_mem x),
                   pr_sent := pr_sent x @ [msg], pr_pending := None\<rparr>)"

definition fresh_producer :: "producer \<Rightarrow> bool" where
  "fresh_producer x \<longleftrightarrow> 64 \<le> length (pr_mem x) \<and> header_head (pr_mem x) = 0 \<and>
     pr_sent x = [] \<and> pr_pending x = None"

text \<open>The invariant: every message less than \<open>2 ^ j\<close> behind the head is intact.\<close>

definition producer_inv :: "nat \<Rightarrow> producer \<Rightarrow> bool" where
  "producer_inv j x \<longleftrightarrow> 64 \<le> length (pr_mem x) \<and>
     header_head (pr_mem x) = word_of_nat (length (pr_sent x)) \<and>
     (\<forall>msg. pr_pending x = Some msg \<longrightarrow>
        length (fst msg) \<le> 54 \<and> slot_at j (length (pr_sent x)) + 64 \<le> length (pr_mem x)) \<and>
     (\<forall>k<length (pr_sent x).
        length (fst (pr_sent x ! k)) \<le> 54 \<and> slot_at j k + 64 \<le> length (pr_mem x)) \<and>
     (\<forall>k<length (pr_sent x). length (pr_sent x) < k + 2 ^ j \<longrightarrow> slot_is j (pr_mem x) k (pr_sent x ! k))"

lemma slot_at_bounds: "64 \<le> slot_at j k"
  by (simp add: slot_at_def)

section \<open>A write is a run of the producer\<close>

lemma put_grow:
  assumes "off + length bs \<le> length mem" "i < length bs"
  shows "put (put mem off (take i bs)) (off + i) [bs ! i] = put mem off (take (Suc i) bs)"
  using assms by (simp add: put_def take_Suc_conv_app_nth min_def)

lemma stores_run:
  assumes "pr_pending x = Some msg" "slot_at j (length (pr_sent x)) + 64 \<le> length (pr_mem x)"
    and "length (fst msg) \<le> 54" "i \<le> 10 + length (fst msg)"
  shows "(produce j)\<^sup>*\<^sup>* x (x\<lparr>pr_mem := put (pr_mem x) (slot_at j (length (pr_sent x)))
    (take i (slot_image (snd msg) (fst msg)))\<rparr>)"
  using assms(4)
proof (induction i)
  case 0
  then show ?case by (simp add: put_def)
next
  case (Suc i)
  let ?off = "slot_at j (length (pr_sent x))" and ?image = "slot_image (snd msg) (fst msg)"
  let ?y = "x\<lparr>pr_mem := put (pr_mem x) ?off (take i ?image)\<rparr>"
  have "produce j ?y (?y\<lparr>pr_mem := put (pr_mem ?y) (slot_at j (length (pr_sent ?y)) + i) [?image ! i]\<rparr>)"
    using Suc.prems assms(1) by (intro produce.store) simp_all
  moreover have "put (put (pr_mem x) ?off (take i ?image)) (?off + i) [?image ! i] =
      put (pr_mem x) ?off (take (Suc i) ?image)"
    using Suc.prems assms(2,3) by (intro put_grow) simp_all
  ultimately show ?case using Suc by (auto intro: rtranclp.rtrancl_into_rtrancl)
qed

text \<open>C12: The write of the code is one of the runs of the store-by-store producer: whatever \<open>write\<close> does
  to the memory of a ring, a started, stored and published message does to the producer's.\<close>

theorem ring_write_is_producer_run:
  assumes "ring_write b ring data now = Inr ring'" "sr_capacity ring = 2 ^ j" "j \<le> 50"
    and "sr_mmap ring = pr_mem x" "producer_inv j x" "pr_pending x = None" "length (pr_sent x) < 2 ^ 63"
  shows "(produce j)\<^sup>*\<^sup>* x (x\<lparr>pr_mem := sr_mmap ring', pr_sent := pr_sent x @ [(data, now)]\<rparr>)"
proof -
  let ?n = "length (pr_sent x)" and ?msg = "(data, now)"
  let ?off = "slot_at j ?n" and ?image = "slot_image now data"
  have head: "header_head (pr_mem x) = word_of_nat ?n" and big: "16 \<le> length (pr_mem x)"
    using assms(5) by (simp_all add: producer_inv_def)
  have n: "unat (word_of_nat ?n :: u64) = ?n" using assms(7) by (simp add: unat_of_nat)
  obtain off where off: "slot_offset b (2 ^ j) (word_of_nat ?n) = Inr off" "unat off = ?off"
    using slot_offset_exact [OF assms(3), of b "word_of_nat ?n"] n by (auto simp: slot_at_def)
  have stored: "length data \<le> 54" "?off + 64 \<le> length (pr_mem x)"
    "sr_mmap ring' = store_head (word_of_nat (?n + 1)) (put (pr_mem x) ?off ?image)"
    using assms(1) off
    by (auto simp: ring_write_def assms(2,4) head Let_def slot_size_def add.commute not_less
        dest!: add_u_InrD split: if_splits)
  define y where "y = x\<lparr>pr_pending := Some ?msg\<rparr>"
  define z where "z = y\<lparr>pr_mem := put (pr_mem x) ?off ?image\<rparr>"
  have "produce j x y"
    unfolding y_def using assms(6) stored by (intro produce.start) simp_all
  moreover have "(produce j)\<^sup>*\<^sup>* y z"
    using stores_run [of y ?msg j "10 + length data"] stored by (simp add: y_def z_def)
  moreover have "produce j z (z\<lparr>pr_mem := store_head (word_of_nat (length (pr_sent z) + 1)) (pr_mem z),
      pr_sent := pr_sent z @ [?msg], pr_pending := None\<rparr>)"
    using stored(1,2) by (intro produce.publish) (simp_all add: y_def z_def slot_is_def window_put_same)
  moreover have "z\<lparr>pr_mem := store_head (word_of_nat (length (pr_sent z) + 1)) (pr_mem z),
      pr_sent := pr_sent z @ [?msg], pr_pending := None\<rparr> =
    x\<lparr>pr_mem := sr_mmap ring', pr_sent := pr_sent x @ [?msg]\<rparr>"
    using stored(3) assms(6) by (simp add: y_def z_def)
  ultimately show ?thesis
    by (metis converse_rtranclp_into_rtranclp rtranclp.rtrancl_into_rtrancl)
qed

section \<open>The invariant\<close>

lemma mod_differs: "k < l \<Longrightarrow> l < k + n \<Longrightarrow> k mod n \<noteq> l mod (n :: nat)"
proof
  assume lt: "k < l" "l < k + n" and eq: "k mod n = l mod n"
  then have "n dvd l - k" by (metis less_imp_le mod_eq_dvd_iff_nat)
  then show False using lt by (auto dest: dvd_imp_le)
qed

lemma slots_apart:
  assumes "k < l" "l < k + 2 ^ j"
  shows "slot_at j k + 64 \<le> slot_at j l \<or> slot_at j l + 64 \<le> slot_at j k"
  using mod_differs [OF assms] by (auto simp: slot_at_def)

lemma produce_inv:
  assumes "produce j x y" "producer_inv j x"
  shows "producer_inv j y"
  using assms
proof (induction rule: produce.induct)
  case (start x msg)
  then show ?case by (simp add: producer_inv_def)
next
  case (store x msg i)
  let ?off = "slot_at j (length (pr_sent x))"
  have len: "length (fst msg) \<le> 54" and room: "?off + 64 \<le> length (pr_mem x)"
    using store by (simp_all add: producer_inv_def)
  then have b: "?off + i + length [slot_image (snd msg) (fst msg) ! i] \<le> length (pr_mem x)"
    using store by simp
  have head: "header_head (put (pr_mem x) (?off + i) [c]) = header_head (pr_mem x)" for c
    using b slot_at_bounds [of j "length (pr_sent x)"]
    by (simp add: header_head_def window_put_other)
  have "slot_is j (put (pr_mem x) (?off + i) [c]) k (pr_sent x ! k)"
    if k: "k < length (pr_sent x)" "length (pr_sent x) < k + 2 ^ j" for k c
  proof -
    have "slot_is j (pr_mem x) k (pr_sent x ! k)" "length (fst (pr_sent x ! k)) \<le> 54"
      "slot_at j k + 64 \<le> length (pr_mem x)"
      using store(3) k by (simp_all add: producer_inv_def)
    then show ?thesis
      using slots_apart [OF k] b len store(2) by (auto simp: slot_is_def window_put_other)
  qed
  with store b head show ?case by (simp add: producer_inv_def)
next
  case (publish x msg)
  let ?n = "length (pr_sent x)"
  have big: "16 \<le> length (pr_mem x)" using publish by (simp add: producer_inv_def)
  have keep: "slot_is j (store_head h (pr_mem x)) k m = slot_is j (pr_mem x) k m" for h k m
    using slot_at_bounds [of j k] big by (simp add: slot_is_def window_store_head)
  have "length (fst msg) \<le> 54" using publish by (simp add: producer_inv_def)
  with publish keep big show ?case
    by (auto simp: producer_inv_def nth_append less_Suc_eq header_stored)
qed

lemma fresh_inv: "fresh_producer x \<Longrightarrow> producer_inv j x"
  by (simp add: fresh_producer_def producer_inv_def)

section \<open>A reader beside it\<close>

text \<open>A run of the producer, with pauses.\<close>

definition producer_run :: "nat \<Rightarrow> (nat \<Rightarrow> producer) \<Rightarrow> bool" where
  "producer_run j run \<longleftrightarrow>
     fresh_producer (run 0) \<and> (\<forall>t. run (Suc t) = run t \<or> produce j (run t) (run (Suc t)))"

text \<open>What the copy sees: each byte of the slot as it was at some moment from \<open>t1\<close> to \<open>t2\<close>.\<close>

definition copied_between :: "(nat \<Rightarrow> producer) \<Rightarrow> nat \<Rightarrow> nat \<Rightarrow> nat \<Rightarrow> byte list \<Rightarrow> bool" where
  "copied_between run t1 t2 off mem \<longleftrightarrow>
     length mem = length (pr_mem (run t1)) \<and>
     (\<forall>i<64. \<exists>t. t1 \<le> t \<and> t \<le> t2 \<and> mem ! (off + i) = pr_mem (run t) ! (off + i))"

lemma run_inv: "producer_run j run \<Longrightarrow> producer_inv j (run t)"
proof (induction t)
  case (Suc t)
  then show ?case unfolding producer_run_def by (metis produce_inv)
qed (auto simp: producer_run_def intro: fresh_inv)

lemma produce_length: "produce j x y \<Longrightarrow> producer_inv j x \<Longrightarrow> length (pr_mem y) = length (pr_mem x)"
  by (induction rule: produce.induct) (auto simp: producer_inv_def)

lemma run_length: "producer_run j run \<Longrightarrow> length (pr_mem (run t)) = length (pr_mem (run 0))"
proof (induction t)
  case (Suc t)
  then show ?case using run_inv [OF Suc.prems, of t] produce_length unfolding producer_run_def by metis
qed simp

lemma produce_sent: "produce j x y \<Longrightarrow> \<exists>ms. pr_sent y = pr_sent x @ ms"
  by (induction rule: produce.induct) auto

lemma run_sent:
  assumes "producer_run j run" "t \<le> t'"
  shows "\<exists>ms. pr_sent (run t') = pr_sent (run t) @ ms"
  using assms(2)
proof (induction t' rule: dec_induct)
  case (step u)
  then show ?case using assms(1) produce_sent unfolding producer_run_def by (metis append.assoc)
qed simp

lemma run_sent_nth:
  assumes "producer_run j run" "t \<le> t'" "k < length (pr_sent (run t))"
  shows "k < length (pr_sent (run t'))" "pr_sent (run t') ! k = pr_sent (run t) ! k"
    "length (pr_sent (run t)) \<le> length (pr_sent (run t'))"
  using run_sent [OF assms(1,2)] assms(3) by (auto simp: nth_append)

lemma intact_copy:
  assumes run: "producer_run j run" and k: "k < length (pr_sent (run t1))"
    and t: "t1 \<le> t2" "length (pr_sent (run t2)) < k + 2 ^ j"
    and copy: "copied_between run t1 t2 (slot_at j k) mem"
  shows "window (window mem (slot_at j k) 64) 0 (10 + length (fst (pr_sent (run t2) ! k))) =
    slot_image (snd (pr_sent (run t2) ! k)) (fst (pr_sent (run t2) ! k))" (is "?w = ?image")
proof (rule nth_equalityI)
  let ?msg = "pr_sent (run t2) ! k"
  have short: "length (fst ?msg) \<le> 54" and room: "slot_at j k + 64 \<le> length (pr_mem (run t2))"
    using run_inv [OF run, of t2] run_sent_nth(1) [OF run t(1) k] by (simp_all add: producer_inv_def)
  have len: "length (pr_mem (run u)) = length mem" for u
    using copy run_length [OF run, of t1] run_length [OF run, of u] by (simp add: copied_between_def)
  have inside: "slot_at j k + 64 \<le> length mem" using room len by simp
  show "length ?w = length ?image" using short inside len by simp
  fix i assume "i < length ?w"
  then have i: "i < 10 + length (fst ?msg)" "i < 64" using short inside len by simp_all
  obtain u where u: "t1 \<le> u" "u \<le> t2" "mem ! (slot_at j k + i) = pr_mem (run u) ! (slot_at j k + i)"
    using copy i(2) by (auto simp: copied_between_def)
  note at_u = run_sent_nth [OF run u(1) k]
  have msg: "pr_sent (run u) ! k = ?msg" and le: "length (pr_sent (run u)) < k + 2 ^ j"
    using run_sent_nth [OF run u(2) at_u(1)] t(2) by simp_all
  have "slot_is j (pr_mem (run u)) k ?msg"
    using run_inv [OF run, of u] at_u(1) le msg by (auto simp: producer_inv_def)
  then have "?image ! i = window (pr_mem (run u)) (slot_at j k) (10 + length (fst ?msg)) ! i"
    by (simp add: slot_is_def)
  also have "\<dots> = pr_mem (run u) ! (slot_at j k + i)"
    using i(1) short inside len [of u] by (simp add: window_def)
  also have "\<dots> = ?w ! i" using u(3) i short inside len by (simp add: window_def)
  finally show "?w ! i = ?image ! i" by simp
qed

lemma success_cases:
  assumes "ring_read_observing b cap m1 mem m2 seq = Inr (Success s)"
  obtains off where "seq < header_head m1" "slot_offset b cap seq = Inr off"
    "s = slot_of_bytes (window mem (unat off) 64)"
  using assms
  by (auto simp: ring_read_observing_def Let_def slot_size_def split: if_splits)

text \<open>C8: No torn read, if the producer stays clear: when a read reports success and at its second
  look at the head the producer is less than a full ring ahead, the slot holds exactly the message
  with that number and its timestamp, whatever stores of the producer fell between the copies of
  the single bytes.\<close>

theorem successful_read_is_intact:
  assumes "producer_run j run" "j \<le> 50" "t1 \<le> t2" "k < 2 ^ 63" "length (pr_sent (run t2)) < 2 ^ 63"
    and "copied_between run t1 t2 (slot_at j k) mem"
    and "ring_read_observing b (2 ^ j) (pr_mem (run t1)) mem (pr_mem (run t2)) (word_of_nat k) =
      Inr (Success s)"
    and "length (pr_sent (run t2)) < k + 2 ^ j"
  shows "k < length (pr_sent (run t2)) \<and> slot_message s = pr_sent (run t2) ! k"
proof -
  have k: "unat (word_of_nat k :: u64) = k" using assms(4) by (simp add: unat_of_nat)
  obtain off where off: "word_of_nat k < header_head (pr_mem (run t1))"
    "slot_offset b (2 ^ j) (word_of_nat k) = Inr off" "s = slot_of_bytes (window mem (unat off) 64)"
    using assms(7) by (rule success_cases)
  have n: "length (pr_sent (run t1)) \<le> length (pr_sent (run t2))"
    using run_sent [OF assms(1,3)] by auto
  then have "unat (header_head (pr_mem (run t1))) = length (pr_sent (run t1))"
    using run_inv [OF assms(1), of t1] assms(5) by (simp add: producer_inv_def unat_of_nat)
  then have sent: "k < length (pr_sent (run t1))" using off(1) k by (simp add: word_less_nat_alt)
  have "unat off = slot_at j k"
    using slot_offset_exact [OF assms(2), of b "word_of_nat k"] off(2) k by (auto simp: slot_at_def)
  then have s: "s = slot_of_bytes (window mem (slot_at j k) 64)" using off(3) by simp
  have "slot_at j k + 64 \<le> length mem"
    using assms(6) run_inv [OF assms(1), of t1] sent by (simp add: copied_between_def producer_inv_def)
  then have "length (window mem (slot_at j k) 64) = 64" by simp
  moreover have sent2: "k < length (pr_sent (run t2))" using run_sent_nth(1) [OF assms(1,3) sent] .
  moreover have "length (fst (pr_sent (run t2) ! k)) \<le> 54"
    using run_inv [OF assms(1), of t2] sent2 by (simp add: producer_inv_def)
  ultimately have "slot_message s = pr_sent (run t2) ! k"
    unfolding s using intact_copy [OF assms(1) sent assms(3,8,6)] by (intro slot_message_eq)
  with sent2 show ?thesis by blast
qed

section \<open>A concrete run\<close>

text \<open>A ring of two slots in the 128 bytes \<open>create_producer\<close> gives it: the producer publishes the message
  1 1 and rests.\<close>

definition calm_mem :: "byte list" where
  "calm_mem = put (replicate 128 0) 64 (slot_image 0 [1, 1])"

definition calm_run :: "nat \<Rightarrow> producer" where
  "calm_run t =
     (if t = 0 then \<lparr>pr_mem = calm_mem, pr_sent = [], pr_pending = None\<rparr>
      else if t = 1 then \<lparr>pr_mem = calm_mem, pr_sent = [], pr_pending = Some ([1, 1], 0)\<rparr>
      else \<lparr>pr_mem = store_head 1 calm_mem, pr_sent = [([1, 1], 0)], pr_pending = None\<rparr>)"

lemma calm_run: "producer_run 1 calm_run"
proof -
  have len: "length calm_mem = 128" by (simp add: calm_mem_def)
  have head: "header_head calm_mem = 0"
    by (simp add: header_head_def calm_mem_def window_put_other) (simp add: window_def from_le_bytes_def)
  have slot: "slot_is 1 calm_mem 0 ([1, 1], 0)"
    by (simp add: slot_is_def slot_at_def calm_mem_def window_put_same)
  have "calm_run (Suc t) = calm_run t \<or> produce 1 (calm_run t) (calm_run (Suc t))" for t
  proof -
    consider "t = 0" | "t = 1" | "1 < t" by linarith
    then show ?thesis
    proof cases
      case 1
      then show ?thesis
        using produce.start [of "calm_run 0" "([1, 1], 0)" 1] len by (simp add: calm_run_def slot_at_def)
    next
      case 2
      then show ?thesis
        using produce.publish [of "calm_run 1" "([1, 1], 0)" 1] slot by (simp add: calm_run_def)
    qed (simp add: calm_run_def)
  qed
  moreover have "fresh_producer (calm_run 0)"
    by (simp add: fresh_producer_def calm_run_def head len)
  ultimately show ?thesis unfolding producer_run_def by blast
qed

theorem successful_read_is_intact_witness:
  "\<exists>s. ring_read_observing Debug (2 ^ 1) (store_head 1 calm_mem) (store_head 1 calm_mem)
     (store_head 1 calm_mem) (word_of_nat 0) = Inr (Success s) \<and> slot_message s = ([1, 1], 0)"
proof -
  let ?mem = "store_head 1 calm_mem"
  have run2: "pr_mem (calm_run 2) = ?mem" "pr_sent (calm_run 2) = [([1, 1], 0)]"
    by (simp_all add: calm_run_def)
  have len: "length calm_mem = 128" by (simp add: calm_mem_def)
  then have "header_head ?mem = 1" by (simp add: header_stored)
  moreover have "slot_offset Debug 2 0 = Inr 64"
    by (simp add: slot_offset_def sub_u_def mul_u_def add_u_def)
  ultimately obtain s where s: "ring_read_observing Debug (2 ^ 1) ?mem ?mem ?mem (word_of_nat 0) = Inr (Success s)"
    using len by (simp add: ring_read_observing_def saturating_sub_def slot_size_def)
  have "copied_between calm_run 2 2 (slot_at 1 0) ?mem"
    by (auto simp: copied_between_def run2 intro!: exI [of _ 2])
  from successful_read_is_intact [OF calm_run, of 2 2 0 ?mem Debug s] this s
  show ?thesis by (simp add: run2)
qed

theorem ring_write_is_producer_run_witness:
  "\<exists>ring ring'. create_producer 128 (Some []) = Inr (Inr ring) \<and>
     ring_write Debug ring [1] 7 = Inr ring' \<and>
     (produce 1)\<^sup>*\<^sup>* \<lparr>pr_mem = sr_mmap ring, pr_sent = [], pr_pending = None\<rparr>
       \<lparr>pr_mem = sr_mmap ring', pr_sent = [([1], 7)], pr_pending = None\<rparr>"
proof -
  obtain ring where ring: "create_producer (2 ^ (1 + 6)) (Some []) = Inr (Inr ring)" "ring_shape 1 ring"
    "header_head (sr_mmap ring) = 0"
    using create_producer_shape [of 1 "[]"] by auto
  obtain ring' where ring': "ring_write Debug ring [1] 7 = Inr ring'"
    using ring_write_holds [OF ring_holds_new [OF _ ring(1)], of "[1]" Debug 7] by auto
  let ?x = "\<lparr>pr_mem = sr_mmap ring, pr_sent = [], pr_pending = None\<rparr>"
  have "producer_inv 1 ?x" using ring by (intro fresh_inv) (simp add: fresh_producer_def ring_shape_def)
  from ring_write_is_producer_run [OF ring' _ _ _ this] ring(1,2) ring' show ?thesis
    by (auto simp: ring_shape_def)
qed

end
