(* ===== verification/Unit_Tests.thy ===== *)
theory Unit_Tests
  imports Itch_Parser Orderbook Risk_Engine Strategies
begin

text \<open>
  The unit tests of the crates \<open>orderbook\<close>, \<open>risk-engine\<close>, \<open>strategies\<close> and \<open>itch-parser\<close>, one
  definition per test: the test is a program of the result monad, a failed assertion or an
  \<open>expect\<close> of an absent value is its panic. The model passes every test in both builds.
\<close>

section \<open>Assertions\<close>

text \<open>\<open>assert!\<close>, \<open>assert_eq!\<close>, \<open>unwrap\<close> and \<open>expect\<close>.\<close>

definition assert_that :: "bool \<Rightarrow> unit res" where
  "assert_that P = (if P then Inr () else Inl Explicit_Panic)"

definition unwrap :: "'a option \<Rightarrow> 'a res" where
  "unwrap x = (case x of None \<Rightarrow> Inl Unwrap_None | Some y \<Rightarrow> Inr y)"

text \<open>\<open>str::contains\<close>\<close>

fun contains :: "rstring \<Rightarrow> rstring \<Rightarrow> bool" where
  "contains [] pat = (pat = [])"
| "contains (c # s) pat = (take (length pat) (c # s) = pat \<or> contains s pat)"

text \<open>\<open>==\<close> of two floating-point numbers: a NaN is equal to nothing.\<close>

definition fl_eq :: "fl \<Rightarrow> fl \<Rightarrow> bool" where
  "fl_eq x y \<longleftrightarrow> x \<noteq> NaN \<and> y \<noteq> NaN \<and> \<not> fl_less x y \<and> \<not> fl_less y x"

lemma assert_that_Inr [simp]: "assert_that P = Inr u \<longleftrightarrow> P"
  by (simp add: assert_that_def)

lemma assert_True [simp]: "assert_that True = Inr ()"
  by (simp add: assert_that_def)

lemma unwrap_Some [simp]: "unwrap (Some x) = Inr x"
  by (simp add: unwrap_def)

lemma contains_prefix: "contains (pat @ s) pat"
proof (cases "pat @ s")
  case (Cons c t)
  then have "take (length pat) (c # t) = pat" by (metis append_eq_conv_conj)
  then show ?thesis by (simp only: Cons contains.simps simp_thms)
qed simp

lemma contains_append: "contains s pat \<Longrightarrow> contains (r @ s) pat"
  by (induction r) auto

lemma contains_middle: "contains (r @ pat @ s) pat"
  by (intro contains_append contains_prefix)

section \<open>The order book\<close>

definition test_add_order_and_aggreation :: "build \<Rightarrow> unit res" where
  "test_add_order_and_aggreation b =
     r_bind (add_order b new_book 101 Buy 150 10) (\<lambda>book.
     r_bind (unwrap (ob_orders book 101)) (\<lambda>ord.
     r_bind (assert_that (or_quantity ord = 10)) (\<lambda>_.
     r_bind (assert_that (or_price ord = 150)) (\<lambda>_.
     r_bind (unwrap (bt_get (ob_bids book) 150)) (\<lambda>total.
     r_bind (assert_that (total = 10)) (\<lambda>_.
     r_bind (add_order b book 102 Buy 150 20) (\<lambda>book.
     r_bind (unwrap (bt_get (ob_bids book) 150)) (\<lambda>total.
     r_bind (assert_that (total = 30)) (\<lambda>_.
     r_bind (unwrap (ob_orders book 101)) (\<lambda>ord.
     r_bind (assert_that (or_quantity ord = 10)) (\<lambda>_.
     r_bind (unwrap (ob_orders book 102)) (\<lambda>ord.
     assert_that (or_quantity ord = 20)))))))))))))"

definition test_partial_cancel :: "build \<Rightarrow> unit res" where
  "test_partial_cancel b =
     r_bind (add_order b new_book 101 Buy 150 50) (\<lambda>book.
     r_bind (cancel_order b book 101 25) (\<lambda>book.
     r_bind (unwrap (bt_get (ob_bids book) 150)) (\<lambda>total.
     r_bind (assert_that (total = 25)) (\<lambda>_.
     r_bind (unwrap (ob_orders book 101)) (\<lambda>ord.
     assert_that (or_quantity ord = 25))))))"

definition test_full_cancel :: "build \<Rightarrow> unit res" where
  "test_full_cancel b =
     r_bind (add_order b new_book 101 Buy 150 50) (\<lambda>book.
     r_bind (cancel_order b book 101 50) (\<lambda>book.
     r_bind (assert_that (bt_get (ob_bids book) 150 = None)) (\<lambda>_.
     assert_that (ob_orders book 101 = None))))"

definition test_mixed_cleanup :: "build \<Rightarrow> unit res" where
  "test_mixed_cleanup b =
     r_bind (add_order b new_book 101 Buy 150 50) (\<lambda>book.
     r_bind (add_order b book 102 Buy 150 25) (\<lambda>book.
     r_bind (unwrap (bt_get (ob_bids book) 150)) (\<lambda>total.
     r_bind (assert_that (total = 75)) (\<lambda>_.
     r_bind (cancel_order b book 101 50) (\<lambda>book.
     r_bind (assert_that (ob_orders book 101 = None)) (\<lambda>_.
     r_bind (assert_that (ob_orders book 102 \<noteq> None)) (\<lambda>_.
     r_bind (unwrap (bt_get (ob_bids book) 150)) (\<lambda>total.
     assert_that (total = 25)))))))))"

definition test_best_ask_bid_spread :: "build \<Rightarrow> unit res" where
  "test_best_ask_bid_spread b =
     r_bind (add_order b new_book 101 Buy 100 50) (\<lambda>book.
     r_bind (add_order b book 102 Buy 105 25) (\<lambda>book.
     r_bind (add_order b book 103 Buy 95 33) (\<lambda>book.
     r_bind (add_order b book 104 Sell 110 21) (\<lambda>book.
     r_bind (add_order b book 105 Sell 160 25) (\<lambda>book.
     r_bind (add_order b book 106 Sell 225 25) (\<lambda>book.
     r_bind (unwrap (get_best_bid book)) (\<lambda>bid.
     r_bind (assert_that (fst bid = 105)) (\<lambda>_.
     r_bind (unwrap (get_best_ask book)) (\<lambda>ask.
     r_bind (assert_that (fst ask = 110)) (\<lambda>_.
     r_bind (unwrap (spread book)) (\<lambda>sp.
     assert_that (sp = 5))))))))))))"

lemmas book_eval = add_order_def cancel_order_def cancel_level_def new_book_def add_u_def sub_u_def
  get_best_bid_def get_best_ask_def spread_def saturating_sub_def Let_def

lemma orderbook_tests_pass:
  "test_add_order_and_aggreation b = Inr ()"
  "test_partial_cancel b = Inr ()"
  "test_full_cancel b = Inr ()"
  "test_mixed_cleanup b = Inr ()"
  "test_best_ask_bid_spread b = Inr ()"
  by (simp_all add: book_eval test_add_order_and_aggreation_def test_partial_cancel_def
      test_full_cancel_def test_mixed_cleanup_def test_best_ask_bid_spread_def)

section \<open>The risk check\<close>

definition setup_risk :: local_risk where
  "setup_risk = new_risk 1000 (fl_lit f32 10 100) 2000"

text \<open>\<open>match risk.check(..) { Fail(msg) => assert!(msg.contains(..)), Pass => panic!(..) }\<close>\<close>

fun expect_fail :: "risk_decision \<Rightarrow> rstring \<Rightarrow> unit res" where
  "expect_fail (Fail msg) pat = assert_that (contains msg pat)"
| "expect_fail Pass pat = Inl Explicit_Panic"

definition test_max_qty_breach :: "build \<Rightarrow> unit res" where
  "test_max_qty_breach b =
     (let cmd = \<lparr>oc_symbol_locate = 10, oc_order_id = 1, oc_price = 15000, oc_quantity = 1500,
                 oc_side = OrderBuy\<rparr>
      in r_bind (check b setup_risk cmd None None) (\<lambda>(_, decision).
         expect_fail decision (rstr ''exceeds limit'')))"

definition test_position_projection_long_breach :: "build \<Rightarrow> unit res" where
  "test_position_projection_long_breach b =
     (let risk = setup_risk\<lparr>lr_current_position := 1500\<rparr>;
          cmd = \<lparr>oc_symbol_locate = 10, oc_order_id = 2, oc_price = 15000, oc_quantity = 600,
                 oc_side = OrderBuy\<rparr>
      in r_bind (check b risk cmd None None) (\<lambda>(_, decision).
         expect_fail decision (rstr ''exceeds limit'')))"

definition test_position_projection_short_breach :: "build \<Rightarrow> unit res" where
  "test_position_projection_short_breach b =
     (let risk = setup_risk\<lparr>lr_current_position := - 1800\<rparr>;
          cmd = \<lparr>oc_symbol_locate = 10, oc_order_id = 3, oc_price = 15000, oc_quantity = 300,
                 oc_side = OrderSell\<rparr>
      in r_bind (check b risk cmd None None) (\<lambda>(_, decision).
         expect_fail decision (rstr ''exceeds limit'')))"

definition test_buy_price_band_breach :: "build \<Rightarrow> unit res" where
  "test_buy_price_band_breach b =
     (let best_ask = Some (10000, 100);
          cmd = \<lparr>oc_symbol_locate = 10, oc_order_id = 4, oc_price = 11500, oc_quantity = 100,
                 oc_side = OrderBuy\<rparr>
      in r_bind (check b setup_risk cmd None best_ask) (\<lambda>(_, decision).
         expect_fail decision (rstr ''too far above'')))"

definition test_successful_pass_updates_position :: "build \<Rightarrow> unit res" where
  "test_successful_pass_updates_position b =
     r_bind (assert_that (lr_current_position setup_risk = 0)) (\<lambda>_.
     let cmd = \<lparr>oc_symbol_locate = 10, oc_order_id = 5, oc_price = 10000, oc_quantity = 500,
                oc_side = OrderBuy\<rparr>
     in r_bind (check b setup_risk cmd None (Some (10000, 100))) (\<lambda>(risk, decision).
        r_bind (assert_that (decision = Pass)) (\<lambda>_.
        assert_that (lr_current_position risk = 500))))"

definition test_sell_price_band_breach :: "build \<Rightarrow> unit res" where
  "test_sell_price_band_breach b =
     (let risk = new_risk 1000 (fl_lit f32 10 100) 5000;
          best_bid = Some (10000, 500);
          cmd = \<lparr>oc_symbol_locate = 10, oc_order_id = 10, oc_price = 8500, oc_quantity = 100,
                 oc_side = OrderSell\<rparr>;
          safe_cmd = \<lparr>oc_symbol_locate = 10, oc_order_id = 11, oc_price = 9500, oc_quantity = 100,
                      oc_side = OrderSell\<rparr>
      in r_bind (check b risk cmd best_bid None) (\<lambda>(risk, decision).
         r_bind (expect_fail decision (rstr ''Sell price too far below'')) (\<lambda>_.
         r_bind (check b risk safe_cmd best_bid None) (\<lambda>(_, decision).
         assert_that (decision = Pass)))))"

lemmas float_eval = fl_of_nat_def round_dyadic_def round_frac_def fl_sub_def
  ulp_exp_def expo_def scaled_rne_def pow2_le_def rne_def f64_def f32_def bitlen.simps

text \<open>The four message texts the tests look for.\<close>

lemma reasons_contain:
  "contains (qty_reason q limit) (rstr ''exceeds limit'')"
  "contains (pos_reason p limit') (rstr ''exceeds limit'')"
proof -
  have ex: "rstr '' exceeds limit '' = rstr '' '' @ rstr ''exceeds limit'' @ rstr '' ''"
    by (simp add: rstr_def)
  show "contains (qty_reason q limit) (rstr ''exceeds limit'')"
    unfolding qty_reason_def ex append_assoc by (intro contains_append contains_prefix)
  show "contains (pos_reason p limit') (rstr ''exceeds limit'')"
    unfolding pos_reason_def ex append_assoc by (intro contains_append contains_prefix)
qed

lemma band_texts_contain:
  "contains (rstr ''Buy price too far above best ask'') (rstr ''too far above'')"
  "contains (rstr ''Sell price too far below best bid'') (rstr ''Sell price too far below'')"
proof -
  have t: "rstr ''Buy price too far above best ask'' = rstr ''Buy price '' @ rstr ''too far above'' @ rstr '' best ask''"
    "rstr ''Sell price too far below best bid'' = rstr ''Sell price too far below'' @ rstr '' best bid''"
    by (simp_all add: rstr_def)
  show "contains (rstr ''Buy price too far above best ask'') (rstr ''too far above'')"
    unfolding t by (rule contains_middle)
  show "contains (rstr ''Sell price too far below best bid'') (rstr ''Sell price too far below'')"
    unfolding t by (rule contains_prefix)
qed

lemmas risk_eval = check_def setup_risk_def new_risk_def add_s_def neg_s_def abs_s_def fits_s_def
  band_violation_def fl_lit_def Let_def

lemma risk_tests_pass:
  "test_max_qty_breach b = Inr ()"
  "test_position_projection_long_breach b = Inr ()"
  "test_position_projection_short_breach b = Inr ()"
  "test_buy_price_band_breach b = Inr ()"
  "test_successful_pass_updates_position b = Inr ()"
  "test_sell_price_band_breach b = Inr ()"
  by (simp_all add: risk_eval float_eval reasons_contain band_texts_contain
      test_max_qty_breach_def test_position_projection_long_breach_def
      test_position_projection_short_breach_def test_buy_price_band_breach_def
      test_successful_pass_updates_position_def test_sell_price_band_breach_def)

section \<open>The strategy\<close>

definition test_buy_trigger_on_imbalance :: "build \<Rightarrow> unit res" where
  "test_buy_trigger_on_imbalance b =
     (let strategy = (new_mid_point threshold_08)\<lparr>sm_mid_price := fl_of_nat f64 14990\<rparr>
      in r_bind (on_book_update b strategy (Some (15000, 10000)) (Some (15010, 100))) (\<lambda>(_, result).
         r_bind (unwrap result) (\<lambda>ord.
         r_bind (assert_that (oc_side ord = OrderBuy)) (\<lambda>_.
         assert_that (oc_price ord = 15010)))))"

definition test_position_limit_prevents_overbuy :: "build \<Rightarrow> unit res" where
  "test_position_limit_prevents_overbuy b =
     (let strategy = (new_mid_point threshold_08)\<lparr>sm_position := 5100\<rparr>
      in r_bind (on_book_update b strategy (Some (15000, 10000)) (Some (15010, 100))) (\<lambda>(_, result).
         assert_that (result = None)))"

definition test_zero_volume_safety :: "build \<Rightarrow> unit res" where
  "test_zero_volume_safety b =
     (let strategy = new_mid_point threshold_08
      in r_bind (on_book_update b strategy (Some (15000, 0)) (Some (15010, 0))) (\<lambda>(_, result).
         assert_that (result = None)))"

definition test_short_trigger_on_sell_imbalance :: "build \<Rightarrow> unit res" where
  "test_short_trigger_on_sell_imbalance b =
     (let strategy = (new_mid_point threshold_08)\<lparr>sm_mid_price := fl_of_nat f64 15005\<rparr>
      in r_bind (on_book_update b strategy (Some (14990, 100)) (Some (15000, 10000))) (\<lambda>(_, result).
         r_bind (assert_that (result \<noteq> None)) (\<lambda>_.
         r_bind (unwrap result) (\<lambda>ord.
         r_bind (assert_that (oc_side ord = OrderSell)) (\<lambda>_.
         assert_that (oc_price ord = 14990))))))"

definition test_neutral_market_does_nothing :: "build \<Rightarrow> unit res" where
  "test_neutral_market_does_nothing b =
     (let strategy = (new_mid_point threshold_08)\<lparr>sm_mid_price := fl_of_nat f64 14000\<rparr>
      in r_bind (on_book_update b strategy (Some (15000, 5000)) (Some (15010, 5000))) (\<lambda>(_, result).
         assert_that (result = None)))"

lemmas strategy_eval = on_book_update_def new_mid_point_def add_u_def Let_def send_ioc_def
  generate_id_def threshold_08_value float_eval

lemma strategy_tests_pass:
  "test_buy_trigger_on_imbalance b = Inr ()"
  "test_position_limit_prevents_overbuy b = Inr ()"
  "test_zero_volume_safety b = Inr ()"
  "test_short_trigger_on_sell_imbalance b = Inr ()"
  "test_neutral_market_does_nothing b = Inr ()"
  by (simp_all add: strategy_eval test_buy_trigger_on_imbalance_def test_position_limit_prevents_overbuy_def
      test_zero_volume_safety_def test_short_trigger_on_sell_imbalance_def test_neutral_market_does_nothing_def)

section \<open>The parser\<close>

definition test_add_order :: "unit res" where
  "test_add_order =
     (let packet = replicate 36 0;
          packet = put packet 0 [word_of_nat (code_of CHR ''A'')];
          packet = put packet 1 (to_be_bytes (1111 :: u16));
          packet = put packet 11 (to_be_bytes (1000 :: u64));
          packet = put packet 19 [word_of_nat (code_of CHR ''B'')];
          packet = put packet 20 (to_be_bytes (50 :: u32));
          packet = put packet 32 (to_be_bytes (1500000 :: u32))
      in r_bind (parse_itch_message packet) (\<lambda>parsed.
         r_bind (unwrap parsed) (\<lambda>result.
         case result of
           AddOrder stock_locate oid sd quantity price \<Rightarrow>
             assert_that (stock_locate = 1111 \<and> oid = 1000 \<and> sd = Buy \<and> quantity = 50 \<and> price = 1500000)
         | _ \<Rightarrow> Inl Explicit_Panic)))"

definition test_invalid_packet :: "unit res" where
  "test_invalid_packet =
     (let packet = put (put (replicate 36 0) 0 [word_of_nat (code_of CHR ''A'')])
                     19 [word_of_nat (code_of CHR ''Z'')]
      in r_bind (parse_itch_message packet) (\<lambda>parsed. assert_that (parsed = None)))"

text \<open>The other tests assert nothing when the message has another shape.\<close>

definition test_cancel_order :: "unit res" where
  "test_cancel_order =
     (let packet = replicate 23 0;
          packet = put packet 0 [word_of_nat (code_of CHR ''X'')];
          packet = put packet 1 (to_be_bytes (42 :: u16));
          packet = put packet 11 (to_be_bytes (2000 :: u64));
          packet = put packet 19 (to_be_bytes (100 :: u32))
      in r_bind (parse_itch_message packet) (\<lambda>parsed.
         r_bind (unwrap parsed) (\<lambda>result.
         case result of
           ModifyOrder stock_locate oid quantity_to_remove \<Rightarrow>
             assert_that (stock_locate = 42 \<and> oid = 2000 \<and> quantity_to_remove = 100)
         | _ \<Rightarrow> Inr ())))"

definition test_delete_order :: "unit res" where
  "test_delete_order =
     (let packet = replicate 19 0;
          packet = put packet 0 [word_of_nat (code_of CHR ''D'')];
          packet = put packet 1 (to_be_bytes (82 :: u16));
          packet = put packet 11 (to_be_bytes (3000 :: u64))
      in r_bind (parse_itch_message packet) (\<lambda>parsed.
         r_bind (unwrap parsed) (\<lambda>result.
         case result of
           DeleteOrder stock_locate oid \<Rightarrow> assert_that (stock_locate = 82 \<and> oid = 3000)
         | _ \<Rightarrow> Inr ())))"

definition test_trade_order :: "unit res" where
  "test_trade_order =
     (let packet = replicate 44 0;
          packet = put packet 0 [word_of_nat (code_of CHR ''P'')];
          packet = put packet 1 (to_be_bytes (99 :: u16));
          packet = put packet 20 (to_be_bytes (200 :: u32));
          packet = put packet 32 (to_be_bytes (2500000 :: u32));
          packet = put packet 36 (to_be_bytes (99999 :: u64));
          packet = put packet 19 [word_of_nat (code_of CHR ''B'')]
      in r_bind (parse_itch_message packet) (\<lambda>parsed.
         r_bind (unwrap parsed) (\<lambda>result.
         case result of
           Trade stock_locate price quantity match_number bid \<Rightarrow>
             assert_that (stock_locate = 99 \<and> price = 2500000 \<and> quantity = 200 \<and> match_number = 99999 \<and> bid = Buy)
         | _ \<Rightarrow> Inr ())))"

definition test_order_executed :: "unit res" where
  "test_order_executed =
     (let packet = replicate 31 0;
          packet = put packet 0 [word_of_nat (code_of CHR ''E'')];
          packet = put packet 1 (to_be_bytes (12 :: u16));
          packet = put packet 11 (to_be_bytes (4000 :: u64));
          packet = put packet 19 (to_be_bytes (300 :: u32));
          packet = put packet 23 (to_be_bytes (88888 :: u64))
      in r_bind (parse_itch_message packet) (\<lambda>parsed.
         r_bind (unwrap parsed) (\<lambda>result.
         case result of
           OrderExecuted stock_locate oid quantity match_number \<Rightarrow>
             assert_that (stock_locate = 12 \<and> oid = 4000 \<and> quantity = 300 \<and> match_number = 88888)
         | _ \<Rightarrow> Inr ())))"

definition test_order_executed_price :: "unit res" where
  "test_order_executed_price =
     (let packet = replicate 36 0;
          packet = put packet 0 [word_of_nat (code_of CHR ''C'')];
          packet = put packet 1 (to_be_bytes (52 :: u16));
          packet = put packet 11 (to_be_bytes (4000 :: u64));
          packet = put packet 19 (to_be_bytes (300 :: u32));
          packet = put packet 23 (to_be_bytes (88888 :: u64));
          packet = put packet 32 (to_be_bytes (3500000 :: u32))
      in r_bind (parse_itch_message packet) (\<lambda>parsed.
         r_bind (unwrap parsed) (\<lambda>result.
         case result of
           OrderExecutedWithPrice stock_locate oid quantity price match_number \<Rightarrow>
             assert_that (stock_locate = 52 \<and> oid = 4000 \<and> quantity = 300 \<and> match_number = 88888 \<and> price = 3500000)
         | _ \<Rightarrow> Inr ())))"

lemma code_of_Z: "code_of CHR ''Z'' = 90"
  by (simp add: code_of_def)

lemmas packet_eval = parse_itch_message_def parse_defs packet_simps char_at_def code_of_values code_of_Z
  side_of_char_def Let_def

lemma be_field_zeros: "a \<le> b \<Longrightarrow> b \<le> n \<Longrightarrow> \<exists>x. be_field (replicate n 0) a b = Inr x"
  by (simp add: be_field_def sub_slice_def)

lemma parser_tests_pass:
  "test_add_order = Inr ()"
  "test_invalid_packet = Inr ()"
  "test_cancel_order = Inr ()"
  "test_delete_order = Inr ()"
  "test_trade_order = Inr ()"
  "test_order_executed = Inr ()"
  "test_order_executed_price = Inr ()"
  by (simp_all add: packet_eval be_field_zeros test_add_order_def test_invalid_packet_def test_cancel_order_def
      test_delete_order_def test_trade_order_def test_order_executed_def test_order_executed_price_def)

end
