(* ===== verification/Market_Tests.thy ===== *)
theory Market_Tests
  imports Unit_Tests Telemetry_Path
begin

text \<open>
  The tests of \<open>crates/market-handler/src/lib.rs\<close>: the gateway that records the orders it is given,
  the set-up of a market from directory packets, and one definition per test. The model passes
  every test in both builds, on any clock on which the market can be created.
\<close>

section \<open>The test harness\<close>

text \<open>\<open>MockGateway\<close>; its state is the list \<open>sent_orders\<close>.\<close>

definition mock_ops :: "order_command list gateway_ops" where
  "mock_ops =
     \<lparr>gw_send_order = (\<lambda>sent_orders cmd. Inr (sent_orders @ [cmd])),
      gw_poll_confirmed_orders = (\<lambda>sent_orders. Inr (sent_orders, None)),
      gw_get_position = (\<lambda>_ _. 0), gw_get_cash_balance = (\<lambda>_ _. 0)\<rparr>"

type_synonym test_market = "(simple_mid_point, byte list list) market_state"
type_synonym test_state = "test_market \<times> order_command list"

text \<open>Steps that may panic and may not return.\<close>

fun o_bind :: "'a res option \<Rightarrow> ('a \<Rightarrow> 'b res option) \<Rightarrow> 'b res option" where
  "o_bind None f = None"
| "o_bind (Some (Inl e)) f = Some (Inl e)"
| "o_bind (Some (Inr x)) f = f x"

definition str_bytes :: "string \<Rightarrow> byte list" where
  "str_bytes s = map of_char s"

abbreviation packet_of ::
    "char \<Rightarrow> u16 \<Rightarrow> u64 \<Rightarrow> u32 \<Rightarrow> u32 \<Rightarrow> u64 \<Rightarrow> char \<Rightarrow> string \<Rightarrow> byte list res" where
  "packet_of msg_type locate oid qty price match_number sd symbol \<equiv>
     create_itch_packet (code_of msg_type) locate oid qty price match_number (code_of sd) (str_bytes symbol)"

text \<open>\<open>market.handle_raw_packet(&create_itch_packet(..), &mut gateway)\<close>, once and for a list.\<close>

definition feed :: "build \<Rightarrow> byte list res \<Rightarrow> test_state \<Rightarrow> test_state res option" where
  "feed b packet s =
     o_bind (Some packet) (\<lambda>raw. handle_raw_packet b (mid_point_ops b) mock_ops list_writer (fst s) raw (snd s))"

fun feed_all :: "build \<Rightarrow> byte list res list \<Rightarrow> test_state \<Rightarrow> test_state res option" where
  "feed_all b [] s = Some (Inr s)"
| "feed_all b (packet # packets) s = o_bind (feed b packet s) (feed_all b packets)"

definition setup_multi_stock_market ::
    "build \<Rightarrow> u64 \<Rightarrow> (string \<times> u16) list \<Rightarrow> test_market res option" where
  "setup_multi_stock_market b now_secs symbols =
     o_bind (Some (new_market b (map (\<lambda>(s, _). rstr s) symbols) (new_mid_point threshold_08) [] now_secs))
       (\<lambda>market. o_bind (feed_all b
          (map (\<lambda>(name, locate). packet_of CHR ''R'' locate 0 0 0 0 CHR '' '' name) symbols) (market, []))
          (\<lambda>(market, _). Some (Inr market)))"

definition setup_test_market :: "build \<Rightarrow> u64 \<Rightarrow> string \<Rightarrow> u16 \<Rightarrow> test_market res option" where
  "setup_test_market b now_secs symbol locate =
     o_bind (Some (new_market b [rstr symbol] (new_mid_point threshold_08) [] now_secs))
       (\<lambda>market. o_bind (feed b (packet_of CHR ''R'' locate 0 0 0 0 CHR '' '' symbol) (market, []))
          (\<lambda>(market, _). Some (Inr market)))"

section \<open>Evaluation\<close>

lemma mock_poll: "poll_confirmed_orders st mock_ops m g = Some (Inr (m, g))"
  by (subst poll_confirmed_orders.simps) (simp add: mock_ops_def)

text \<open>Every packet of the builder has the time stamp 0.\<close>

lemma built_packet_stamp:
  assumes "packet_of msg_type loc oid qty price mn sd symbol = Inr raw" "5 \<le> k" "k < 11"
  shows "index raw k = Inr 0"
proof -
  have z: "index (replicate 50 0) k = Inr (0 :: byte)" using assms by (simp add: index_def)
  have k: "\<not> k < 1" "3 \<le> k" "k < 50" "k < 19" "k < 39" "k < 36" "k < 31" "k < 23" "k < 44" using assms by auto
  let ?buf = "put (put (replicate 50 0) 0 [word_of_nat (code_of msg_type)]) 1 (to_be_bytes loc)"
  have b: "index ?buf k = Inr 0" using assms(2,3) z by (simp add: index_put_other del: index_ok)
  show ?thesis
    using assms b
    by (auto simp: create_itch_packet_def Let_def index_put_other index_take simp del: index_ok split: if_splits)
qed

lemma built_packet_time:
  assumes "packet_of msg_type loc oid qty price mn sd symbol = Inr raw"
  shows "packet_time b midnight raw = Inr midnight"
proof -
  have "from_be_bytes [0, 0, 0, 0, 0, 0, 0, 0 :: byte] = (0 :: u64)"
    by (simp add: from_be_bytes_def)
  then show ?thesis
    using built_packet_stamp [OF assms] unat_u64_bound [of midnight] by (simp add: packet_time_def add_u_def Let_def)
qed

lemma feed_message:
  assumes "r_bind (packet_of msg_type loc oid qty price mn sd symbol) parse_itch_message = Inr (Some msg)"
  shows "feed b (packet_of msg_type loc oid qty price mn sd symbol) (m, g) =
    Some (filter_message_for_symbols b (mid_point_ops b) mock_ops list_writer
      (m\<lparr>ms_current_time_ns := ms_midnight_today_ns m\<rparr>) msg g)"
proof -
  obtain raw where raw: "packet_of msg_type loc oid qty price mn sd symbol = Inr raw"
    and msg: "parse_itch_message raw = Inr (Some msg)"
    using assms by auto
  show ?thesis
    using built_packet_time [OF raw]
    by (simp add: feed_def raw handle_raw_packet_def handle_message_def msg Let_def mock_poll split: sum.split)
qed

lemma four_spaces: "replicate 4 (32 :: byte) = [32, 32, 32, 32]"
  by (simp add: eval_nat_numeral)

lemma parse_directory:
  "r_bind (packet_of CHR ''R'' loc 0 0 0 0 CHR '' '' ''AAPL'') parse_itch_message =
     Inr (Some (StockDirectory loc (rstr ''AAPL'')))"
  "r_bind (packet_of CHR ''R'' loc 0 0 0 0 CHR '' '' ''MSFT'') parse_itch_message =
     Inr (Some (StockDirectory loc (rstr ''MSFT'')))"
  "r_bind (packet_of CHR ''R'' loc 0 0 0 0 CHR '' '' ''NVDA'') parse_itch_message =
     Inr (Some (StockDirectory loc (rstr ''NVDA'')))"
  by (simp_all add: create_itch_packet_def parse_itch_message_def parse_stock_directory_def char_at_def
      packet_simps code_of_values Let_def str_bytes_def rstr_def code_of_def trim_def trim_by_def
      is_whitespace_def four_spaces from_utf8_lossy.simps decode_one.simps)

lemma side_chars: "code_of CHR ''B'' = side_char Buy" "code_of CHR ''S'' = side_char Sell"
  by (simp_all add: side_char_def)

lemmas feed_built = feed_message [OF parse_directory(1)] feed_message [OF parse_directory(2)]
  feed_message [OF parse_directory(3)]
  feed_message [OF parse_built_add [where s = Buy, folded side_chars]]
  feed_message [OF parse_built_add [where s = Sell, folded side_chars]]
  feed_message [OF parse_built_trade [where s = Sell, folded side_chars]]
  feed_message [OF parse_built_executed(1)] feed_message [OF parse_built_executed(2)]
  feed_message [OF parse_built_cancel(1)] feed_message [OF parse_built_cancel(2)]

text \<open>With one side of the book empty the strategy holds and no telemetry is written: an event does
  what its message does.\<close>

lemma one_sided_event:
  "handle_event b (mid_point_ops b) gw wr p msg w g n t =
   r_bind (apply_message b p msg) (\<lambda>p1.
     if get_best_bid (sp_order_book p1) = None \<or> get_best_ask (sp_order_book p1) = None
     then Inr (p1, w, g, n)
     else r_bind (run_strategy b (mid_point_ops b) gw p1 g n) (\<lambda>(p2, g', next_id).
          r_bind (send_telemetry b gw wr p2 w g' t) (\<lambda>(p3, w'). Inr (p3, w', g', next_id))))"
proof (cases "apply_message b p msg")
  case (Inr p1)
  let ?bid = "get_best_bid (sp_order_book p1)" and ?ask = "get_best_ask (sp_order_book p1)"
  have "on_book_update b (sp_strategy p1) ?bid ?ask = Inr (sp_strategy p1, None)"
    and "midpoint b (sp_order_book p1) = Inr 0" if "?bid = None \<or> ?ask = None"
    using that by (auto simp: on_book_update_def midpoint_def quote_price_def split: option.split)
  then show ?thesis
    by (simp add: handle_event_def Inr run_strategy_def mid_point_ops_def send_telemetry_def)
qed (simp add: handle_event_def)

section \<open>The markets of the tests\<close>

definition midnight_of :: "u64 \<Rightarrow> u64" where
  "midnight_of now_secs = (now_secs - now_secs mod 86400) * 1000000000"

definition clock_ok :: "u64 \<Rightarrow> bool" where
  "clock_ok now_secs \<longleftrightarrow> unat now_secs * 1000000000 < 2 ^ 64"

definition located :: "string \<Rightarrow> u16 \<Rightarrow> simple_mid_point symbol_processor" where
  "located name locate = (new_processor (new_mid_point threshold_08) (rstr name))\<lparr>sp_stock_locate := locate\<rparr>"

definition market_of ::
    "u64 \<Rightarrow> (u16 \<Rightarrow> i16) \<Rightarrow> simple_mid_point symbol_processor list \<Rightarrow> u64 \<Rightarrow> byte list list \<Rightarrow> test_market" where
  "market_of now_secs table ps n w =
     \<lparr>ms_processors = ps, ms_lookup_table = table, ms_global_order_id_counter = n,
      ms_telemetry_writer = w, ms_current_time_ns = midnight_of now_secs,
      ms_midnight_today_ns = midnight_of now_secs\<rparr>"

lemma new_market_clock:
  assumes "clock_ok now_secs"
  shows "new_market b names s w now_secs =
    Inr \<lparr>ms_processors = map (new_processor s) names, ms_lookup_table = (\<lambda>_. - 1),
      ms_global_order_id_counter = 0, ms_telemetry_writer = w, ms_current_time_ns = 0,
      ms_midnight_today_ns = midnight_of now_secs\<rparr>"
proof -
  let ?t = "now_secs mod 86400"
  have t: "unat ?t \<le> unat now_secs" by (simp add: unat_mod)
  have "unat (now_secs - ?t) * 1000000000 \<le> unat now_secs * 1000000000"
    using sub_u_exact(2) [OF t] by simp
  then have "mul_u b (now_secs - ?t) 1000000000 = Inr (midnight_of now_secs)"
    using assms by (simp add: mul_u_def midnight_of_def clock_ok_def)
  then show ?thesis
    using sub_u_exact(1) [OF t, of b] by (simp add: new_market_def Let_def)
qed

lemma clean_names:
  "clean_symbol (rstr ''AAPL'') = rstr ''AAPL''" "clean_symbol (rstr ''MSFT'') = rstr ''MSFT''"
  "clean_symbol (rstr ''NVDA'') = rstr ''NVDA''"
  "rstr ''AAPL'' \<noteq> rstr ''MSFT''" "rstr ''AAPL'' \<noteq> rstr ''NVDA''" "rstr ''MSFT'' \<noteq> rstr ''NVDA''"
  by (simp_all add: clean_symbol_def trim_matches_def trim_def trim_by_def is_whitespace_def rstr_def code_of_def)

lemmas setup_eval = feed_built filter_message_for_symbols_def handle_stock_directory_def clean_names
  new_market_clock located_def market_of_def new_processor_def

lemma setup_single:
  "clock_ok now_secs \<Longrightarrow> setup_test_market b now_secs ''AAPL'' loc =
     Some (Inr (market_of now_secs ((\<lambda>_. - 1)(loc := 0)) [located ''AAPL'' loc] 0 []))"
  by (simp add: setup_test_market_def setup_eval)

lemma setup_duo:
  "clock_ok now_secs \<Longrightarrow> setup_multi_stock_market b now_secs [(''AAPL'', l1), (''MSFT'', l2)] =
     Some (Inr (market_of now_secs ((\<lambda>_. - 1)(l1 := 0, l2 := 1))
       [located ''AAPL'' l1, located ''MSFT'' l2] 0 []))"
  by (simp add: setup_multi_stock_market_def setup_eval)

lemma setup_trio:
  "clock_ok now_secs \<Longrightarrow> setup_multi_stock_market b now_secs [(''AAPL'', l1), (''MSFT'', l2), (''NVDA'', l3)] =
     Some (Inr (market_of now_secs ((\<lambda>_. - 1)(l1 := 0, l2 := 1, l3 := 2))
       [located ''AAPL'' l1, located ''MSFT'' l2, located ''NVDA'' l3] 0 []))"
  by (simp add: setup_multi_stock_market_def setup_eval)

section \<open>The tests\<close>

definition test_multi_stock_routing_isolation :: "build \<Rightarrow> u64 \<Rightarrow> unit res option" where
  "test_multi_stock_routing_isolation b now_secs =
     o_bind (setup_multi_stock_market b now_secs [(''AAPL'', 10), (''MSFT'', 20)]) (\<lambda>market.
     o_bind (feed_all b
       [packet_of CHR ''A'' 10 101 100 15000 0 CHR ''B'' ''AAPL'',
        packet_of CHR ''A'' 20 201 100 30000 0 CHR ''B'' ''MSFT'',
        packet_of CHR ''E'' 10 101 40 888 0 CHR '' '' ''AAPL''] (market, [])) (\<lambda>(market, gateway).
     Some (
       r_bind (index (ms_processors market) 0) (\<lambda>aapl.
       r_bind (index (ms_processors market) 1) (\<lambda>msft.
       r_bind (unwrap (get_best_bid (sp_order_book aapl))) (\<lambda>(_, aapl_qty).
       r_bind (assert_that (aapl_qty = 60)) (\<lambda>_.
       r_bind (assert_that (length (tt_trades (sp_ticker aapl)) = 1)) (\<lambda>_.
       r_bind (unwrap (get_best_bid (sp_order_book msft))) (\<lambda>(msft_price, msft_qty).
       r_bind (assert_that (msft_price = 30000)) (\<lambda>_.
       r_bind (assert_that (msft_qty = 100)) (\<lambda>_.
       assert_that (length (tt_trades (sp_ticker msft)) = 0))))))))))))"

definition test_modify_order_does_not_create_trade :: "build \<Rightarrow> u64 \<Rightarrow> unit res option" where
  "test_modify_order_does_not_create_trade b now_secs =
     o_bind (setup_test_market b now_secs ''AAPL'' 10) (\<lambda>market.
     o_bind (feed_all b
       [packet_of CHR ''A'' 10 100 100 5000 0 CHR ''B'' ''AAPL'',
        packet_of CHR ''X'' 10 100 30 0 0 CHR '' '' ''AAPL''] (market, [])) (\<lambda>(market, gateway).
     Some (
       r_bind (index (ms_processors market) 0) (\<lambda>processor.
       r_bind (unwrap (get_best_bid (sp_order_book processor))) (\<lambda>(_, qty).
       r_bind (assert_that (qty = 70)) (\<lambda>_.
       r_bind (assert_that (length (tt_trades (sp_ticker processor)) = 0)) (\<lambda>_.
       assert_that (length (ms_telemetry_writer market) = 0))))))))"

text \<open>The checks of one trade on a tape: its price, quantity and match number.\<close>

definition assert_trade :: "simple_mid_point symbol_processor \<Rightarrow> u64 \<Rightarrow> u32 \<Rightarrow> u64 \<Rightarrow> unit res" where
  "assert_trade processor price qty match_number =
     r_bind (assert_that (length (tt_trades (sp_ticker processor)) = 1)) (\<lambda>_.
     r_bind (index (tt_trades (sp_ticker processor)) 0) (\<lambda>trade.
     r_bind (assert_that (tr_price trade = price)) (\<lambda>_.
     r_bind (assert_that (tr_quantity trade = qty)) (\<lambda>_.
     assert_that (tr_match_number trade = match_number)))))"

definition test_execute_order_e_creates_trade_with_book_price :: "build \<Rightarrow> u64 \<Rightarrow> unit res option" where
  "test_execute_order_e_creates_trade_with_book_price b now_secs =
     o_bind (setup_multi_stock_market b now_secs [(''AAPL'', 10), (''MSFT'', 20)]) (\<lambda>market.
     o_bind (feed_all b
       [packet_of CHR ''A'' 10 100 60 555 0 CHR ''B'' ''AAPL'',
        packet_of CHR ''E'' 10 100 40 999 999 CHR '' '' ''AAPL''] (market, [])) (\<lambda>(market, gateway).
     o_bind (Some (
       r_bind (index (ms_processors market) 0) (\<lambda>processor_appl.
       r_bind (unwrap (get_best_bid (sp_order_book processor_appl))) (\<lambda>(_, qty).
       r_bind (assert_that (qty = 20)) (\<lambda>_. assert_trade processor_appl 555 40 999))))) (\<lambda>_.
     o_bind (feed_all b
       [packet_of CHR ''A'' 20 100 60 555 0 CHR ''B'' ''MSFT'',
        packet_of CHR ''E'' 20 100 40 999 999 CHR '' '' ''MSFT''] (market, gateway)) (\<lambda>(market, gateway).
     Some (
       r_bind (index (ms_processors market) 1) (\<lambda>processor_msft.
       r_bind (unwrap (get_best_bid (sp_order_book processor_msft))) (\<lambda>(_, qty).
       r_bind (assert_that (qty = 20)) (\<lambda>_. assert_trade processor_msft 555 40 999))))))))"

definition test_execute_with_price_c_overrides_book_price :: "build \<Rightarrow> u64 \<Rightarrow> unit res option" where
  "test_execute_with_price_c_overrides_book_price b now_secs =
     (let check_processor = (\<lambda>market i.
        r_bind (index (ms_processors market) i) (\<lambda>processor.
        r_bind (assert_that (get_best_ask (sp_order_book processor) = None)) (\<lambda>_.
        r_bind (index (tt_trades (sp_ticker processor)) 0) (\<lambda>trade.
        r_bind (assert_that (tr_price trade = 1001)) (\<lambda>_.
        assert_that (tr_match_number trade = 9999))))))
      in o_bind (setup_multi_stock_market b now_secs [(''AAPL'', 10), (''MSFT'', 20)]) (\<lambda>market.
     o_bind (feed_all b
       [packet_of CHR ''A'' 10 10 1000 500 0 CHR ''S'' ''AAPL'',
        packet_of CHR ''C'' 10 10 1000 1001 9999 CHR '' '' ''AAPL''] (market, [])) (\<lambda>(market, gateway).
     o_bind (Some (check_processor market 0)) (\<lambda>_.
     o_bind (feed_all b
       [packet_of CHR ''A'' 20 10 1000 500 0 CHR ''S'' ''MSFT'',
        packet_of CHR ''C'' 20 10 1000 1001 9999 CHR '' '' ''MSFT''] (market, gateway)) (\<lambda>(market, gateway).
     Some (check_processor market 1))))))"

definition test_delete_order_removes_from_book_only :: "build \<Rightarrow> u64 \<Rightarrow> unit res option" where
  "test_delete_order_removes_from_book_only b now_secs =
     (let check_processor = (\<lambda>market i.
        r_bind (index (ms_processors market) i) (\<lambda>processor.
        r_bind (assert_that (get_best_bid (sp_order_book processor) = None)) (\<lambda>_.
        assert_that (length (tt_trades (sp_ticker processor)) = 0))))
      in o_bind (setup_multi_stock_market b now_secs [(''AAPL'', 50), (''MSFT'', 120)]) (\<lambda>market.
     o_bind (feed_all b
       [packet_of CHR ''A'' 50 100 2500 0 0 CHR ''B'' ''AAPL'',
        packet_of CHR ''D'' 50 100 2500 0 0 CHR '' '' ''AAPL''] (market, [])) (\<lambda>(market, gateway).
     o_bind (Some (check_processor market 0)) (\<lambda>_.
     o_bind (feed_all b
       [packet_of CHR ''A'' 120 100 2500 0 0 CHR ''B'' ''MSFT'',
        packet_of CHR ''D'' 120 100 2500 0 0 CHR '' '' ''MSFT''] (market, gateway)) (\<lambda>(market, gateway).
     Some (check_processor market 1))))))"

definition test_non_displayable_trade_updates_ticker_only :: "build \<Rightarrow> u64 \<Rightarrow> unit res option" where
  "test_non_displayable_trade_updates_ticker_only b now_secs =
     (let check_processor = (\<lambda>market i.
        r_bind (index (ms_processors market) i) (\<lambda>processor.
        r_bind (assert_that (get_best_bid (sp_order_book processor) = None)) (\<lambda>_.
        r_bind (assert_that (tt_total_volume (sp_ticker processor) = 6000)) (\<lambda>_.
        assert_that (tt_last_sale (sp_ticker processor) = 555)))))
      in o_bind (setup_multi_stock_market b now_secs [(''AAPL'', 50), (''MSFT'', 120), (''NVDA'', 456)]) (\<lambda>market.
     o_bind (feed b (packet_of CHR ''P'' 50 100 6000 555 0 CHR ''S'' ''AAPL'') (market, [])) (\<lambda>(market, gateway).
     o_bind (Some (check_processor market 0)) (\<lambda>_.
     o_bind (feed b (packet_of CHR ''P'' 120 100 6000 555 0 CHR ''S'' ''MSFT'') (market, gateway)) (\<lambda>(market, gateway).
     o_bind (Some (check_processor market 1)) (\<lambda>_.
     o_bind (feed b (packet_of CHR ''P'' 456 100 6000 555 0 CHR ''S'' ''NVDA'') (market, gateway)) (\<lambda>(market, gateway).
     Some (check_processor market 2))))))))"

definition test_end_to_end_add_and_execute :: "build \<Rightarrow> u64 \<Rightarrow> unit res option" where
  "test_end_to_end_add_and_execute b now_secs =
     o_bind (setup_multi_stock_market b now_secs [(''AAPL'', 50), (''MSFT'', 120)]) (\<lambda>market.
     o_bind (feed b (packet_of CHR ''A'' 50 100 1500000 100 0 CHR ''B'' ''AAPL'') (market, [])) (\<lambda>(market, gateway).
     o_bind (Some (
       r_bind (index (ms_processors market) 0) (\<lambda>processor_appl.
       r_bind (unwrap (get_best_bid (sp_order_book processor_appl))) (\<lambda>(p, q).
       r_bind (assert_that (q = 1500000)) (\<lambda>_. assert_that (p = 100)))))) (\<lambda>_.
     o_bind (feed b (packet_of CHR ''E'' 50 100 1499000 0 8888 CHR '' '' ''APPL'') (market, gateway)) (\<lambda>(market, gateway).
     Some (
       r_bind (index (ms_processors market) 0) (\<lambda>processor_appl.
       r_bind (unwrap (get_best_bid (sp_order_book processor_appl))) (\<lambda>(_, remaining_quantity).
       r_bind (assert_that (remaining_quantity = 1000)) (\<lambda>_.
       r_bind (assert_trade processor_appl 100 1499000 8888) (\<lambda>_.
       r_bind (index (tt_trades (sp_ticker processor_appl)) 0) (\<lambda>trade.
       assert_that (tr_side trade = Seller)))))))))))"

lemma slots: "slot_index 0 = 0" "slot_index 1 = 1" "slot_index 2 = 2"
  by (simp_all add: slot_index_def)

text \<open>A market event of these tests: the processor found through the table gets the message.\<close>

definition event_at ::
    "build \<Rightarrow> u64 \<Rightarrow> (u16 \<Rightarrow> i16) \<Rightarrow> simple_mid_point symbol_processor list \<Rightarrow> u64 \<Rightarrow> byte list list
     \<Rightarrow> itch_message \<Rightarrow> order_command list \<Rightarrow> nat \<Rightarrow> test_state res" where
  "event_at b now_secs table ps n w msg g i =
     r_bind (handle_event b (mid_point_ops b) mock_ops list_writer (ps ! i) msg w g n (midnight_of now_secs))
       (\<lambda>(p', w', g', n'). Inr (market_of now_secs table (ps[i := p']) n' w', g'))"

lemma dispatch_at:
  assumes "table (get_locate_from_msg msg) \<noteq> - 1" "slot_index (table (get_locate_from_msg msg)) < length ps"
  shows "dispatch_event b (mid_point_ops b) mock_ops list_writer (market_of now_secs table ps n w) msg g =
    event_at b now_secs table ps n w msg g (slot_index (table (get_locate_from_msg msg)))"
  using assms
  by (simp add: dispatch_event_def market_of_def event_at_def Let_def case_prod_beta)

lemma market_clock:
  "(market_of now_secs table ps n w)\<lparr>ms_current_time_ns := ms_midnight_today_ns (market_of now_secs table ps n w)\<rparr> =
   market_of now_secs table ps n w"
  "ms_processors (market_of now_secs table ps n w) = ps" "ms_telemetry_writer (market_of now_secs table ps n w) = w"
  by (simp_all add: market_of_def)

lemmas feed_eval = feed_built market_clock filter_message_for_symbols_def dispatch_at event_at_def one_sided_event located_def new_processor_def book_eval
  trade_and_cancel_def add_trade_def new_ticker_def slots assert_trade_def

lemma market_tests_pass:
  assumes "clock_ok now_secs"
  shows "test_multi_stock_routing_isolation b now_secs = Some (Inr ())"
    and "test_modify_order_does_not_create_trade b now_secs = Some (Inr ())"
    and "test_execute_order_e_creates_trade_with_book_price b now_secs = Some (Inr ())"
    and "test_execute_with_price_c_overrides_book_price b now_secs = Some (Inr ())"
    and "test_delete_order_removes_from_book_only b now_secs = Some (Inr ())"
    and "test_non_displayable_trade_updates_ticker_only b now_secs = Some (Inr ())"
    and "test_end_to_end_add_and_execute b now_secs = Some (Inr ())"
  subgoal by (simp add: test_multi_stock_routing_isolation_def setup_duo [OF assms] feed_eval)
  subgoal by (simp add: test_modify_order_does_not_create_trade_def setup_single [OF assms] feed_eval)
  subgoal by (simp add: test_execute_order_e_creates_trade_with_book_price_def setup_duo [OF assms] feed_eval)
  subgoal by (simp add: test_execute_with_price_c_overrides_book_price_def setup_duo [OF assms] feed_eval)
  subgoal by (simp add: test_delete_order_removes_from_book_only_def setup_duo [OF assms] feed_eval)
  subgoal by (simp add: test_non_displayable_trade_updates_ticker_only_def setup_trio [OF assms] feed_eval)
  subgoal by (simp add: test_end_to_end_add_and_execute_def setup_duo [OF assms] feed_eval)
  done

definition test_stragety_mid_price_calc :: "build \<Rightarrow> u64 \<Rightarrow> unit res option" where
  "test_stragety_mid_price_calc b now_secs =
     (let check_processor = (\<lambda>market i bid ask mid.
        r_bind (index (ms_processors market) i) (\<lambda>processor.
        r_bind (assert_that (get_best_bid (sp_order_book processor) = Some bid)) (\<lambda>_.
        r_bind (assert_that (get_best_ask (sp_order_book processor) = Some ask)) (\<lambda>_.
        assert_that (fl_eq (sm_mid_price (sp_strategy processor)) (fl_of_nat f64 mid))))))
      in o_bind (setup_multi_stock_market b now_secs [(''AAPL'', 50), (''MSFT'', 120)]) (\<lambda>market.
     o_bind (feed_all b
       [packet_of CHR ''A'' 50 100 1000 80 0 CHR ''B'' ''AAPL'',
        packet_of CHR ''A'' 50 100 1100 90 0 CHR ''S'' ''AAPL''] (market, [])) (\<lambda>(market, gateway).
     o_bind (Some (check_processor market 0 (80, 1000) (90, 1100) 85)) (\<lambda>_.
     o_bind (feed_all b
       [packet_of CHR ''A'' 120 100 1000 200 0 CHR ''B'' ''MSFT'',
        packet_of CHR ''A'' 120 100 1100 300 0 CHR ''S'' ''MSFT''] (market, gateway)) (\<lambda>(market, gateway).
     Some (check_processor market 1 (200, 1000) (300, 1100) 250))))))"

lemma ops_simps:
  "st_on_book_update (mid_point_ops b) = on_book_update b" "st_on_trade (mid_point_ops b) = on_trade b"
  "gw_send_order mock_ops sent cmd = Inr (sent @ [cmd])" "gw_get_position mock_ops sent loc = 0"
  "gw_get_cash_balance mock_ops sent loc = 0" "wr_write list_writer w bs = Inr (w @ [bs])"
  by (simp_all add: mid_point_ops_def mock_ops_def list_writer_def)

lemmas two_sided_eval = run_strategy_def strategy_eval midpoint_def quote_price_def
  send_telemetry_def mul_s_def add_s_def fits_s_def ops_simps

lemma strategy_test_passes:
  assumes "clock_ok now_secs"
  shows "test_stragety_mid_price_calc b now_secs = Some (Inr ())"
  by (simp add: test_stragety_mid_price_calc_def setup_duo [OF assms] feed_eval two_sided_eval fl_eq_def)

section \<open>Orders filled by the test\<close>

text \<open>\<open>&mut market.processors[i]\<close>\<close>

definition with_processor ::
    "nat \<Rightarrow> (simple_mid_point symbol_processor \<Rightarrow> simple_mid_point symbol_processor res) \<Rightarrow> test_market
     \<Rightarrow> test_market res" where
  "with_processor i f market =
     r_bind (index (ms_processors market) i) (\<lambda>p. r_bind (f p) (\<lambda>p'.
     Inr (market\<lparr>ms_processors := (ms_processors market)[i := p']\<rparr>)))"

text \<open>The order in which a \<open>HashSet\<close> is iterated is not specified: it is a parameter, of which only
  that it lists the elements of the set once each is used.\<close>

definition iterates :: "(u64 set \<Rightarrow> u64 list) \<Rightarrow> bool" where
  "iterates iter \<longleftrightarrow> (\<forall>S. finite S \<longrightarrow> set (iter S) = S \<and> distinct (iter S))"

text \<open>The loops of the tests that give the strategy its 100 shares of every open order and clear the
  tracker.\<close>

fun fill_orders ::
    "build \<Rightarrow> u64 \<Rightarrow> u64 list \<Rightarrow> simple_mid_point symbol_processor
     \<Rightarrow> simple_mid_point symbol_processor res" where
  "fill_orders b price [] p = Inr p"
| "fill_orders b price (oid # open_orders) p =
     r_bind (on_trade b (sp_strategy p) price 100 Buyer) (\<lambda>(s', _).
     fill_orders b price open_orders
       (p\<lparr>sp_strategy := s', sp_order_tracker := sp_order_tracker p - {oid}\<rparr>))"

definition fill_open_orders ::
    "build \<Rightarrow> (u64 set \<Rightarrow> u64 list) \<Rightarrow> u64 \<Rightarrow> simple_mid_point symbol_processor
     \<Rightarrow> simple_mid_point symbol_processor res" where
  "fill_open_orders b iter price p = fill_orders b price (iter (sp_order_tracker p)) p"

definition test_strategy_lifecycle_buy_and_position_lock ::
    "build \<Rightarrow> (u64 set \<Rightarrow> u64 list) \<Rightarrow> u64 \<Rightarrow> unit res option" where
  "test_strategy_lifecycle_buy_and_position_lock b iter now_secs =
     (let check_processor = (\<lambda>market.
        r_bind (index (ms_processors market) 0) (\<lambda>processor.
        r_bind (assert_that (sm_position (sp_strategy processor) = 100)) (\<lambda>_.
        assert_that (sm_trade_count (sp_strategy processor) = 1))))
      in o_bind (setup_multi_stock_market b now_secs [(''AAPL'', 10), (''MSFT'', 120)]) (\<lambda>market.
     o_bind (Some (with_processor 0
       (\<lambda>p. Inr (p\<lparr>sp_strategy := (sp_strategy p)\<lparr>sm_mid_price := fl_of_nat f64 14990\<rparr>\<rparr>)) market)) (\<lambda>market.
     o_bind (feed_all b
       [packet_of CHR ''A'' 10 101 10000 15000 0 CHR ''B'' ''AAPL'',
        packet_of CHR ''A'' 10 102 100 15010 0 CHR ''S'' ''AAPL''] (market, [])) (\<lambda>(market, gateway).
     o_bind (Some (with_processor 0 (fill_open_orders b iter 15010) market)) (\<lambda>market.
     o_bind (Some (check_processor market)) (\<lambda>_.
     o_bind (feed b (packet_of CHR ''A'' 10 103 100 15010 0 CHR ''S'' ''AAPL'') (market, gateway))
       (\<lambda>(market, gateway).
     Some (check_processor market))))))))"

lemma iterates_single:
  assumes "iterates iter" shows "iter {} = []" "iter {x} = [x]"
proof -
  have e: "set (iter {}) = {}" and x: "set (iter {x}) = {x}" "distinct (iter {x})"
    using assms by (simp_all add: iterates_def)
  show "iter {} = []" using e by simp
  have "length (iter {x}) = 1" using distinct_card [OF x(2)] x(1) by simp
  then show "iter {x} = [x]" using x(1) by (auto simp: length_Suc_conv)
qed

lemma with_processor_market:
  "i < length ps \<Longrightarrow> with_processor i f (market_of now_secs table ps n w) =
   r_bind (f (ps ! i)) (\<lambda>p'. Inr (market_of now_secs table (ps[i := p']) n w))"
  by (simp add: with_processor_def market_of_def)

lemma lifecycle_test_passes:
  assumes "clock_ok now_secs" "iterates iter"
  shows "test_strategy_lifecycle_buy_and_position_lock b iter now_secs = Some (Inr ())"
  by (simp add: test_strategy_lifecycle_buy_and_position_lock_def setup_duo [OF assms(1)] with_processor_market
      feed_eval two_sided_eval check_def band_violation_def band_002_value new_risk_def abs_s_def
      iterates_single [OF assms(2)] fill_open_orders_def on_trade_def)

section \<open>The saturation of the risk limit\<close>

text \<open>Round \<open>i\<close> of the loop of \<open>test_market_handler_risk_saturation_full_itch\<close>: a bid of 9000 shares
  one tick above the last one, then the fill of whatever order is open. \<open>i\<close> is an \<open>i32\<close>.\<close>

definition saturation_round ::
    "build \<Rightarrow> (u64 set \<Rightarrow> u64 list) \<Rightarrow> i32 \<Rightarrow> test_state \<Rightarrow> test_state res option" where
  "saturation_round b iter i s =
     o_bind (Some (add_s b 200 i)) (\<lambda>oid.
     o_bind (Some (add_u b 15000 i)) (\<lambda>price.
     o_bind (feed b (packet_of CHR ''A'' 1 (scast oid) 9000 price 0 CHR ''B'' ''AAPL'') s) (\<lambda>(market, gateway).
     o_bind (Some (with_processor 0 (fill_open_orders b iter 15000) market)) (\<lambda>market.
     Some (Inr (market, gateway))))))"

text \<open>The rounds \<open>1..=n\<close>.\<close>

fun saturation_rounds ::
    "build \<Rightarrow> (u64 set \<Rightarrow> u64 list) \<Rightarrow> nat \<Rightarrow> test_state \<Rightarrow> test_state res option" where
  "saturation_rounds b iter 0 s = Some (Inr s)"
| "saturation_rounds b iter (Suc n) s =
     o_bind (saturation_rounds b iter n s) (saturation_round b iter (word_of_nat (Suc n)))"

definition saturation_market :: "build \<Rightarrow> u64 \<Rightarrow> test_state res option" where
  "saturation_market b now_secs =
     o_bind (setup_test_market b now_secs ''AAPL'' 1) (\<lambda>market.
     o_bind (Some (with_processor 0
       (\<lambda>p. Inr (p\<lparr>sp_risk_engine := (sp_risk_engine p)\<lparr>lr_max_absolute_position := 5000\<rparr>\<rparr>)) market)) (\<lambda>market.
     feed b (packet_of CHR ''A'' 1 100 1000 15100 0 CHR ''S'' ''AAPL'') (market, [])))"

definition test_market_handler_risk_saturation_full_itch ::
    "build \<Rightarrow> (u64 set \<Rightarrow> u64 list) \<Rightarrow> u64 \<Rightarrow> unit res option" where
  "test_market_handler_risk_saturation_full_itch b iter now_secs =
     o_bind (saturation_market b now_secs) (\<lambda>s.
     o_bind (saturation_rounds b iter 51 s) (\<lambda>(market, _).
     Some (
       r_bind (index (ms_processors market) 0) (\<lambda>processor.
       r_bind (assert_that (lr_current_position (sp_risk_engine processor) = 5000)) (\<lambda>_.
       assert_that (sm_position (sp_strategy processor) = 5000))))))"

text \<open>The bids after \<open>n\<close> rounds, and the invariant of the loop.\<close>

definition bid_ladder :: "nat \<Rightarrow> (u64, u32) btree" where
  "bid_ladder n = map (\<lambda>k. (word_of_nat (15000 + k), 9000)) [1..<Suc n]"

definition ladder_strategy :: "nat \<Rightarrow> simple_mid_point \<Rightarrow> bool" where
  "ladder_strategy n s \<longleftrightarrow> sm_imbalance_threshold s = threshold_08 \<and>
     mid_is s (if n = 0 then 0 else 30100 + n) \<and> unat (sm_next_order_id s) = Suc n \<and>
     sm_position s = word_of_nat (100 * min n 50) \<and> sm_trade_count s = word_of_nat (min n 50)"

definition ladder_processor :: "nat \<Rightarrow> simple_mid_point symbol_processor \<Rightarrow> bool" where
  "ladder_processor n p \<longleftrightarrow> sp_stock_locate p = 1 \<and> ob_bids (sp_order_book p) = bid_ladder n \<and>
     ob_asks (sp_order_book p) = [(15100, 1000)] \<and> sp_order_tracker p = {} \<and>
     ladder_strategy n (sp_strategy p) \<and>
     sp_risk_engine p = (new_risk 1000 band_002 5000)\<lparr>lr_current_position := word_of_nat (100 * min n 50)\<rparr>"

definition ladder_state :: "u64 \<Rightarrow> nat \<Rightarrow> test_state \<Rightarrow> bool" where
  "ladder_state now_secs n s \<longleftrightarrow>
     (\<exists>p w g. s = (market_of now_secs ((\<lambda>_. - 1)(1 := 0)) [p] (word_of_nat (min n 50)) w, g) \<and>
        ladder_processor n p \<and> length g = min n 50)"

lemma bt_above:
  assumes "\<forall>e\<in>set m. fst e < k"
  shows "bt_get m k = None" "bt_insert k v m = m @ [(k, v)]"
  using assms by (induction m) (auto simp: not_less_iff_gr_or_eq)

lemma bt_last_append: "bt_last (m @ [e]) = Some e"
  by (induction m) (auto split: option.split)

lemma word_of_nat_less_64: "a < b \<Longrightarrow> b < 2 ^ 64 \<Longrightarrow> (word_of_nat a :: u64) < word_of_nat b"
  by (simp add: word_less_nat_alt unat_of_nat)

lemma ladder_above:
  assumes "n < 2147483447" shows "\<forall>e\<in>set (bid_ladder n). fst e < word_of_nat (15000 + Suc n)"
  using assms by (auto simp: bid_ladder_def simp del: of_nat_add of_nat_Suc intro!: word_of_nat_less_64)

lemma bid_ladder_Suc: "bid_ladder (Suc n) = bid_ladder n @ [(word_of_nat (15000 + Suc n), 9000)]"
  by (simp add: bid_ladder_def)

lemma ladder_apply:
  assumes "n < 2147483447" "ladder_processor n p"
  obtains p1 where "apply_message b p (AddOrder 1 oid Buy 9000 (word_of_nat (15000 + Suc n))) = Inr p1"
    and "p1 = p\<lparr>sp_order_book := sp_order_book p1\<rparr>"
    and "ob_bids (sp_order_book p1) = bid_ladder (Suc n)" "ob_asks (sp_order_book p1) = [(15100, 1000)]"
  using assms bt_above [OF ladder_above [OF assms(1)]]
  by (simp add: add_order_def ladder_processor_def add_u_def Let_def bid_ladder_Suc del: of_nat_add of_nat_Suc)

text \<open>The signal of every round is to buy 100 shares at the offer: the new bid is 90 percent of the
  best quotes and the midpoint has risen by half a tick.\<close>

lemma ladder_signal:
  assumes "n < 2147483447" "ladder_strategy n s"
  obtains s' oid where
    "on_book_update b s (Some (word_of_nat (15000 + Suc n), 9000)) (Some (15100, 1000)) =
       Inr (s', Some \<lparr>oc_symbol_locate = 0, oc_order_id = oid, oc_price = 15100, oc_quantity = 100,
                      oc_side = OrderBuy\<rparr>)"
    and "sm_imbalance_threshold s' = threshold_08" "mid_is s' (30100 + Suc n)"
    and "unat (sm_next_order_id s') = Suc (Suc n)"
    and "sm_position s' = sm_position s" "sm_trade_count s' = sm_trade_count s"
proof -
  let ?prev = "if n = 0 then 0 else 30100 + n" and ?bp = "word_of_nat (15000 + Suc n) :: u64"
  have s: "sm_imbalance_threshold s = threshold_08" "mid_is s ?prev" "unat (sm_next_order_id s) = Suc n"
    "sm_position s = word_of_nat (100 * min n 50)"
    using assms(2) by (simp_all add: ladder_strategy_def)
  have bp: "unat ?bp = 15000 + Suc n" using assms(1) by (simp add: unat_of_nat del: of_nat_add of_nat_Suc)
  have "uint (sm_position s) = int (100 * min n 50)"
    unfolding s(4) by (simp add: uint_word_of_int unsigned_of_nat take_bit_nat_eq_self del: of_nat_mult)
  then have pos: "sint (sm_position s) \<le> 5000" using sint_eq_uint [of "sm_position s"] by simp
  have id: "unat (sm_next_order_id s + 1) = Suc (Suc n)"
    using add_u_exact(2) [of "sm_next_order_id s" 1] s(3) assms(1) by simp
  have prev: "?prev < 30100 + Suc n" by simp
  have sg: "signal_spec ?prev (unat ?bp) (unat (9000 :: u32)) (unat (15100 :: u64)) (unat (1000 :: u32))
      (sint (sm_position s)) = Go_Long"
    unfolding bp using pos prev by (simp add: signal_spec_def)
  have "unat ?bp + unat (15100 :: u64) \<le> 2 ^ 53" "unat (9000 :: u32) + unat (1000 :: u32) < 2 ^ 32"
    "unat (sm_next_order_id s) < 2 ^ 64 - 1"
    unfolding bp s(3) using assms(1) by simp_all
  from on_book_update_exact [OF s(1,2) this, of b, unfolded sg]
  obtain s' where upd: "on_book_update b s (Some (?bp, 9000)) (Some (15100, 1000)) =
      Inr (s', signal_order Go_Long (sm_next_order_id s) ?bp 15100)"
    and after: "after_update s (unat ?bp + unat (15100 :: u64)) Go_Long s'"
    by blast
  have sum: "unat ?bp + unat (15100 :: u64) = 30100 + Suc n" unfolding bp by simp
  show ?thesis
    using that [of s' "sm_next_order_id s"] upd after [unfolded sum] s(1) id
    by (simp add: signal_order_def after_update_def del: of_nat_add of_nat_Suc)
qed

abbreviation ladder_risk :: "nat \<Rightarrow> local_risk" where
  "ladder_risk n \<equiv> (new_risk 1000 band_002 5000)\<lparr>lr_current_position := word_of_nat (100 * min n 50)\<rparr>"

lemma ladder_check:
  assumes "oc_price cmd = 15100" "oc_quantity cmd = 100" "oc_side cmd = OrderBuy"
  shows "n < 50 \<Longrightarrow> check b (ladder_risk n) cmd bid (Some (15100, 1000)) = Inr (ladder_risk (Suc n), Pass)"
    and "50 \<le> n \<Longrightarrow> \<exists>reason. check b (ladder_risk n) cmd bid (Some (15100, 1000)) = Inr (ladder_risk n, Fail reason)"
proof -
  have si: "sint (word_of_nat c :: i32) = int c" if "c < 2 ^ 31" for c
  proof -
    have "uint (word_of_nat c :: i32) = int c"
      using that by (simp add: unsigned_of_nat take_bit_nat_eq_self)
    then show ?thesis using sint_eq_uint [of "word_of_nat c :: i32"] that by simp
  qed
  have band: "band_violation band_002 cmd bid (Some (15100, 1000)) = None"
    by (rule inside_band_passes) (simp_all add: inside_band_def assms)
  have step: "add_s b (word_of_nat c) 100 = Inr (word_of_nat (c + 100) :: i32)" if "c \<le> 5000" for c
    using si [of c] that by (simp add: add_s_def fits_s_def)
  have abs: "abs_s b (word_of_nat c :: i32) = Inr (word_of_nat c)" if "c \<le> 5100" for c
    using si [of c] that by (simp add: abs_s_def)
  show "check b (ladder_risk n) cmd bid (Some (15100, 1000)) = Inr (ladder_risk (Suc n), Pass)" if "n < 50"
  proof -
    have m: "100 * min n 50 = 100 * n" "100 * min (Suc n) 50 = 100 * n + 100" using that by auto
    show ?thesis
      unfolding m using that step [of "100 * n"] abs [of "100 * n + 100"] si [of "100 * n + 100"]
      by (simp add: check_def new_risk_def assms band del: of_nat_add of_nat_mult)
  qed
  show "\<exists>reason. check b (ladder_risk n) cmd bid (Some (15100, 1000)) = Inr (ladder_risk n, Fail reason)" if "50 \<le> n"
  proof -
    have m: "100 * min n 50 = 5000" using that by auto
    show ?thesis
      unfolding m using step [of 5000] abs [of 5100] by (simp add: check_def new_risk_def assms)
  qed
qed

lemma ladder_quotes:
  assumes "ob_bids bk = bid_ladder (Suc n)" "ob_asks bk = [(15100, 1000)]"
  shows "get_best_bid bk = Some (word_of_nat (15000 + Suc n), 9000)" "get_best_ask bk = Some (15100, 1000)"
  using assms by (simp_all add: get_best_bid_def get_best_ask_def bid_ladder_Suc bt_last_append)

text \<open>The strategy's part of a round: an order is sent while the limit is not reached and rejected
  afterwards.\<close>

lemma ladder_run:
  assumes "n < 2147483447" "ladder_strategy n (sp_strategy p)" "sp_risk_engine p = ladder_risk n"
    and "ob_bids (sp_order_book p) = bid_ladder (Suc n)" "ob_asks (sp_order_book p) = [(15100, 1000)]"
    and "sp_order_tracker p = {}"
  obtains s' g' where
    "run_strategy b (mid_point_ops b) mock_ops p g (word_of_nat (min n 50)) =
       Inr (p\<lparr>sp_strategy := s', sp_risk_engine := ladder_risk (Suc n),
             sp_order_tracker := (if n < 50 then {word_of_nat n} else {})\<rparr>, g', word_of_nat (min (Suc n) 50))"
    and "length g' = (if n < 50 then Suc (length g) else length g)"
    and "sm_imbalance_threshold s' = threshold_08" "mid_is s' (30100 + Suc n)"
    and "unat (sm_next_order_id s') = Suc (Suc n)"
    and "sm_position s' = sm_position (sp_strategy p)" "sm_trade_count s' = sm_trade_count (sp_strategy p)"
proof -
  define bp where "bp = (word_of_nat (15000 + Suc n) :: u64)"
  note q = ladder_quotes [OF assms(4,5), folded bp_def]
  obtain s' oid where upd: "on_book_update b (sp_strategy p) (Some (bp, 9000)) (Some (15100, 1000)) =
       Inr (s', Some \<lparr>oc_symbol_locate = 0, oc_order_id = oid, oc_price = 15100, oc_quantity = 100,
                      oc_side = OrderBuy\<rparr>)"
    and s': "sm_imbalance_threshold s' = threshold_08" "mid_is s' (30100 + Suc n)"
      "unat (sm_next_order_id s') = Suc (Suc n)"
      "sm_position s' = sm_position (sp_strategy p)" "sm_trade_count s' = sm_trade_count (sp_strategy p)"
    using ladder_signal [OF assms(1,2)] unfolding bp_def by blast
  define cmd where "cmd = \<lparr>oc_symbol_locate = sp_stock_locate p, oc_order_id = oid, oc_price = 15100,
    oc_quantity = 100, oc_side = OrderBuy\<rparr>"
  have cmd: "oc_price cmd = 15100" "oc_quantity cmd = 100" "oc_side cmd = OrderBuy" by (simp_all add: cmd_def)
  define r where "r = ladder_risk n"
  have r: "sp_risk_engine p = r" using assms(3) by (simp add: r_def)
  show ?thesis
  proof (cases "n < 50")
    case True
    define r' where "r' = ladder_risk (Suc n)"
    have chk: "check b r cmd (Some (bp, 9000)) (Some (15100, 1000)) = Inr (r', Pass)"
      unfolding r_def r'_def by (rule ladder_check(1) [OF cmd True])
    have m: "min n 50 = n" "min (Suc n) 50 = Suc n" using True by auto
    have ids: "add_u b (word_of_nat n :: u64) 1 = Inr (word_of_nat (Suc n))"
      using True by (simp add: add_u_def unat_of_nat)
    have "run_strategy b (mid_point_ops b) mock_ops p g (word_of_nat n) =
       Inr (p\<lparr>sp_strategy := s', sp_risk_engine := r', sp_order_tracker := {word_of_nat n}\<rparr>,
         g @ [cmd\<lparr>oc_order_id := word_of_nat n\<rparr>], word_of_nat (Suc n))"
      using chk by (simp add: run_strategy_def q upd ops_simps assms(6) ids r cmd_def Let_def del: of_nat_Suc)
    then show ?thesis using that [unfolded m] True s' by (auto simp: r'_def m simp del: of_nat_Suc)
  next
    case False
    then obtain reason where chk: "check b r cmd (Some (bp, 9000)) (Some (15100, 1000)) = Inr (r, Fail reason)"
      using ladder_check(2) [OF cmd] unfolding r_def by (metis leI)
    have m: "min n 50 = 50" "min (Suc n) 50 = 50" using False by auto
    have "run_strategy b (mid_point_ops b) mock_ops p g (word_of_nat 50) =
       Inr (p\<lparr>sp_strategy := s', sp_risk_engine := r, sp_order_tracker := {}\<rparr>, g, word_of_nat 50)"
      using chk by (simp add: run_strategy_def q upd r assms(6) ops_simps cmd_def Let_def)
    then show ?thesis using that [unfolded m] False s' by (auto simp: r_def m simp del: of_nat_numeral)
  qed
qed

lemma telemetry_mock:
  assumes "get_best_bid (sp_order_book p) = Some (bp, bq)" "get_best_ask (sp_order_book p) = Some (ap, aq)"
    and "unat bp + unat ap < 2 ^ 64"
  obtains mp w' where "send_telemetry b mock_ops list_writer p w g t = Inr (p\<lparr>sp_last_midpoint := mp\<rparr>, w')"
proof -
  have "midpoint b (sp_order_book p) = Inr (if 0 < bp \<and> 0 < ap then ucast ((bp + ap) div 2) else 0)"
    using assms add_u_exact(1) [of bp ap b] by (simp add: midpoint_def quote_price_def)
  then have "\<exists>mp w'. send_telemetry b mock_ops list_writer p w g t = Inr (p\<lparr>sp_last_midpoint := mp\<rparr>, w')"
    by (auto simp: send_telemetry_def ops_simps mul_s_def add_s_def fits_s_def Let_def
        intro: exI [of _ "sp_last_midpoint p"])
  then show ?thesis using that by blast
qed

text \<open>The fill of the round: the order the strategy has just sent, if any.\<close>

lemma ladder_fill:
  assumes "iterates iter" "n < 2147483447"
    and "sp_order_tracker p = (if n < 50 then {word_of_nat n} else {})"
    and "sm_position (sp_strategy p) = word_of_nat (100 * min n 50)"
    and "sm_trade_count (sp_strategy p) = word_of_nat (min n 50)"
  shows "fill_open_orders b iter 15000 p =
    Inr (p\<lparr>sp_strategy := (sp_strategy p)\<lparr>sm_trade_count := word_of_nat (min (Suc n) 50),
           sm_position := word_of_nat (100 * min (Suc n) 50)\<rparr>, sp_order_tracker := {}\<rparr>)"
proof (cases "n < 50")
  case True
  have m: "min n 50 = n" "min (Suc n) 50 = Suc n" using True by auto
  have ids: "add_u b (word_of_nat n :: u64) 1 = Inr (word_of_nat (Suc n))"
    using True by (simp add: add_u_def unat_of_nat)
  have "uint (word_of_nat (100 * n) :: i32) = int (100 * n)"
    using True by (simp add: unsigned_of_nat take_bit_nat_eq_self del: of_nat_mult)
  then have "sint (word_of_nat (100 * n) :: i32) = int (100 * n)"
    using True sint_eq_uint [of "word_of_nat (100 * n) :: i32"] by simp
  then have pos: "add_s b (word_of_nat (100 * n)) 100 = Inr (word_of_nat (100 * Suc n) :: i32)"
    using True by (simp add: add_s_def fits_s_def)
  show ?thesis
    using assms(3-5) True ids pos
    by (simp add: fill_open_orders_def iterates_single [OF assms(1)] on_trade_def m del: of_nat_Suc of_nat_mult)
next
  case False
  have m: "min n 50 = 50" "min (Suc n) 50 = 50" using False by auto
  show ?thesis
    using assms(3-5) False
    by (simp add: fill_open_orders_def iterates_single [OF assms(1)] m)
qed

lemma ladder_event:
  assumes "n < 2147483447" "ladder_processor n p" "iterates iter"
  obtains p' w' g' p'' where
    "handle_event b (mid_point_ops b) mock_ops list_writer p
       (AddOrder 1 oid Buy 9000 (word_of_nat (15000 + Suc n))) w g (word_of_nat (min n 50)) t =
       Inr (p', w', g', word_of_nat (min (Suc n) 50))"
    and "length g' = (if n < 50 then Suc (length g) else length g)"
    and "fill_open_orders b iter 15000 p' = Inr p''" "ladder_processor (Suc n) p''"
proof -
  obtain p1 where app: "apply_message b p (AddOrder 1 oid Buy 9000 (word_of_nat (15000 + Suc n))) = Inr p1"
    and p1: "p1 = p\<lparr>sp_order_book := sp_order_book p1\<rparr>"
    and bk: "ob_bids (sp_order_book p1) = bid_ladder (Suc n)" "ob_asks (sp_order_book p1) = [(15100, 1000)]"
    using ladder_apply [OF assms(1,2)] by blast
  have p1s: "sp_strategy p1 = sp_strategy p" "sp_risk_engine p1 = ladder_risk n" "sp_order_tracker p1 = {}"
    "sp_stock_locate p1 = 1" "ladder_strategy n (sp_strategy p1)"
    using assms(2) by (subst p1; simp add: ladder_processor_def)+
  obtain s' g' where run: "run_strategy b (mid_point_ops b) mock_ops p1 g (word_of_nat (min n 50)) =
       Inr (p1\<lparr>sp_strategy := s', sp_risk_engine := ladder_risk (Suc n),
             sp_order_tracker := (if n < 50 then {word_of_nat n} else {})\<rparr>, g', word_of_nat (min (Suc n) 50))"
    and g': "length g' = (if n < 50 then Suc (length g) else length g)"
    and s': "sm_imbalance_threshold s' = threshold_08" "mid_is s' (30100 + Suc n)"
      "unat (sm_next_order_id s') = Suc (Suc n)"
      "sm_position s' = sm_position (sp_strategy p1)" "sm_trade_count s' = sm_trade_count (sp_strategy p1)"
    by (rule ladder_run [OF assms(1) p1s(5,2) bk p1s(3), of b g])
  let ?p2 = "p1\<lparr>sp_strategy := s', sp_risk_engine := ladder_risk (Suc n),
    sp_order_tracker := (if n < 50 then {word_of_nat n} else {})\<rparr>"
  have q: "get_best_bid (sp_order_book ?p2) = Some (word_of_nat (15000 + Suc n), 9000)"
    "get_best_ask (sp_order_book ?p2) = Some (15100, 1000)"
    using ladder_quotes [OF bk] by simp_all
  have "unat (word_of_nat (15000 + Suc n) :: u64) + unat (15100 :: u64) < 2 ^ 64"
    using assms(1) by (simp add: unat_of_nat del: of_nat_add of_nat_Suc)
  then obtain mp w' where tel: "send_telemetry b mock_ops list_writer ?p2 w g' t = Inr (?p2\<lparr>sp_last_midpoint := mp\<rparr>, w')"
    using telemetry_mock [OF q] by blast
  have ev: "handle_event b (mid_point_ops b) mock_ops list_writer p
       (AddOrder 1 oid Buy 9000 (word_of_nat (15000 + Suc n))) w g (word_of_nat (min n 50)) t =
       Inr (?p2\<lparr>sp_last_midpoint := mp\<rparr>, w', g', word_of_nat (min (Suc n) 50))"
    by (simp only: handle_event_def app run tel r_bind.simps prod.case)
  have sp: "sm_position s' = word_of_nat (100 * min n 50)" "sm_trade_count s' = word_of_nat (min n 50)"
    using s'(4,5) p1s(5) by (simp_all add: ladder_strategy_def)
  have "\<exists>p''. fill_open_orders b iter 15000 (?p2\<lparr>sp_last_midpoint := mp\<rparr>) = Inr p'' \<and> ladder_processor (Suc n) p''"
    using ladder_fill [OF assms(3,1), of "?p2\<lparr>sp_last_midpoint := mp\<rparr>" b] sp s'(1-3) bk p1s(4)
    by (simp add: ladder_processor_def ladder_strategy_def mid_is_def)
  then show ?thesis using that [OF ev g'] by blast
qed

lemma ladder_round:
  assumes "iterates iter" "n < 2147483447" "ladder_state now_secs n s"
  shows "\<exists>s'. saturation_round b iter (word_of_nat (Suc n)) s = Some (Inr s') \<and> ladder_state now_secs (Suc n) s'"
proof -
  obtain p w g where s: "s = (market_of now_secs ((\<lambda>_. - 1)(1 := 0)) [p] (word_of_nat (min n 50)) w, g)"
    and p: "ladder_processor n p" and g: "length g = min n 50"
    using assms(3) by (auto simp: ladder_state_def)
  define oid :: i32 where "oid = 200 + word_of_nat (Suc n)"
  have "uint (word_of_nat (Suc n) :: i32) = int (Suc n)"
    using assms(2) by (simp add: unsigned_of_nat take_bit_nat_eq_self del: of_nat_Suc)
  then have sn: "sint (word_of_nat (Suc n) :: i32) = int (Suc n)" "unat (word_of_nat (Suc n) :: i32) = Suc n"
    using sint_eq_uint [of "word_of_nat (Suc n) :: i32"] assms(2)
    by (simp_all add: unat_of_nat del: of_nat_Suc)
  have o: "add_s b 200 (word_of_nat (Suc n) :: i32) = Inr oid"
    using sn(1) assms(2) by (simp add: oid_def add_s_def fits_s_def)
  have pr: "add_u b 15000 (word_of_nat (Suc n) :: u32) = Inr (word_of_nat (15000 + Suc n))"
    using sn(2) assms(2) by (simp add: add_u_def)
  have wide: "ucast (word_of_nat (15000 + Suc n) :: u32) = (word_of_nat (15000 + Suc n) :: u64)"
    using assms(2)
    by (intro word_unat_eq_iff [THEN iffD2]) (simp add: unsigned_ucast_eq unsigned_of_nat take_bit_nat_eq_self del: of_nat_add of_nat_Suc)
  obtain p' w' g' p'' where ev: "handle_event b (mid_point_ops b) mock_ops list_writer p
       (AddOrder 1 (scast oid) Buy 9000 (word_of_nat (15000 + Suc n))) w g (word_of_nat (min n 50)) (midnight_of now_secs) =
       Inr (p', w', g', word_of_nat (min (Suc n) 50))"
    and g': "length g' = (if n < 50 then Suc (length g) else length g)"
    and p'': "fill_open_orders b iter 15000 p' = Inr p''" "ladder_processor (Suc n) p''"
    by (rule ladder_event [where b = b and oid = "scast oid" and w = w and g = g and
          t = "midnight_of now_secs", OF assms(2) p assms(1)])
  have "feed b (packet_of CHR ''A'' 1 (scast oid) 9000 (word_of_nat (15000 + Suc n)) 0 CHR ''B'' ''AAPL'') s =
      Some (Inr (market_of now_secs ((\<lambda>_. - 1)(1 := 0)) [p'] (word_of_nat (min (Suc n) 50)) w', g'))"
    using ev unfolding s feed_built market_clock wide
    by (simp add: filter_message_for_symbols_def dispatch_at event_at_def slots del: of_nat_add of_nat_Suc)
  then have "saturation_round b iter (word_of_nat (Suc n)) s =
      Some (Inr (market_of now_secs ((\<lambda>_. - 1)(1 := 0)) [p''] (word_of_nat (min (Suc n) 50)) w', g'))"
    by (simp add: saturation_round_def o pr with_processor_market p''(1) del: of_nat_add of_nat_Suc)
  moreover have "length g' = min (Suc n) 50" using g g' by auto
  ultimately show ?thesis using p''(2) by (auto simp: ladder_state_def)
qed

lemma ladder_start:
  assumes "clock_ok now_secs"
  shows "\<exists>s. saturation_market b now_secs = Some (Inr s) \<and> ladder_state now_secs 0 s"
  by (simp add: saturation_market_def setup_single [OF assms] with_processor_market feed_eval ops_simps
      ladder_state_def ladder_processor_def ladder_strategy_def bid_ladder_def mid_is_new)
     (intro exI conjI, rule refl, simp_all add: new_mid_point_def mid_is_def new_risk_def)

lemma ladder_rounds:
  assumes "iterates iter" "ladder_state now_secs 0 s"
  shows "n \<le> 2147483447 \<Longrightarrow> \<exists>s'. saturation_rounds b iter n s = Some (Inr s') \<and> ladder_state now_secs n s'"
proof (induction n)
  case (Suc n)
  then obtain s' where "saturation_rounds b iter n s = Some (Inr s')" "ladder_state now_secs n s'" by auto
  then show ?case using ladder_round [OF assms(1), of n now_secs s' b] Suc.prems by (simp del: of_nat_Suc)
qed (simp add: assms(2))

text \<open>C26: The saturation test, for any number of rounds whose order ids \<open>200 + i\<close> fit the \<open>i32\<close> the
  test computes them in, and any iteration order of the tracker: every round signals a buy of 100 shares, of which exactly the first 50 are sent; after
  \<open>n\<close> rounds the committed position and the strategy's position are both 100 times the smaller of
  \<open>n\<close> and 50, so they stay on the limit of 5000 and in step, no order is open, and the best
  bid is the last one, of 9000 shares.\<close>

theorem risk_limit_saturates:
  assumes "iterates iter" "clock_ok now_secs" "200 + n < 2 ^ 31"
  shows "\<exists>market gateway p.
     o_bind (saturation_market b now_secs) (saturation_rounds b iter n) = Some (Inr (market, gateway)) \<and>
     ms_processors market = [p] \<and> length gateway = min n 50 \<and> sp_order_tracker p = {} \<and>
     lr_current_position (sp_risk_engine p) = word_of_nat (100 * min n 50) \<and>
     sm_position (sp_strategy p) = word_of_nat (100 * min n 50) \<and>
     get_best_bid (sp_order_book p) = (if n = 0 then None else Some (word_of_nat (15000 + n), 9000))"
proof -
  obtain s s' where run: "saturation_market b now_secs = Some (Inr s)" "saturation_rounds b iter n s = Some (Inr s')"
    and "ladder_state now_secs n s'"
    using ladder_start [OF assms(2)] ladder_rounds [OF assms(1), of now_secs _ n b] assms(3) by fastforce
  then obtain p w g where s': "s' = (market_of now_secs ((\<lambda>_. - 1)(1 := 0)) [p] (word_of_nat (min n 50)) w, g)"
    and p: "ladder_processor n p" and g: "length g = min n 50"
    by (auto simp: ladder_state_def)
  have "get_best_bid (sp_order_book p) = (if n = 0 then None else Some (word_of_nat (15000 + n), 9000))"
    using p by (cases n) (simp_all add: get_best_bid_def ladder_processor_def bid_ladder_Suc bt_last_append
        bid_ladder_def [of 0] del: of_nat_add of_nat_Suc)
  then show ?thesis
    using run p g by (simp add: s' market_clock ladder_processor_def ladder_strategy_def del: of_nat_add of_nat_mult)
qed

lemma iterates_sorted: "iterates sorted_list_of_set"
  by (simp add: iterates_def)

theorem risk_limit_saturates_witness:
  "\<exists>market gateway p.
     o_bind (saturation_market Debug 86400) (saturation_rounds Debug sorted_list_of_set 51) =
       Some (Inr (market, gateway)) \<and>
     ms_processors market = [p] \<and> length gateway = 50 \<and> lr_current_position (sp_risk_engine p) = 5000 \<and>
     get_best_bid (sp_order_book p) = Some (15051, 9000)"
  using risk_limit_saturates [OF iterates_sorted, of 86400 51 Debug] by (auto simp: clock_ok_def)

lemma saturation_test_passes:
  assumes "clock_ok now_secs" "iterates iter"
  shows "test_market_handler_risk_saturation_full_itch b iter now_secs = Some (Inr ())"
proof -
  obtain s s' where run: "saturation_market b now_secs = Some (Inr s)" "saturation_rounds b iter 51 s = Some (Inr s')"
    and "ladder_state now_secs 51 s'"
    using ladder_start [OF assms(1), of b] ladder_rounds [OF assms(2), of now_secs _ 51 b] by fastforce
  then show ?thesis
    by (auto simp: test_market_handler_risk_saturation_full_itch_def ladder_state_def market_clock
        ladder_processor_def ladder_strategy_def)
qed

section \<open>The end-to-end exercise\<close>

text \<open>\<open>test_end_to_end\<close> is not run as a unit test: it was used against a live gateway. After each pair
  of packets it polls the gateway until the tracker is empty.\<close>

partial_function (option) wait_for_fills :: "build \<Rightarrow> test_state \<Rightarrow> test_state res option" where
  "wait_for_fills b s =
     (case index (ms_processors (fst s)) 0 of
        Inl e \<Rightarrow> Some (Inl e)
      | Inr p \<Rightarrow>
          if sp_order_tracker p = {} then Some (Inr s)
          else (case poll_confirmed_orders (mid_point_ops b) mock_ops (fst s) (snd s) of
                  None \<Rightarrow> None
                | Some (Inl e) \<Rightarrow> Some (Inl e)
                | Some (Inr s') \<Rightarrow> wait_for_fills b s'))"

definition end_to_end_round :: "build \<Rightarrow> u64 \<Rightarrow> test_state \<Rightarrow> test_state res option" where
  "end_to_end_round b i s =
     o_bind (Some (add_u b 100 i)) (\<lambda>ask_id.
     o_bind (Some (add_u b 15000 (ucast i))) (\<lambda>ask_price.
     o_bind (feed b (packet_of CHR ''A'' 10 ask_id 100 ask_price 0 CHR ''S'' ''AAPL'') s) (\<lambda>s.
     o_bind (Some (add_u b 1000 i)) (\<lambda>bid_id.
     o_bind (Some (add_u b 14990 (ucast i))) (\<lambda>bid_price.
     o_bind (feed b (packet_of CHR ''A'' 10 bid_id 10000 bid_price 0 CHR ''B'' ''AAPL'') s) (wait_for_fills b))))))"

definition test_end_to_end :: "build \<Rightarrow> u64 \<Rightarrow> test_state res option" where
  "test_end_to_end b now_secs =
     o_bind (setup_test_market b now_secs ''AAPL'' 10) (\<lambda>market.
     foldl (\<lambda>s i. o_bind s (end_to_end_round b (word_of_nat i))) (Some (Inr (market, []))) [0..<15])"

text \<open>The recording gateway never confirms anything, so with an open order the wait does not end.\<close>

lemma wait_ends_idle:
  assumes "wait_for_fills b s = Some r"
  shows "ms_processors (fst s) = p # ps \<longrightarrow> sp_order_tracker p = {}"
proof (rule wait_for_fills.raw_induct [OF _ assms])
  fix wait b s r
  assume IH: "\<And>b s r. wait b s = Some r \<Longrightarrow> ms_processors (fst s) = p # ps \<longrightarrow> sp_order_tracker p = {}"
    and "(case index (ms_processors (fst s)) 0 of Inl e \<Rightarrow> Some (Inl e)
      | Inr p \<Rightarrow> if sp_order_tracker p = {} then Some (Inr s)
          else (case poll_confirmed_orders (mid_point_ops b) mock_ops (fst s) (snd s) of
                  None \<Rightarrow> None
                | Some (Inl e) \<Rightarrow> Some (Inl e)
                | Some (Inr s') \<Rightarrow> wait b s')) = Some r"
  then have "ms_processors (fst s) = p # ps \<Longrightarrow> sp_order_tracker p \<noteq> {} \<Longrightarrow> wait b s = Some r"
    by (simp add: mock_poll)
  then show "ms_processors (fst s) = p # ps \<longrightarrow> sp_order_tracker p = {}"
    using IH by blast
qed

lemma end_to_end_first_round:
  assumes "clock_ok now_secs"
  obtains market where "setup_test_market b now_secs ''AAPL'' 10 = Some (Inr market)"
    and "end_to_end_round b 0 (market, []) = None"
proof -
  define m where "m = market_of now_secs ((\<lambda>_. - 1)(10 := 0)) [located ''AAPL'' 10] 0 []"
  have "\<exists>m1 g1 p1. feed b (packet_of CHR ''A'' 10 100 100 15000 0 CHR ''S'' ''AAPL'') (m, []) = Some (Inr (m1, g1)) \<and>
    (\<exists>m2 g2. feed b (packet_of CHR ''A'' 10 1000 10000 14990 0 CHR ''B'' ''AAPL'') (m1, g1) = Some (Inr (m2, g2)) \<and>
       ms_processors m2 = [p1] \<and> sp_order_tracker p1 \<noteq> {})"
    by (simp add: m_def feed_eval two_sided_eval check_def band_violation_def band_002_value new_risk_def abs_s_def)
  then obtain m1 g1 m2 g2 p1 where
    f: "feed b (packet_of CHR ''A'' 10 100 100 15000 0 CHR ''S'' ''AAPL'') (m, []) = Some (Inr (m1, g1))"
      "feed b (packet_of CHR ''A'' 10 1000 10000 14990 0 CHR ''B'' ''AAPL'') (m1, g1) = Some (Inr (m2, g2))"
    and p1: "ms_processors m2 = [p1]" "sp_order_tracker p1 \<noteq> {}" by blast
  have "wait_for_fills b (m2, g2) = None"
    using wait_ends_idle [of b "(m2, g2)" _ p1 "[]"] p1 by (cases "wait_for_fills b (m2, g2)") auto
  then have "end_to_end_round b 0 (m, []) = None"
    using f by (simp add: end_to_end_round_def add_u_def)
  then show ?thesis using that setup_single [OF assms, of b 10] by (simp add: m_def)
qed

lemma o_bind_stuck: "foldl (\<lambda>s i. o_bind s (f i)) None xs = None"
  by (induction xs) simp_all

text \<open>So the exercise never returns on the recording gateway: it hangs in its first round.\<close>

lemma end_to_end_hangs:
  assumes "clock_ok now_secs"
  shows "test_end_to_end b now_secs = None"
proof -
  obtain market where "setup_test_market b now_secs ''AAPL'' 10 = Some (Inr market)"
    and "end_to_end_round b 0 (market, []) = None"
    using end_to_end_first_round [OF assms] by blast
  moreover have "[0..<15] = 0 # [Suc 0..<15]" by (simp add: upt_rec)
  ultimately show ?thesis by (simp add: test_end_to_end_def o_bind_stuck)
qed

end
