(* ===== verification/Spec2Isabelle.thy ===== *)
theory Spec2Isabelle
  imports Demo_Live Ring_Protocol Market_Tests
begin

text \<open>
  A model of HftDemo, a trading engine in Rust, and the properties that make it correct.

  \<^bold>\<open>The program.\<close> A market data packet (ITCH 5.0) comes from a recording (\<open>apps/replay-engine\<close>) or from
  a UDP socket (\<open>apps/live-engine\<close>). \<open>crates/market-handler\<close> parses it (\<open>crates/itch-parser\<close>), finds
  the processor of its stock through a lookup table, applies the message to that processor's order
  book (\<open>crates/orderbook\<close>) and tape of trades (\<open>crates/ticker\<close>), asks the strategy
  (\<open>crates/strategies\<close>) for an order, checks the order (\<open>crates/risk-engine\<close>), numbers it and sends it
  to the exchange gateway. Then it reports its equity to the telemetry writer, and takes the fills
  the gateway has confirmed. The gateway of the replay engine fills every order at once; the gateway
  of the live engine is a pair of shared memory rings (\<open>crates/shm-ring-buffer\<close>) to and from a C++
  process. Telemetry goes through a third ring to \<open>apps/visualiser\<close>, which posts it to a database.

  \<^bold>\<open>Theories and code.\<close>
  \<^item> \<open>Prelude\<close>: machine integers, the two build profiles (overflow checks on: \<open>Debug\<close>; wrap-around:
    \<open>Release\<close>), panics as values of a sum type, checked arithmetic, indexing and slicing.
  \<^item> \<open>Rust_Bytes\<close>, \<open>Rust_String\<close>, \<open>Rust_Float\<close>, \<open>Rust_Float_Signed\<close>: byte orders and buffers; lossy UTF-8,
    trimming and decimal printing; IEEE binary32 and binary64 with round to nearest even, executable
    on integers, with the lemmas that bound its results.
  \<^item> \<open>Btree_Map\<close>: the ordered map of the standard library that the book uses, as an association list
    in key order, with the contract of an ordered map as a locale and its interpretation.
  \<^item> \<open>Common\<close> (\<open>crates/common\<close>): the enums and wire structs with their byte layouts.
  \<^item> \<open>Itch_Parser\<close>, \<open>Orderbook\<close>, \<open>Ticker\<close>, \<open>Risk_Engine\<close>, \<open>Strategies\<close>: the crates of these names. One
    definition per function; a struct is a record, an enum a datatype, a panic an error value.
  \<^item> \<open>Market_Handler\<close> (\<open>crates/market-handler\<close>): \<open>handle_event\<close> of one processor in its three parts, the
    routing of packets, the loop over confirmed orders, and the relation \<open>market_step\<close> of which
    every packet is a sequence of steps. Strategy, gateway and writer are traits in the source and
    records of operations here, so the properties hold for every implementation of them.
  \<^item> \<open>Market_Properties\<close>: the invariants of sessions, by induction over steps. \<open>Market_Event\<close>: what one
    event does, against a specification of the feed messages and of the telemetry.
  \<^item> \<open>Replay_Engine\<close> (\<open>apps/replay-engine\<close>): the simulated gateway, the loop that cuts a recording into
    packets, the ledger. \<open>Final_Balance\<close>: the numbers of \<open>print_final_pnl\<close>, and \<open>main\<close> as a whole.
  \<^item> \<open>Shm_Ring\<close> (\<open>crates/shm-ring-buffer\<close>): the ring as bytes of a mapping, sequentially.
    \<open>Ring_Protocol\<close>: the same write store by store, beside a reader that copies byte by byte.
  \<^item> \<open>Live_Engine\<close> (\<open>apps/live-engine\<close>) and \<open>Visualiser\<close> (\<open>apps/visualiser\<close>): both programs from \<open>main\<close> on.
    \<open>Telemetry_Path\<close>: the telemetry writer of the replay engine and the way of a record to the database.
  \<^item> \<open>Demo_Session\<close>, \<open>Demo_Live\<close>: one session evaluated step by step in the replay engine and in the
    live engine; the properties are instantiated on it.
  \<^item> \<open>Unit_Tests\<close>, \<open>Market_Tests\<close>: the test modules of the crates, one definition per test function, with
    the gateway, the market set-ups and the loops of the market handler's tests.

  \<^bold>\<open>What is shown.\<close>
  \<^item> Money at risk: over any session the signed quantities of the orders sent are the positions the
    risk engines committed, within 3500 shares per symbol, for any strategy and gateway
    (\<open>position_is_sum_of_orders\<close>); orders are numbered one by one and small; for the live engine as a
    whole, the shared memory holds each of these orders at its number and nothing after them
    (\<open>live_engine_session\<close>); for the replay engine as a whole, the log of the orders sent determines its
    accounts of shares, cash and last prices and from them the final balance (\<open>replay_session\<close>), and
    the total equity handed to the printing is within half a cent of the exact balance, within the
    sizes stated (\<open>final_pnl_within_half_a_cent\<close>).
  \<^item> The book refines the set of resting orders: its best prices and quantities are those of the
    orders added and not yet cancelled, and each message does what the feed specification says.
  \<^item> The decision procedures in floating point, of the strategy and of the risk check, are equal to
    specifications on integers, or within stated distances of them, for inputs within stated sizes;
    beyond them the strategy's sum of quantities overflows (\<open>quantity_sum_overflow_flips_signal\<close>).
  \<^item> The parser inverts the packet builder, and panics exactly on packets that are too short.
  \<^item> The ring delivers what is written, in order; the write of the code is a run of the store-by-store
    producer; a successful read less than a full ring behind is never torn. Two flaws are proved: the
    last slot lies outside the mapping (\<open>last_slot_outside_mapping\<close>), and a producer that is started
    again is not noticed, so its first records are lost (\<open>restart_loses_records\<close>).
  \<^item> The market handler does the same whatever the writer is, as long as the writer simulates a list
    (locale \<open>writer_simulation\<close>). So, for a replay of fewer than 1048576 records and a visualiser that
    reads beside it and afterwards often enough, the bodies posted are the records of the replay, one
    line each, in order (\<open>replayed_telemetry_reaches_database\<close>).
  \<^item> An order added under a live id leaves shares in a price level that no later operation that succeeds
    with overflow checks takes out (\<open>duplicate_id_phantom_quantity\<close>).
  \<^item> The model passes all 33 tests of the repository, in both builds (\<open>orderbook_tests_pass\<close>,
    \<open>risk_tests_pass\<close>, \<open>strategy_tests_pass\<close>, \<open>parser_tests_pass\<close>, \<open>market_tests_pass\<close> and their
    companions). The saturation test is proved for every number of rounds its \<open>i32\<close> ids allow
    (\<open>risk_limit_saturates\<close>); the end-to-end exercise, which is not run as a test, never returns (\<open>end_to_end_hangs\<close>).
  \<^item> Termination: the replay of any recording ends, with a result or a panic; polling for fills ends in
    the replay engine, and in the live engine while the exchange writes nothing more.

  \<^bold>\<open>Interfaces.\<close> Locales state what a client relies on, and are interpreted on the model of the code:
  the ordered map, the quoting strategy, gateways that drain their backlog (both engines), gateways
  that keep a ledger (the replay engine), and writers that simulate a list (the telemetry ring).

  \<^bold>\<open>Bounds.\<close> No fuel is used. The polling loop may run for ever with some gateways, so it is a partial
  function whose value \<open>None\<close> is a loop that does not end. \<open>replay_loop\<close> ends because the cursor advances,
  \<open>wait_for_file\<close> because it counts to 50. Rings have \<open>2 ^ j\<close> slots with \<open>j \<le> 50\<close> (the programs use 20),
  so that no offset overflows 64 bits. \<open>usize\<close> values that count bytes in memory are natural numbers.
  A pointer access outside its mapping is the panic \<open>Wild_Pointer\<close>: such a run has no result.

  \<^bold>\<open>Not modelled.\<close> Console output, CPU pinning, timing, sleeping, opening of files and sockets, and the HTTP
  client: their results (file contents, clocks, socket events, the CPUs found, the memory other
  processes write) are arguments. In the live engine the clock and the memory of the exchange are
  functions of the number of the gateway's call, so the exchange may write at any time, also after a
  poll that found nothing. The C++ and Python programs are outside: of the C++ side only the layout in
  which it reads an order is used. The orders in which \<open>final_pnl\<close> walks its hash maps and some tests walk
  the order tracker are arguments, for \<open>final_pnl\<close> arbitrary lists, of which the real walks are some; no
  other code walks one. Its formatting with two decimals is left out. Memory ordering is modelled as an
  interleaving of the single stores and loads in one global order. That is what x86 shows to the two
  programs; the release store of the head alone would let the stores of the next message overtake it.
\<close>

end
